(* ===== verification/Prelude.thy ===== *)
theory Prelude
  imports Complex_Main "HOL-Library.Monad_Syntax" "HOL-Library.Sublist" "HOL-Library.Log_Nat"
begin

text \<open>
  What every other theory shares: the collections of simplification and
  preservation rules, the reading of Rust panics as \<open>None\<close>, and generic facts on
  lists, options and maps.

  Conventions of the whole development:
  \<^item> a Rust \<open>String\<close>/\<open>&str\<close> is an Isabelle \<open>string\<close> holding its UTF-8 bytes, one
    \<open>char\<close> per byte;
  \<^item> \<open>Result<T, E>\<close> is the sum \<open>E + T\<close> (\<open>Inl\<close> the error);
  \<^item> an operation that can panic (an index out of range) returns \<open>option\<close>, \<open>None\<close>
    being the panic;
  \<^item> a \<open>HashMap<String, V>\<close> is a map \<open>string \<rightharpoonup> V\<close>;
  \<^item> \<open>i64\<close> values are \<open>int\<close> where the code only compares or copies them, with the
    saturating casts written out where they occur; \<open>usize\<close> indices are \<open>nat\<close>;
    a finite \<open>f64\<close> is the \<open>rat\<close> it denotes.
\<close>

named_theorems wf_intros "an operation keeps a component's invariant"
named_theorems mirror_intros "an operation's change stream keeps an observer in step"
named_theorems frame_simps "what an operation leaves alone"

section \<open>Results and panics\<close>

type_synonym 'a panics = "'a option"

abbreviation panic :: "'a panics" where
  "panic \<equiv> None"

text \<open>\<open>Option::unwrap_or\<close>.\<close>

definition unwrap_or :: "'a \<Rightarrow> 'a option \<Rightarrow> 'a" where
  "unwrap_or d x = (case x of None \<Rightarrow> d | Some v \<Rightarrow> v)"

lemma unwrap_or_simps [simp]:
  "unwrap_or d None = d" "unwrap_or d (Some v) = v"
  by (simp_all add: unwrap_or_def)

text \<open>The first element of a list that an option-valued test accepts.\<close>

fun find_map :: "('a \<Rightarrow> 'b option) \<Rightarrow> 'a list \<Rightarrow> 'b option" where
  "find_map f [] = None"
| "find_map f (x # xs) = (case f x of Some y \<Rightarrow> Some y | None \<Rightarrow> find_map f xs)"

lemma find_map_None_iff: "find_map f xs = None \<longleftrightarrow> (\<forall>x \<in> set xs. f x = None)"
  by (induction xs) (auto split: option.splits)

lemma find_map_SomeD: "find_map f xs = Some y \<Longrightarrow> \<exists>x \<in> set xs. f x = Some y"
  by (induction xs) (auto split: option.splits)

section \<open>Positions in a list\<close>

text \<open>\<open>iter().position(p)\<close> and \<open>iter().rposition(p)\<close>.\<close>

fun position :: "('a \<Rightarrow> bool) \<Rightarrow> 'a list \<Rightarrow> nat option" where
  "position P [] = None"
| "position P (x # xs) = (if P x then Some 0 else map_option Suc (position P xs))"

fun rposition :: "('a \<Rightarrow> bool) \<Rightarrow> 'a list \<Rightarrow> nat option" where
  "rposition P [] = None"
| "rposition P (x # xs) =
     (case rposition P xs of Some i \<Rightarrow> Some (Suc i) | None \<Rightarrow> if P x then Some 0 else None)"

lemma position_SomeD:
  "position P xs = Some i \<Longrightarrow> i < length xs \<and> P (xs ! i) \<and> (\<forall>j < i. \<not> P (xs ! j))"
proof (induction xs arbitrary: i)
  case (Cons x xs)
  then show ?case
    by (auto split: if_splits simp: less_Suc_eq_0_disj)
qed simp

lemma position_None_iff: "position P xs = None \<longleftrightarrow> (\<forall>x \<in> set xs. \<not> P x)"
  by (induction xs) auto

lemma rposition_None_iff: "rposition P xs = None \<longleftrightarrow> (\<forall>x \<in> set xs. \<not> P x)"
  by (induction xs) (auto split: option.splits)

lemma rposition_SomeD:
  "rposition P xs = Some i \<Longrightarrow>
     i < length xs \<and> P (xs ! i) \<and> (\<forall>j. i < j \<and> j < length xs \<longrightarrow> \<not> P (xs ! j))"
proof (induction xs arbitrary: i)
  case (Cons x xs)
  show ?case
  proof (cases "rposition P xs")
    case None
    then have "\<forall>y \<in> set xs. \<not> P y" by (simp add: rposition_None_iff)
    with Cons.prems None show ?thesis
      by (auto split: if_splits simp: nth_Cons split: nat.splits)
  next
    case (Some k)
    with Cons.IH [of k] Cons.prems show ?thesis
      by (auto simp: nth_Cons split: nat.splits)
  qed
qed simp

section \<open>Bounds-checked updates\<close>

text \<open>
  \<open>xs[i]\<close> in a Rust expression panics out of range; \<open>xs.get_mut(i)\<close> does not.
\<close>

definition index_checked :: "'a list \<Rightarrow> nat \<Rightarrow> 'a panics" where
  "index_checked xs i = (if i < length xs then Some (xs ! i) else panic)"

lemma index_checked_simps [simp]:
  "i < length xs \<Longrightarrow> index_checked xs i = Some (xs ! i)"
  "\<not> i < length xs \<Longrightarrow> index_checked xs i = None"
  by (simp_all add: index_checked_def)

section \<open>Maps\<close>

lemma map_upd_eq_Some_iff:
  "(m(k \<mapsto> v)) k' = Some w \<longleftrightarrow> (if k' = k then w = v else m k' = Some w)"
  by auto

lemma map_del_eq_Some_iff:
  "(m(k := None)) k' = Some w \<longleftrightarrow> k' \<noteq> k \<and> m k' = Some w"
  by auto

section \<open>Folding an operation that can panic\<close>

fun foldM :: "('s \<Rightarrow> 'e \<Rightarrow> ('s \<times> 'o list) panics) \<Rightarrow> 's \<Rightarrow> 'e list \<Rightarrow> ('s \<times> 'o list) panics" where
  "foldM f s [] = Some (s, [])"
| "foldM f s (e # es) =
     (case f s e of
        None \<Rightarrow> None
      | Some (s', out) \<Rightarrow>
          (case foldM f s' es of
             None \<Rightarrow> None
           | Some (s'', outs) \<Rightarrow> Some (s'', out @ outs)))"

lemma foldM_append:
  "foldM f s (xs @ ys) =
     (case foldM f s xs of
        None \<Rightarrow> None
      | Some (s', out) \<Rightarrow>
          (case foldM f s' ys of None \<Rightarrow> None | Some (s'', outs) \<Rightarrow> Some (s'', out @ outs)))"
  by (induction xs arbitrary: s) (auto split: option.splits)

lemma foldM_invariant:
  assumes "\<And>s e. I s \<Longrightarrow> e \<in> set es \<Longrightarrow> \<exists>s' out. f s e = Some (s', out) \<and> I s'"
    and "I s"
  shows "\<exists>s' out. foldM f s es = Some (s', out) \<and> I s'"
  using assms
proof (induction es arbitrary: s)
  case (Cons e es)
  from Cons.prems obtain s1 o1 where 1: "f s e = Some (s1, o1)" "I s1" by fastforce
  moreover have "\<exists>s' out. foldM f s1 es = Some (s', out) \<and> I s'"
    using Cons.prems(1) \<open>I s1\<close> by (intro Cons.IH) auto
  ultimately show ?case by auto
qed simp

end
