(* ===== verification/Json.thy ===== *)
theory Json
  imports Rust_Str
begin

text \<open>
  \<open>serde_json::Value\<close> as the code uses it, and the tolerant accessors of
  \<open>hermes_core/src/json.rs\<close>. Printing and parsing JSON text is the crate's business:
  a \<^verbatim>\<open>serde\<close> record of functions is an argument of every definition that prints
  or parses.
\<close>

section \<open>Values\<close>

text \<open>
  A number is an integer (the crate keeps \<open>u64\<close> and \<open>i64\<close> values) or a finite
  \<open>f64\<close>, given as the rational it denotes.
\<close>

datatype jnum = IntNum int | FloatNum rat

datatype json =
    JNull
  | JBool bool
  | JNum jnum
  | JStr string
  | JArr "json list"
  | JObj "(string \<times> json) list"

record serde =
  to_string :: "json \<Rightarrow> string option"
  from_str :: "string \<Rightarrow> json option"
  parse_error :: "string \<Rightarrow> string"
  num_to_string :: "jnum \<Rightarrow> string"

definition is_object :: "json \<Rightarrow> bool" where
  "is_object v = (case v of JObj _ \<Rightarrow> True | _ \<Rightarrow> False)"

text \<open>\<open>Value::get(key)\<close>: \<open>None\<close> off an object.\<close>

definition get_key :: "json \<Rightarrow> string \<Rightarrow> json option" where
  "get_key v k = (case v of JObj kvs \<Rightarrow> map_of kvs k | _ \<Rightarrow> None)"

definition as_str :: "json \<Rightarrow> string option" where
  "as_str v = (case v of JStr s \<Rightarrow> Some s | _ \<Rightarrow> None)"

definition as_bool :: "json \<Rightarrow> bool option" where
  "as_bool v = (case v of JBool b \<Rightarrow> Some b | _ \<Rightarrow> None)"

definition as_array :: "json \<Rightarrow> json list option" where
  "as_array v = (case v of JArr xs \<Rightarrow> Some xs | _ \<Rightarrow> None)"

text \<open>\<open>Map::insert\<close> and \<open>Map::remove\<close> on an object's entries.\<close>

fun obj_insert :: "string \<Rightarrow> json \<Rightarrow> (string \<times> json) list \<Rightarrow> (string \<times> json) list" where
  "obj_insert k v [] = [(k, v)]"
| "obj_insert k v ((k', v') # kvs) =
     (if k = k' then (k, v) # kvs else (k', v') # obj_insert k v kvs)"

definition obj_remove :: "string \<Rightarrow> (string \<times> json) list \<Rightarrow> (string \<times> json) list" where
  "obj_remove k kvs = filter (\<lambda>kv. fst kv \<noteq> k) kvs"

text \<open>\<open>value[k] = v\<close> on an object value.\<close>

definition set_key :: "string \<Rightarrow> json \<Rightarrow> json \<Rightarrow> json" where
  "set_key k v j = (case j of JObj kvs \<Rightarrow> JObj (obj_insert k v kvs) | _ \<Rightarrow> j)"

lemma map_of_obj_insert [simp]: "map_of (obj_insert k v kvs) = (map_of kvs)(k \<mapsto> v)"
  by (induction k v kvs rule: obj_insert.induct) (auto simp: fun_eq_iff)

lemma map_of_obj_remove [simp]: "map_of (obj_remove k kvs) = (map_of kvs)(k := None)"
  by (induction kvs) (auto simp: obj_remove_def fun_eq_iff)

lemma get_key_simps [simp]:
  "get_key JNull k = None" "get_key (JBool b) k = None" "get_key (JNum n) k = None"
  "get_key (JStr s) k = None" "get_key (JArr xs) k = None"
  "get_key (JObj kvs) k = map_of kvs k"
  by (simp_all add: get_key_def)

lemma is_object_simps [simp]:
  "is_object (JObj kvs)" "\<not> is_object JNull" "\<not> is_object (JBool b)" "\<not> is_object (JNum n)"
  "\<not> is_object (JStr s)" "\<not> is_object (JArr xs)"
  by (simp_all add: is_object_def)

lemma get_key_not_object: "\<not> is_object v \<Longrightarrow> get_key v k = None"
  by (cases v) simp_all

lemma as_str_simps [simp]:
  "as_str (JStr s) = Some s" "as_str JNull = None" "as_str (JBool b) = None"
  "as_str (JNum n) = None" "as_str (JArr xs) = None" "as_str (JObj kvs) = None"
  by (simp_all add: as_str_def)

lemma as_bool_simps [simp]:
  "as_bool (JBool b) = Some b" "as_bool JNull = None" "as_bool (JStr s) = None"
  "as_bool (JNum n) = None" "as_bool (JArr xs) = None" "as_bool (JObj kvs) = None"
  by (simp_all add: as_bool_def)

lemma as_array_simps [simp]:
  "as_array (JArr xs) = Some xs" "as_array JNull = None" "as_array (JStr s) = None"
  "as_array (JNum n) = None" "as_array (JBool b) = None" "as_array (JObj kvs) = None"
  by (simp_all add: as_array_def)

section \<open>Numbers\<close>

definition i64_min :: int where
  "i64_min = - (2 ^ 63)"

definition i64_max :: int where
  "i64_max = 2 ^ 63 - 1"

abbreviation is_i64 :: "int \<Rightarrow> bool" where
  "is_i64 n \<equiv> i64_min \<le> n \<and> n \<le> i64_max"

text \<open>\<open>as f64\<close> of an integer: round to 53 significant bits, ties to even.\<close>

definition f64_of_int :: "int \<Rightarrow> rat" where
  "f64_of_int n =
     (let a = nat \<bar>n\<bar>; e = floorlog 2 a - 53
      in if floorlog 2 a \<le> 53 then of_int n
         else let q = a div 2 ^ e; r = a mod 2 ^ e; half = 2 ^ (e - 1);
                  q' = (if half < r \<or> (r = half \<and> odd q) then q + 1 else q)
              in of_int (sgn n * int (q' * 2 ^ e)))"

definition as_i64 :: "jnum \<Rightarrow> int option" where
  "as_i64 n = (case n of IntNum i \<Rightarrow> (if is_i64 i then Some i else None) | FloatNum _ \<Rightarrow> None)"

definition as_f64 :: "jnum \<Rightarrow> rat" where
  "as_f64 n = (case n of IntNum i \<Rightarrow> f64_of_int i | FloatNum r \<Rightarrow> r)"

text \<open>The cast \<open>f as i64\<close>: truncate towards zero, then saturate.\<close>

definition f64_as_i64 :: "rat \<Rightarrow> int" where
  "f64_as_i64 r = max i64_min (min i64_max (if r < 0 then \<lceil>r\<rceil> else \<lfloor>r\<rfloor>))"

lemma f64_as_i64_range: "is_i64 (f64_as_i64 r)"
  by (auto simp: f64_as_i64_def i64_min_def i64_max_def)

lemma f64_of_int_large:
  assumes "2 ^ 63 \<le> n"
  shows "2 ^ 63 \<le> f64_of_int n"
proof -
  define a where "a = nat \<bar>n\<bar>"
  define k where "k = floorlog 2 a"
  define e where "e = k - 53"
  have a: "2 ^ 63 \<le> a" using assms by (simp add: a_def nat_le_iff le_nat_iff)
  then have "0 < a" by (metis gr0I not_numeral_le_zero power_eq_0_iff zero_neq_numeral le_zero_eq)
  then have k: "2 ^ (k - 1) \<le> a" "a < 2 ^ k"
    using floorlog_bounds [of a 2] by (auto simp: k_def)
  from a k have "(2::nat) ^ 63 < 2 ^ k" by linarith
  then have k64: "64 \<le> k" using power_less_imp_less_exp [of "2::nat" 63 k] by simp
  define q where "q = a div 2 ^ e"
  define q' where "q' = (if 2 ^ (e - 1) < a mod 2 ^ e \<or> (a mod 2 ^ e = 2 ^ (e - 1) \<and> odd q) then q + 1 else q)"
  have ke: "k - 1 = 52 + e" using k64 by (simp add: e_def)
  then have "(2::nat) ^ (k - 1) = 2 ^ 52 * 2 ^ e" by (metis power_add)
  with k(1) have "2 ^ 52 \<le> q" by (simp add: q_def less_eq_div_iff_mult_less_eq)
  then have "2 ^ 52 \<le> q'" by (simp add: q'_def)
  then have "2 ^ 52 * 2 ^ e \<le> q' * 2 ^ e" by simp
  moreover have "(2::nat) ^ 63 \<le> 2 ^ (52 + e)"
    by (rule power_increasing) (use k64 e_def in auto)
  then have "(2::nat) ^ 63 \<le> 2 ^ 52 * 2 ^ e" by (metis power_add)
  ultimately have "2 ^ 63 \<le> q' * 2 ^ e" by (rule le_trans [rotated])
  moreover have "f64_of_int n = of_int (int (q' * 2 ^ e))"
    using assms k64 unfolding f64_of_int_def Let_def q'_def q_def e_def k_def a_def by simp
  ultimately show ?thesis
    by (metis of_int_of_nat_eq of_nat_le_iff of_nat_numeral of_nat_power)
qed

section \<open>The accessors of json.rs\<close>

definition str_at :: "json \<Rightarrow> string \<Rightarrow> string" where
  "str_at v k = unwrap_or '''' (Option.bind (get_key v k) as_str)"

definition i64_at :: "json \<Rightarrow> string \<Rightarrow> int" where
  "i64_at v k =
     (case get_key v k of
        Some (JNum n) \<Rightarrow> (case as_i64 n of Some i \<Rightarrow> i | None \<Rightarrow> f64_as_i64 (as_f64 n))
      | _ \<Rightarrow> 0)"

definition bool_at :: "json \<Rightarrow> string \<Rightarrow> bool" where
  "bool_at v k = unwrap_or False (Option.bind (get_key v k) as_bool)"

definition f64_at :: "json \<Rightarrow> string \<Rightarrow> rat" where
  "f64_at v k = (case get_key v k of Some (JNum n) \<Rightarrow> as_f64 n | _ \<Rightarrow> 0)"

definition to_compact_string :: "serde \<Rightarrow> json \<Rightarrow> string" where
  "to_compact_string sj v = unwrap_or '''' (to_string sj v)"

text \<open>The string items of an array member, as the code collects them in several places.\<close>

definition array_at :: "json \<Rightarrow> string \<Rightarrow> json list" where
  "array_at v k = unwrap_or [] (Option.bind (get_key v k) as_array)"

lemma str_at_simps [simp]:
  "str_at (JObj kvs) k = (case map_of kvs k of Some (JStr s) \<Rightarrow> s | _ \<Rightarrow> '''')"
  by (auto simp: str_at_def as_str_def split: option.splits json.splits)

lemma str_at_not_object: "\<not> is_object v \<Longrightarrow> str_at v k = ''''"
  by (simp add: str_at_def get_key_not_object)

lemma bool_at_simps [simp]:
  "bool_at (JObj kvs) k = (case map_of kvs k of Some (JBool b) \<Rightarrow> b | _ \<Rightarrow> False)"
  by (auto simp: bool_at_def as_bool_def split: option.splits json.splits)

lemma i64_at_IntNum: "get_key v k = Some (JNum (IntNum i)) \<Longrightarrow> is_i64 i \<Longrightarrow> i64_at v k = i"
  by (simp add: i64_at_def as_i64_def)

lemma i64_at_default: "(\<And>n. get_key v k \<noteq> Some (JNum n)) \<Longrightarrow> i64_at v k = 0"
  by (auto simp: i64_at_def split: option.splits json.splits)

lemma array_at_simps [simp]:
  "array_at (JObj kvs) k = (case map_of kvs k of Some (JArr xs) \<Rightarrow> xs | _ \<Rightarrow> [])"
  by (auto simp: array_at_def as_array_def split: option.splits json.splits)

lemma i64_at_range: "is_i64 (i64_at v k)"
proof -
  have "is_i64 0" by (simp add: i64_min_def i64_max_def)
  then show ?thesis
    using f64_as_i64_range
    by (auto simp: i64_at_def as_i64_def split: option.splits json.splits jnum.splits if_splits)
qed

lemma i64_at_u64_saturates:
  assumes "get_key v k = Some (JNum (IntNum i))" and "i64_max < i"
  shows "i64_at v k = i64_max"
proof -
  have "2 ^ 63 \<le> f64_of_int i" by (rule f64_of_int_large) (use assms in \<open>simp add: i64_max_def\<close>)
  then have "2 ^ 63 \<le> \<lfloor>f64_of_int i\<rfloor>" by (simp add: le_floor_iff)
  moreover have "\<not> f64_of_int i < 0"
    using \<open>2 ^ 63 \<le> f64_of_int i\<close> by (meson dual_order.trans not_le zero_le_numeral zero_le_power)
  ultimately show ?thesis
    using assms by (simp add: i64_at_def as_i64_def as_f64_def f64_as_i64_def i64_max_def i64_min_def)
qed

end
