(* ===== verification/Core_Error.thy ===== *)
theory Core_Error
  imports Json
begin

text \<open>
  The error types: \<open>CoreError\<close> (\<open>hermes_core/src/error.rs\<close>), \<open>ClientError\<close>
  (\<open>rpc/client.rs\<close>), \<open>RpcError\<close> (\<open>rpc/frames.rs\<close>), the conversions between
  them, and the HTTP status mapping of \<open>auth/client.rs\<close>.
\<close>

datatype core_error =
    CoreError_InvalidQr
  | CoreError_NotConnected
  | CoreError_Timeout
  | CoreError_Rpc int string
  | CoreError_Io string
  | CoreError_Network string
  | CoreError_InvalidCredentials
  | CoreError_SessionExpired
  | CoreError_UpgradeRejected
  | CoreError_InvalidEndpoint string
  | CoreError_RateLimited
  | CoreError_UnknownProvider
  | CoreError_UnexpectedStatus
  | CoreError_Http nat

text \<open>The \<open>#[error(...)]\<close> display strings, which the app shows and classifies on.\<close>

fun core_error_display :: "core_error \<Rightarrow> string" where
  "core_error_display CoreError_InvalidQr = ''invalid QR payload''"
| "core_error_display CoreError_NotConnected = ''not connected''"
| "core_error_display CoreError_Timeout = ''operation timed out''"
| "core_error_display (CoreError_Rpc code detail) = ''rpc error '' @ show_int code @ '': '' @ detail"
| "core_error_display (CoreError_Io s) = ''io error: '' @ s"
| "core_error_display (CoreError_Network s) = ''network failure: '' @ s"
| "core_error_display CoreError_InvalidCredentials = ''invalid credentials''"
| "core_error_display CoreError_SessionExpired =
     ''session expired '' @ [CHR 0xE2, CHR 0x80, CHR 0x94] @ '' re-login required''"
| "core_error_display CoreError_UpgradeRejected = ''upgrade rejected by gateway''"
| "core_error_display (CoreError_InvalidEndpoint s) = ''invalid endpoint url: '' @ s"
| "core_error_display CoreError_RateLimited = ''rate limited''"
| "core_error_display CoreError_UnknownProvider = ''unknown auth provider''"
| "core_error_display CoreError_UnexpectedStatus = ''unexpected submit status''"
| "core_error_display (CoreError_Http code) = ''http status '' @ show_nat code"

text \<open>\<open>From<std::io::Error>\<close>: the display text of the I/O error is kept.\<close>

definition core_error_of_io :: "string \<Rightarrow> core_error" where
  "core_error_of_io e = CoreError_Io e"

datatype client_error =
    ClientError_Rpc int string
  | ClientError_Timeout nat
  | ClientError_Closed string
  | ClientError_Transport string
  | ClientError_HandshakeRejected nat

record rpc_error =
  err_code :: int
  err_message :: string
  err_data :: json

definition core_error_of_rpc_error :: "rpc_error \<Rightarrow> core_error" where
  "core_error_of_rpc_error e = CoreError_Rpc (err_code e) (err_message e)"

fun core_error_of_client_error :: "client_error \<Rightarrow> core_error" where
  "core_error_of_client_error (ClientError_Rpc code detail) = CoreError_Rpc code detail"
| "core_error_of_client_error (ClientError_Timeout _) = CoreError_Timeout"
| "core_error_of_client_error (ClientError_Closed _) = CoreError_NotConnected"
| "core_error_of_client_error (ClientError_Transport s) = CoreError_Network s"
| "core_error_of_client_error (ClientError_HandshakeRejected code) =
     (if code = 403 then CoreError_UpgradeRejected else CoreError_Http code)"

text \<open>
  A failed WebSocket handshake: the transport library reports an HTTP status or some
  other failure with a text.
\<close>

datatype ws_error = Ws_Http nat | Ws_Other string

fun client_error_of_ws :: "ws_error \<Rightarrow> client_error" where
  "client_error_of_ws (Ws_Http status) = ClientError_HandshakeRejected status"
| "client_error_of_ws (Ws_Other text) = ClientError_Transport text"

text \<open>Which route a failing HTTP response came from, and the mapping of its status.\<close>

datatype error_ctx = Ctx_Login | Ctx_Cookie | Ctx_Other

definition map_status :: "nat \<Rightarrow> error_ctx \<Rightarrow> core_error" where
  "map_status status ctx =
     (if status = 401 \<and> ctx = Ctx_Login then CoreError_InvalidCredentials
      else if status = 401 then CoreError_SessionExpired
      else if status = 429 then CoreError_RateLimited
      else if status = 404 \<and> ctx = Ctx_Login then CoreError_UnknownProvider
      else CoreError_Http status)"

section \<open>Properties\<close>

lemma core_error_of_ws_403:
  "core_error_of_client_error (client_error_of_ws e) = CoreError_UpgradeRejected \<longleftrightarrow> e = Ws_Http 403"
  by (cases e) auto

lemma map_status_session_expired_iff:
  "map_status s ctx = CoreError_SessionExpired \<longleftrightarrow> s = 401 \<and> ctx \<noteq> Ctx_Login"
  by (auto simp: map_status_def)

end
