(* ===== verification/Frames.thy ===== *)
theory Frames
  imports Core_Error
begin

text \<open>
  The JSON-RPC frame codec: \<open>hermes_core/src/protocol.rs\<close> and
  \<open>hermes_core/src/rpc/frames.rs\<close>.
\<close>

section \<open>Protocol values\<close>

record event_params =
  event_type :: string
  ev_session_id :: string
  ev_seq :: "int option"
  ev_payload :: json

record request =
  req_jsonrpc :: string
  req_id :: string
  req_method :: string
  req_params :: json

datatype decoded =
    Decoded_Result string json
  | Decoded_Error string rpc_error
  | Decoded_Event event_params
  | Decoded_Ignored

text \<open>The derived serializer of \<^typ>\<open>request\<close>: one object with the fields in order.\<close>

definition request_to_value :: "request \<Rightarrow> json" where
  "request_to_value r =
     JObj [(''jsonrpc'', JStr (req_jsonrpc r)), (''id'', JStr (req_id r)),
           (''method'', JStr (req_method r)), (''params'', req_params r)]"

section \<open>Splitting and decoding\<close>

text \<open>\<open>split_lines\<close>: the non-blank lines of a frame, without a trailing carriage return.\<close>

definition split_lines :: "string \<Rightarrow> string list" where
  "split_lines frame =
     filter (\<lambda>l. trim l \<noteq> '''') (map (trim_end_matches cr) (split_on nl frame))"

definition id_to_string :: "serde \<Rightarrow> json option \<Rightarrow> string option" where
  "id_to_string sj v =
     (case v of
        Some (JStr s) \<Rightarrow> Some s
      | Some (JNum n) \<Rightarrow> Some (num_to_string sj n)
      | _ \<Rightarrow> None)"

text \<open>
  The event branch: \<open>params\<close> is taken out of the message, \<open>seq\<close> is read only when it is a
  number, and the payload is moved out of \<open>params\<close> when that is an object.
\<close>

definition decode_event :: "json \<Rightarrow> event_params" where
  "decode_event value =
     (let params = unwrap_or JNull (get_key value ''params'');
          seq = (case get_key params ''seq'' of
                   Some (JNum _) \<Rightarrow> Some (i64_at params ''seq'')
                 | _ \<Rightarrow> None);
          payload = unwrap_or JNull (get_key params ''payload'');
          params' = (case params of JObj kvs \<Rightarrow> JObj (obj_remove ''payload'' kvs) | _ \<Rightarrow> params)
      in \<lparr>event_type = str_at params' ''type'', ev_session_id = str_at params' ''session_id'',
          ev_seq = seq, ev_payload = payload\<rparr>)"

definition decode_value :: "serde \<Rightarrow> json \<Rightarrow> decoded" where
  "decode_value sj value =
     (if Option.bind (get_key value ''jsonrpc'') as_str \<noteq> Some ''2.0'' then Decoded_Ignored
      else if Option.bind (get_key value ''method'') as_str = Some ''event''
      then Decoded_Event (decode_event value)
      else case id_to_string sj (get_key value ''id'') of
             None \<Rightarrow> Decoded_Ignored
           | Some i \<Rightarrow>
               (case get_key value ''error'' of
                  Some err \<Rightarrow>
                    Decoded_Error i
                      \<lparr>err_code = i64_at err ''code'', err_message = str_at err ''message'',
                       err_data = unwrap_or JNull (get_key err ''data'')\<rparr>
                | None \<Rightarrow>
                    (case get_key value ''result'' of
                       Some result \<Rightarrow> Decoded_Result i result
                     | None \<Rightarrow> Decoded_Ignored)))"

definition decode :: "serde \<Rightarrow> string \<Rightarrow> decoded option" where
  "decode sj line = map_option (decode_value sj) (from_str sj (trim line))"

section \<open>Lemmas\<close>

text \<open>Removing the payload does not disturb the other members of \<open>params\<close>.\<close>

lemma str_at_obj_remove: "k \<noteq> k' \<Longrightarrow> str_at (JObj (obj_remove k' kvs)) k = str_at (JObj kvs) k"
  by simp

lemma decode_event_fields:
  assumes "get_key value ''params'' = Some (JObj kvs)"
  shows "event_type (decode_event value) = str_at (JObj kvs) ''type''"
    and "ev_session_id (decode_event value) = str_at (JObj kvs) ''session_id''"
    and "ev_payload (decode_event value) = unwrap_or JNull (map_of kvs ''payload'')"
  using assms by (simp_all add: decode_event_def Let_def)

lemma decode_event_seq_range: "ev_seq (decode_event value) = Some n \<Longrightarrow> is_i64 n"
  using i64_at_range
  by (auto simp: decode_event_def Let_def split: option.splits json.splits)

lemma decode_None_iff: "decode sj line = None \<longleftrightarrow> from_str sj (trim line) = None"
  by (simp add: decode_def)

lemma decode_value_event:
  "Option.bind (get_key v ''jsonrpc'') as_str = Some ''2.0'' \<Longrightarrow>
   Option.bind (get_key v ''method'') as_str = Some ''event'' \<Longrightarrow>
   decode_value sj v = Decoded_Event (decode_event v)"
  by (simp add: decode_value_def)

text \<open>No line of a frame survives splitting with a newline in it, and none is blank.\<close>

lemma set_trim_end_matches: "set (trim_end_matches c s) \<subseteq> set s"
  by (auto simp: trim_end_matches_def dest: set_dropWhileD)

lemma split_lines_clean:
  assumes "l \<in> set (split_lines frame)"
  shows "nl \<notin> set l" "trim l \<noteq> ''''" "last l \<noteq> cr"
proof -
  from assms obtain w where w: "w \<in> set (split_on nl frame)" "l = trim_end_matches cr w"
    and ne: "trim l \<noteq> ''''"
    by (auto simp: split_lines_def)
  from w(1) have "nl \<notin> set w" by (rule split_on_no_sep)
  with w(2) set_trim_end_matches show "nl \<notin> set l" by blast
  show "trim l \<noteq> ''''" by (rule ne)
  from ne have "l \<noteq> []" by auto
  with w(2) trim_end_matches_last show "last l \<noteq> cr" by metis
qed

text \<open>Coalescing: a frame of several lines is the lines of its parts.\<close>

lemma split_on_append_nl:
  "split_on c (s @ c # t) = split_on c s @ split_on c t"
  by (induction s) (auto split: list.splits)

lemma split_lines_append: "split_lines (a @ nl # b) = split_lines a @ split_lines b"
  by (simp add: split_lines_def split_on_append_nl)

end
