(* ===== verification/Transcript_Model.thy ===== *)
theory Transcript_Model
  imports Frames
begin

text \<open>
  The transcript data model: \<open>hermes_core/src/transcript/model.rs\<close>.
\<close>

datatype status_kind =
    StatusKind_Status
  | StatusKind_Lifecycle
  | StatusKind_Compacting
  | StatusKind_Compacted
  | StatusKind_Heartbeat
  | StatusKind_Other string

definition status_kind_parse :: "string \<Rightarrow> status_kind" where
  "status_kind_parse kind =
     (if kind = ''status'' then StatusKind_Status
      else if kind = ''lifecycle'' then StatusKind_Lifecycle
      else if kind = ''compacting'' then StatusKind_Compacting
      else if kind = ''compacted'' then StatusKind_Compacted
      else if kind = ''heartbeat'' then StatusKind_Heartbeat
      else StatusKind_Other kind)"

record tool_card =
  tool_id :: string
  tool_name :: string
  complete :: bool
  tool_context :: string
  args_json :: string
  result_json :: string
  duration_s :: rat

record approval_card =
  appr_request_id :: string
  appr_command :: string
  appr_description :: string
  appr_choices :: "string list"
  appr_resolved :: bool

record clarify_question =
  qid :: string
  question :: string
  q_choices :: "string list"
  multi_select :: bool

record clarify_card =
  clar_request_id :: string
  clar_questions :: "clarify_question list"
  clar_resolved :: bool

text \<open>\<open>Assistant\<close> carries its text, streaming flag, usage JSON and warning.\<close>

datatype row_kind =
    User string
  | Assistant string bool string string
  | Thinking string
  | Tool tool_card
  | Approval approval_card
  | Clarify clarify_card
  | Status status_kind string
  | ErrorRow string

record row =
  index :: nat
  kind :: row_kind

record session_header =
  h_title :: string
  h_model :: string
  h_cwd :: string
  h_branch :: string
  h_usage_json :: string

record transcript =
  rows :: "row list"
  header :: session_header

definition default_header :: session_header where
  "default_header =
     \<lparr>h_title = '''', h_model = '''', h_cwd = '''', h_branch = '''', h_usage_json = ''''\<rparr>"

definition default_transcript :: transcript where
  "default_transcript = \<lparr>rows = [], header = default_header\<rparr>"

text \<open>\<open>Transcript::kind_at\<close>.\<close>

fun kind_name :: "row_kind \<Rightarrow> string" where
  "kind_name (User _) = ''user''"
| "kind_name (Assistant _ _ _ _) = ''assistant''"
| "kind_name (Thinking _) = ''thinking''"
| "kind_name (Tool _) = ''tool''"
| "kind_name (Approval _) = ''approval''"
| "kind_name (Clarify _) = ''clarify''"
| "kind_name (Status _ _) = ''status''"
| "kind_name (ErrorRow _) = ''error''"

definition kind_at :: "transcript \<Rightarrow> nat \<Rightarrow> string" where
  "kind_at t i = (if i < length (rows t) then kind_name (kind (rows t ! i)) else '''')"

text \<open>Recognisers of the kinds the reducer's bookkeeping points at.\<close>

fun is_streaming_assistant :: "row_kind \<Rightarrow> bool" where
  "is_streaming_assistant (Assistant _ s _ _) = s"
| "is_streaming_assistant _ = False"

fun is_thinking :: "row_kind \<Rightarrow> bool" where
  "is_thinking (Thinking _) = True"
| "is_thinking _ = False"

fun tool_of :: "row_kind \<Rightarrow> tool_card option" where
  "tool_of (Tool c) = Some c"
| "tool_of _ = None"

fun approval_of :: "row_kind \<Rightarrow> approval_card option" where
  "approval_of (Approval c) = Some c"
| "approval_of _ = None"

lemma is_streaming_assistantE:
  "is_streaming_assistant k \<Longrightarrow> (\<And>t u w. k = Assistant t True u w \<Longrightarrow> P) \<Longrightarrow> P"
  by (cases k) auto

lemma is_thinkingE: "is_thinking k \<Longrightarrow> (\<And>t. k = Thinking t \<Longrightarrow> P) \<Longrightarrow> P"
  by (cases k) auto

lemma tool_of_Some [simp]: "tool_of k = Some c \<longleftrightarrow> k = Tool c"
  by (cases k) auto

lemma approval_of_Some [simp]: "approval_of k = Some c \<longleftrightarrow> k = Approval c"
  by (cases k) auto

end
