(* ===== verification/Reducer.thy ===== *)
theory Reducer
  imports Transcript_Model
begin

text \<open>
  The per-session transcript state machine: \<open>hermes_core/src/transcript/reducer.rs\<close>.
  One definition per method, in the order of the file. A handler returns the new reducer
  and the changes it emits, or panics where the code indexes \<open>rows[i]\<close> out of range.
\<close>

section \<open>State and change stream\<close>

datatype transcript_change =
    RowAppended nat
  | RowUpdated nat
  | Reset
  | HeaderUpdated

record session_change =
  sc_key :: string
  sc_change :: transcript_change

record reducer =
  r_state :: transcript
  streaming :: "nat option"
  thinking :: "nat option"
  tools :: "string \<rightharpoonup> nat"

type_synonym handler_result = "(reducer \<times> transcript_change list) panics"

definition new_reducer :: reducer where
  "new_reducer =
     \<lparr>r_state = default_transcript, streaming = None, thinking = None, tools = Map.empty\<rparr>"

abbreviation r_rows :: "reducer \<Rightarrow> row list" where
  "r_rows r \<equiv> rows (r_state r)"

abbreviation r_kind :: "reducer \<Rightarrow> nat \<Rightarrow> row_kind" where
  "r_kind r i \<equiv> kind (r_rows r ! i)"

definition is_streaming :: "reducer \<Rightarrow> bool" where
  "is_streaming r \<longleftrightarrow> streaming r \<noteq> None"

definition is_unresolved_approval :: "string \<Rightarrow> row_kind \<Rightarrow> bool" where
  "is_unresolved_approval rid k =
     (case k of Approval c \<Rightarrow> appr_request_id c = rid \<and> \<not> appr_resolved c | _ \<Rightarrow> False)"

definition is_unresolved_clarify :: "string \<Rightarrow> row_kind \<Rightarrow> bool" where
  "is_unresolved_clarify rid k =
     (case k of Clarify c \<Rightarrow> clar_request_id c = rid \<and> \<not> clar_resolved c | _ \<Rightarrow> False)"

definition has_unresolved_approval :: "reducer \<Rightarrow> string \<Rightarrow> bool" where
  "has_unresolved_approval r rid \<longleftrightarrow> (\<exists>row \<in> set (r_rows r). is_unresolved_approval rid (kind row))"

text \<open>\<open>self.state.rows.push(Row { index: self.state.rows.len(), kind })\<close>.\<close>

definition push_row :: "row_kind \<Rightarrow> reducer \<Rightarrow> reducer" where
  "push_row k r =
     r\<lparr>r_state := (r_state r)\<lparr>rows := r_rows r @ [\<lparr>index = length (r_rows r), kind = k\<rparr>]\<rparr>\<rparr>"

text \<open>
  A mutation of the kind of row \<open>i\<close>: \<open>modify_kind\<close> where the index is known to be good
  (through \<open>get_mut\<close>), \<open>update_kind\<close> for the indexing expression \<open>rows[i]\<close>.
\<close>

definition modify_kind :: "nat \<Rightarrow> (row_kind \<Rightarrow> row_kind) \<Rightarrow> reducer \<Rightarrow> reducer" where
  "modify_kind i f r =
     r\<lparr>r_state := (r_state r)\<lparr>rows :=
         (r_rows r)[i := (r_rows r ! i)\<lparr>kind := f (r_kind r i)\<rparr>]\<rparr>\<rparr>"

definition update_kind :: "nat \<Rightarrow> (row_kind \<Rightarrow> row_kind) \<Rightarrow> reducer \<Rightarrow> reducer panics" where
  "update_kind i f r = (if i < length (r_rows r) then Some (modify_kind i f r) else panic)"

definition wrap :: "string \<Rightarrow> transcript_change list \<Rightarrow> session_change list" where
  "wrap key changes = map (\<lambda>c. \<lparr>sc_key = key, sc_change = c\<rparr>) changes"

section \<open>Helpers of the event handlers\<close>

text \<open>\<open>str_list\<close>: the strings of an array; anything else is the empty list.\<close>

definition str_list :: "json option \<Rightarrow> string list" where
  "str_list v = List.map_filter as_str (unwrap_or [] (Option.bind v as_array))"

definition is_pending_placeholder :: "string \<Rightarrow> row \<Rightarrow> bool" where
  "is_pending_placeholder name row =
     (case kind row of Tool c \<Rightarrow> tool_id c = '''' \<and> tool_name c = name | _ \<Rightarrow> False)"

definition pending_generating_row :: "reducer \<Rightarrow> string \<Rightarrow> nat option" where
  "pending_generating_row r name = rposition (is_pending_placeholder name) (r_rows r)"

definition find_kind :: "reducer \<Rightarrow> (row_kind \<Rightarrow> bool) \<Rightarrow> nat option" where
  "find_kind r P = position (\<lambda>row. P (kind row)) (r_rows r)"

definition append_streaming_text :: "reducer \<Rightarrow> string \<Rightarrow> reducer \<times> transcript_change list" where
  "append_streaming_text r text =
     (let open_row =
        (let i = length (r_rows r)
         in ((push_row (Assistant text True '''' '''') r)\<lparr>streaming := Some i\<rparr>, [RowAppended i]))
      in if text = '''' then (r, [])
         else case streaming r of
           Some i \<Rightarrow>
             if i < length (r_rows r) then
               (case r_kind r i of
                  Assistant slot s u w \<Rightarrow>
                    (modify_kind i (\<lambda>_. Assistant (slot @ text) s u w) r, [RowUpdated i])
                | _ \<Rightarrow> open_row)
             else open_row
         | None \<Rightarrow> open_row)"

definition merge_field :: "string \<Rightarrow> string \<Rightarrow> string" where
  "merge_field new old = (if new = '''' then old else new)"

definition merge_header :: "reducer \<Rightarrow> session_header \<Rightarrow> reducer \<times> transcript_change list" where
  "merge_header r info =
     (if h_title info = '''' \<and> h_model info = '''' \<and> h_cwd info = '''' \<and> h_branch info = ''''
         \<and> h_usage_json info = ''''
      then (r, [])
      else
        (let h = header (r_state r);
             h' = \<lparr>h_title = merge_field (h_title info) (h_title h),
                   h_model = merge_field (h_model info) (h_model h),
                   h_cwd = merge_field (h_cwd info) (h_cwd h),
                   h_branch = merge_field (h_branch info) (h_branch h),
                   h_usage_json = merge_field (h_usage_json info) (h_usage_json h)\<rparr>
         in (r\<lparr>r_state := (r_state r)\<lparr>header := h'\<rparr>\<rparr>, [HeaderUpdated])))"

section \<open>Event handlers\<close>

definition on_message_start :: "reducer \<Rightarrow> reducer \<times> transcript_change list" where
  "on_message_start r =
     (let i = length (r_rows r)
      in ((push_row (Assistant '''' True '''' '''') r)\<lparr>thinking := None, streaming := Some i\<rparr>,
          [RowAppended i]))"

definition on_message_delta :: "reducer \<Rightarrow> json \<Rightarrow> reducer \<times> transcript_change list" where
  "on_message_delta r payload = append_streaming_text r (str_at payload ''text'')"

definition on_message_interim :: "reducer \<Rightarrow> json \<Rightarrow> reducer \<times> transcript_change list" where
  "on_message_interim r payload =
     (let already_streamed = bool_at payload ''already_streamed'';
          seal = (\<lambda>k. case k of
                    Assistant slot s u w \<Rightarrow>
                      Assistant (if already_streamed then slot else str_at payload ''text'') False u w
                  | _ \<Rightarrow> k)
      in case streaming r of
           None \<Rightarrow> (r, [])
         | Some i \<Rightarrow>
             ((if i < length (r_rows r) then modify_kind i seal r else r)\<lparr>streaming := None\<rparr>,
              [RowUpdated i]))"

definition on_message_complete :: "serde \<Rightarrow> reducer \<Rightarrow> json \<Rightarrow> handler_result" where
  "on_message_complete sj r payload =
     (if \<not> is_object payload then Some (r, [])
      else
        (let text = str_at payload ''text'';
             usage = unwrap_or '''' (map_option (to_compact_string sj) (get_key payload ''usage''));
             warning = str_at payload ''warning''
         in case streaming r of
              None \<Rightarrow> Some (r, [])
            | Some target \<Rightarrow>
                map_option (\<lambda>r'. (r'\<lparr>streaming := None\<rparr>, [RowUpdated target]))
                  (update_kind target
                    (\<lambda>k. case k of Assistant _ _ _ _ \<Rightarrow> Assistant text False usage warning | _ \<Rightarrow> k) r)))"

definition on_thinking_delta :: "reducer \<Rightarrow> json \<Rightarrow> handler_result" where
  "on_thinking_delta r payload =
     (let text = str_at payload ''text'';
          fresh =
            (let i = length (r_rows r)
             in ((push_row (Thinking text) r)\<lparr>thinking := Some i\<rparr>, [RowAppended i]))
      in case thinking r of
           None \<Rightarrow> Some fresh
         | Some i \<Rightarrow>
             if i < length (r_rows r) then
               (case r_kind r i of
                  Thinking slot \<Rightarrow> Some (modify_kind i (\<lambda>_. Thinking (slot @ text)) r, [RowUpdated i])
                | _ \<Rightarrow> Some fresh)
             else panic)"

definition on_tool_generating :: "reducer \<Rightarrow> json \<Rightarrow> reducer \<times> transcript_change list" where
  "on_tool_generating r payload =
     (let card = \<lparr>tool_id = '''', tool_name = str_at payload ''name'', complete = False,
                  tool_context = '''', args_json = '''', result_json = '''', duration_s = 0\<rparr>
      in (push_row (Tool card) r, [RowAppended (length (r_rows r))]))"

definition on_tool_start :: "serde \<Rightarrow> reducer \<Rightarrow> json \<Rightarrow> handler_result" where
  "on_tool_start sj r payload =
     (let tid = str_at payload ''tool_id'';
          name = str_at payload ''name'';
          ctx = str_at payload ''context'';
          args = unwrap_or '''' (map_option (to_compact_string sj) (get_key payload ''args''))
      in if tid = '''' then Some (r, [])
         else case tools r tid of
           Some i \<Rightarrow>
             map_option (\<lambda>r'. (r', [RowUpdated i]))
               (update_kind i
                 (\<lambda>k. case k of
                    Tool c \<Rightarrow> Tool (c\<lparr>tool_name := name, tool_context := ctx, args_json := args,
                                     complete := False\<rparr>)
                  | _ \<Rightarrow> k) r)
         | None \<Rightarrow>
             (case pending_generating_row r name of
                Some i \<Rightarrow>
                  map_option (\<lambda>r'. (r'\<lparr>tools := (tools r)(tid \<mapsto> i)\<rparr>, [RowUpdated i]))
                    (update_kind i
                      (\<lambda>k. case k of
                         Tool c \<Rightarrow> Tool (c\<lparr>tool_id := tid, tool_context := ctx, args_json := args\<rparr>)
                       | _ \<Rightarrow> k) r)
              | None \<Rightarrow>
                  (let i = length (r_rows r);
                       card = \<lparr>tool_id = tid, tool_name = name, complete = False,
                               tool_context = ctx, args_json = args, result_json = '''',
                               duration_s = 0\<rparr>
                   in Some ((push_row (Tool card) r)\<lparr>tools := (tools r)(tid \<mapsto> i)\<rparr>,
                            [RowAppended i]))))"

definition on_tool_progress :: "reducer \<Rightarrow> json \<Rightarrow> reducer \<times> transcript_change list" where
  "on_tool_progress r payload =
     (let preview = str_at payload ''preview''; tid = str_at payload ''tool_id''
      in if preview = '''' then (r, [])
         else case tools r tid of
           None \<Rightarrow> (r, [])
         | Some i \<Rightarrow>
             if i < length (r_rows r) then
               (case r_kind r i of
                  Tool c \<Rightarrow> (modify_kind i (\<lambda>_. Tool (c\<lparr>tool_context := preview\<rparr>)) r, [RowUpdated i])
                | _ \<Rightarrow> (r, []))
             else (r, []))"

definition on_tool_complete :: "serde \<Rightarrow> reducer \<Rightarrow> json \<Rightarrow> handler_result" where
  "on_tool_complete sj r payload =
     (let tid = str_at payload ''tool_id'';
          res = unwrap_or '''' (map_option (to_compact_string sj) (get_key payload ''result''));
          dur = f64_at payload ''duration_s''
      in case tools r tid of
           None \<Rightarrow> Some (r, [])
         | Some i \<Rightarrow>
             map_option (\<lambda>r'. (r', [RowUpdated i]))
               (update_kind i
                 (\<lambda>k. case k of
                    Tool c \<Rightarrow> Tool (c\<lparr>result_json := res, duration_s := dur, complete := True\<rparr>)
                  | _ \<Rightarrow> k) r))"

definition on_status_update :: "reducer \<Rightarrow> json \<Rightarrow> reducer \<times> transcript_change list" where
  "on_status_update r payload =
     (let kind_str = str_at payload ''kind''; k = status_kind_parse kind_str
      in if kind_str = '''' then (r, [])
         else if k = StatusKind_Heartbeat then (r, [])
         else (push_row (Status k (str_at payload ''text'')) r, [RowAppended (length (r_rows r))]))"

definition on_approval_request :: "reducer \<Rightarrow> json \<Rightarrow> reducer \<times> transcript_change list" where
  "on_approval_request r payload =
     (let rid = str_at payload ''request_id'';
          card = \<lparr>appr_request_id = rid, appr_command = str_at payload ''command'',
                  appr_description = str_at payload ''description'',
                  appr_choices = str_list (get_key payload ''choices''), appr_resolved = False\<rparr>
      in if rid = '''' then (r, [])
         else (push_row (Approval card) r, [RowAppended (length (r_rows r))]))"

definition clarify_question_of :: "json \<Rightarrow> clarify_question" where
  "clarify_question_of q =
     \<lparr>qid = (if str_at q ''qid'' = '''' then ''q0'' else str_at q ''qid''),
      question = str_at q ''question'', q_choices = str_list (get_key q ''choices''),
      multi_select = bool_at q ''multi_select''\<rparr>"

text \<open>The questions of either wire shape; \<open>None\<close> where the handler returns early.\<close>

definition clarify_questions_of :: "json \<Rightarrow> clarify_question list option" where
  "clarify_questions_of payload =
     (case Option.bind (get_key payload ''questions'') as_array of
        Some qs \<Rightarrow> Some (map clarify_question_of qs)
      | None \<Rightarrow>
          (if str_at payload ''question'' = '''' then None
           else Some [\<lparr>qid = ''q0'', question = str_at payload ''question'',
                       q_choices = str_list (get_key payload ''choices''),
                       multi_select = bool_at payload ''multi_select''\<rparr>]))"

definition on_clarify_request :: "reducer \<Rightarrow> json \<Rightarrow> reducer \<times> transcript_change list" where
  "on_clarify_request r payload =
     (case clarify_questions_of payload of
        None \<Rightarrow> (r, [])
      | Some qs \<Rightarrow>
          if qs = [] then (r, [])
          else
            (push_row (Clarify \<lparr>clar_request_id = str_at payload ''request_id'',
                               clar_questions = qs, clar_resolved = False\<rparr>) r,
             [RowAppended (length (r_rows r))]))"

definition on_session_info :: "serde \<Rightarrow> reducer \<Rightarrow> json \<Rightarrow> reducer \<times> transcript_change list" where
  "on_session_info sj r payload =
     merge_header r
       \<lparr>h_title = str_at payload ''title'', h_model = str_at payload ''model'',
        h_cwd = str_at payload ''cwd'', h_branch = str_at payload ''branch'',
        h_usage_json =
          unwrap_or '''' (map_option (to_compact_string sj) (get_key payload ''usage''))\<rparr>"

definition on_session_title :: "reducer \<Rightarrow> json \<Rightarrow> reducer \<times> transcript_change list" where
  "on_session_title r payload =
     merge_header r (default_header\<lparr>h_title := str_at payload ''title''\<rparr>)"

definition on_error :: "reducer \<Rightarrow> json \<Rightarrow> reducer \<times> transcript_change list" where
  "on_error r payload =
     (push_row (ErrorRow (str_at payload ''message'')) r, [RowAppended (length (r_rows r))])"

section \<open>The public operations\<close>

text \<open>The dispatch of \<open>apply\<close> on the event type.\<close>

definition dispatch :: "serde \<Rightarrow> reducer \<Rightarrow> string \<Rightarrow> json \<Rightarrow> handler_result" where
  "dispatch sj r ty payload =
     (if ty = ''message.start'' then Some (on_message_start r)
      else if ty = ''message.delta'' then Some (on_message_delta r payload)
      else if ty = ''message.interim'' then Some (on_message_interim r payload)
      else if ty = ''message.complete'' then on_message_complete sj r payload
      else if ty = ''thinking.delta'' \<or> ty = ''reasoning.delta'' then on_thinking_delta r payload
      else if ty = ''tool.generating'' then Some (on_tool_generating r payload)
      else if ty = ''tool.start'' then on_tool_start sj r payload
      else if ty = ''tool.progress'' then Some (on_tool_progress r payload)
      else if ty = ''tool.complete'' then on_tool_complete sj r payload
      else if ty = ''status.update'' then Some (on_status_update r payload)
      else if ty = ''approval.request'' then Some (on_approval_request r payload)
      else if ty = ''clarify.request'' then Some (on_clarify_request r payload)
      else if ty = ''session.info'' then Some (on_session_info sj r payload)
      else if ty = ''session.title'' then Some (on_session_title r payload)
      else if ty = ''error'' then Some (on_error r payload)
      else Some (r, []))"

definition reducer_apply ::
  "serde \<Rightarrow> reducer \<Rightarrow> event_params \<Rightarrow> (reducer \<times> session_change list) panics" where
  "reducer_apply sj r ev =
     (if ev_session_id ev = '''' then Some (r, [])
      else map_option (\<lambda>(r', changes). (r', wrap (ev_session_id ev) changes))
             (dispatch sj r (event_type ev) (ev_payload ev)))"

definition resolve_approval ::
  "reducer \<Rightarrow> string \<Rightarrow> string \<Rightarrow> (reducer \<times> session_change list) panics" where
  "resolve_approval r key rid =
     (case find_kind r (is_unresolved_approval rid) of
        None \<Rightarrow> Some (r, wrap key [])
      | Some i \<Rightarrow>
          map_option (\<lambda>r'. (r', wrap key [RowUpdated i]))
            (update_kind i
              (\<lambda>k. case k of Approval c \<Rightarrow> Approval (c\<lparr>appr_resolved := True\<rparr>) | _ \<Rightarrow> k) r))"

definition resolve_clarify ::
  "reducer \<Rightarrow> string \<Rightarrow> string \<Rightarrow> (reducer \<times> session_change list) panics" where
  "resolve_clarify r key rid =
     (case find_kind r (is_unresolved_clarify rid) of
        None \<Rightarrow> Some (r, wrap key [])
      | Some i \<Rightarrow>
          map_option (\<lambda>r'. (r', wrap key [RowUpdated i]))
            (update_kind i
              (\<lambda>k. case k of Clarify c \<Rightarrow> Clarify (c\<lparr>clar_resolved := True\<rparr>) | _ \<Rightarrow> k) r))"

definition reset_from_resume :: "reducer \<Rightarrow> string \<Rightarrow> reducer \<times> session_change list" where
  "reset_from_resume r key = (new_reducer, wrap key [Reset])"

text \<open>One message of a resume history; a non-object entry is skipped.\<close>

definition history_kind :: "json \<Rightarrow> row_kind" where
  "history_kind msg =
     (let role = str_at msg ''role''; text = str_at msg ''text''
      in if role = ''tool''
         then Tool \<lparr>tool_id = str_at (unwrap_or JNull (get_key msg ''display_metadata'')) ''tool_id'',
                    tool_name = str_at msg ''name'', complete = True,
                    tool_context = str_at msg ''context'', args_json = '''', result_json = text,
                    duration_s = 0\<rparr>
         else if role = ''user'' \<or> role = ''system'' then User text
         else Assistant text False '''' '''')"

definition ingest_message :: "reducer \<Rightarrow> json \<Rightarrow> reducer \<times> transcript_change list" where
  "ingest_message r msg =
     (if \<not> is_object msg then (r, [])
      else
        (let i = length (r_rows r); k = history_kind msg
         in ((push_row k r)\<lparr>tools :=
                (case k of
                   Tool c \<Rightarrow> (if tool_id c = '''' then tools r else (tools r)(tool_id c \<mapsto> i))
                 | _ \<Rightarrow> tools r)\<rparr>,
             [RowAppended i])))"

fun ingest_messages :: "reducer \<Rightarrow> json list \<Rightarrow> reducer \<times> transcript_change list" where
  "ingest_messages r [] = (r, [])"
| "ingest_messages r (m # ms) =
     (let (r', c) = ingest_message r m; (r'', cs) = ingest_messages r' ms in (r'', c @ cs))"

definition ingest_resume_messages ::
  "reducer \<Rightarrow> string \<Rightarrow> json list \<Rightarrow> reducer \<times> session_change list" where
  "ingest_resume_messages r key msgs =
     (let (r', cs) = ingest_messages new_reducer msgs in (r', wrap key (Reset # cs)))"

definition append_user_row :: "reducer \<Rightarrow> string \<Rightarrow> string \<Rightarrow> reducer \<times> session_change list" where
  "append_user_row r key text =
     (push_row (User text) r, wrap key [RowAppended (length (r_rows r))])"

text \<open>
  \<open>apply_approval_card\<close>: the outer option is the panic of \<open>reducer_apply\<close>, the inner one
  the \<open>None\<close> the method returns when nothing was emitted. The reducer is changed only in
  the inner \<open>Some\<close> case, or by an \<open>apply\<close> that emits nothing.
\<close>

definition approval_card_event :: "string \<Rightarrow> string \<Rightarrow> json \<Rightarrow> event_params" where
  "approval_card_event key rid payload =
     \<lparr>event_type = ''approval.request'', ev_session_id = key, ev_seq = None,
      ev_payload = set_key ''request_id'' (JStr rid) payload\<rparr>"

definition apply_approval_card ::
  "serde \<Rightarrow> reducer \<Rightarrow> string \<Rightarrow> string \<Rightarrow> json \<Rightarrow> (reducer \<times> session_change list option) panics" where
  "apply_approval_card sj r key rid payload =
     (if rid = '''' then Some (r, None)
      else map_option (\<lambda>(r', changes). (r', if changes = [] then None else Some changes))
             (reducer_apply sj r (approval_card_event key rid payload)))"

end
