(* ===== verification/Change_Stream.thy ===== *)
theory Change_Stream
  imports Reducer
begin

text \<open>
  The contract of the change stream: an observer (the app's row list) that applies the
  changes it is sent holds the same rows as the producer. The observer is the row list of
  both apps: an append or an update at an index sets that slot, padding a gap; a reset
  clears the list.

  The locale states the contract for any producer of changes; its lemmas lift it from one
  operation to a whole run.
\<close>

section \<open>The observer\<close>

definition put_at :: "'v \<Rightarrow> nat \<Rightarrow> 'v \<Rightarrow> 'v list \<Rightarrow> 'v list" where
  "put_at blank i v ui = (ui @ replicate (Suc i - length ui) blank)[i := v]"

definition slot_at :: "'v \<Rightarrow> 'v list \<Rightarrow> nat \<Rightarrow> 'v" where
  "slot_at blank vs i = (if i < length vs then vs ! i else blank)"

text \<open>\<open>final\<close> is what the producer's rows look like when the change is delivered.\<close>

fun observe :: "'v \<Rightarrow> 'v list \<Rightarrow> transcript_change \<Rightarrow> 'v list \<Rightarrow> 'v list" where
  "observe blank final (RowAppended i) ui = put_at blank i (slot_at blank final i) ui"
| "observe blank final (RowUpdated i) ui = put_at blank i (slot_at blank final i) ui"
| "observe blank final Reset ui = []"
| "observe blank final HeaderUpdated ui = ui"

definition replay :: "'v \<Rightarrow> 'v list \<Rightarrow> transcript_change list \<Rightarrow> 'v list \<Rightarrow> 'v list" where
  "replay blank final cs ui = fold (observe blank final) cs ui"

lemma replay_Nil [simp]: "replay blank final [] ui = ui"
  by (simp add: replay_def)

lemma replay_Cons [simp]:
  "replay blank final (c # cs) ui = replay blank final cs (observe blank final c ui)"
  by (simp add: replay_def)

lemma replay_append: "replay blank final (cs @ ds) ui = replay blank final ds (replay blank final cs ui)"
  by (simp add: replay_def)

lemma put_at_length: "put_at blank (length ui) v ui = ui @ [v]"
  by (simp add: put_at_def list_update_append)

lemma put_at_in_range: "i < length ui \<Longrightarrow> put_at blank i v ui = ui[i := v]"
  by (simp add: put_at_def list_update_append)

lemma length_put_at: "length (put_at blank i v ui) = max (length ui) (Suc i)"
  by (simp add: put_at_def)

section \<open>What one operation owes its observer\<close>

fun in_range :: "nat \<Rightarrow> transcript_change \<Rightarrow> bool" where
  "in_range n (RowAppended i) = (i < n)"
| "in_range n (RowUpdated i) = (i < n)"
| "in_range n Reset = True"
| "in_range n HeaderUpdated = True"

definition tracks :: "'v \<Rightarrow> 'v list \<Rightarrow> transcript_change list \<Rightarrow> 'v list \<Rightarrow> bool" where
  "tracks blank old cs new \<longleftrightarrow>
     replay blank new cs old = new \<and> (\<forall>c \<in> set cs. in_range (length new) c)"

lemma tracks_Nil [mirror_intros]: "tracks blank vs [] vs"
  by (simp add: tracks_def)

lemma tracks_append [mirror_intros]: "n = length vs \<Longrightarrow> tracks blank vs [RowAppended n] (vs @ [v])"
  by (simp add: tracks_def slot_at_def put_at_length)

lemma tracks_update [mirror_intros]:
  "i < length vs \<Longrightarrow> tracks blank vs [RowUpdated i] (vs[i := v])"
  by (simp add: tracks_def slot_at_def put_at_in_range)

lemma tracks_header [mirror_intros]: "tracks blank vs [HeaderUpdated] vs"
  by (simp add: tracks_def)

lemma replay_appends:
  assumes "n \<le> length new"
  shows "replay blank new (map RowAppended [m..<n]) (take m new) = take (max m n) new"
  using assms
proof (induction n)
  case (Suc n)
  show ?case
  proof (cases "m \<le> n")
    case True
    with Suc have "replay blank new (map RowAppended [m..<n]) (take m new) = take n new"
      by (simp add: max_def)
    moreover have "observe blank new (RowAppended n) (take n new) = take (Suc n) new"
      using Suc.prems put_at_length [of blank "take n new" "slot_at blank new n"]
      by (simp add: min_def slot_at_def take_Suc_conv_app_nth)
    ultimately show ?thesis using True by (simp add: replay_append max_def)
  next
    case False
    then have "Suc n \<le> m" by simp
    then show ?thesis by (cases "m = Suc n") (simp_all add: max_def)
  qed
qed simp

lemma tracks_rebuild [mirror_intros]:
  "n = length new \<Longrightarrow> tracks blank old (Reset # map RowAppended [0..<n]) new"
  using replay_appends [of n new blank 0] by (auto simp: tracks_def)

section \<open>A producer run with its observer\<close>

text \<open>
  After each operation the changes are delivered with the rows as they are then, as
  \<open>deliver_event\<close> does. \<open>view\<close> is what an observer should see of the producer's state.
\<close>

fun observed_run ::
  "('s \<Rightarrow> 'v list) \<Rightarrow> 'v \<Rightarrow> ('s \<Rightarrow> 'e \<Rightarrow> ('s \<times> transcript_change list) panics)
     \<Rightarrow> 's \<times> 'v list \<Rightarrow> 'e list \<Rightarrow> ('s \<times> 'v list) panics" where
  "observed_run view blank step (s, ui) [] = Some (s, ui)"
| "observed_run view blank step (s, ui) (e # es) =
     (case step s e of
        None \<Rightarrow> None
      | Some (s', cs) \<Rightarrow> observed_run view blank step (s', replay blank (view s') cs ui) es)"

lemma observed_run_append:
  "observed_run view blank step p (xs @ ys) =
     Option.bind (observed_run view blank step p xs) (\<lambda>q. observed_run view blank step q ys)"
proof (induction xs arbitrary: p)
  case Nil
  then show ?case by (cases p) simp
next
  case (Cons x xs)
  then show ?case by (cases p) (auto split: option.splits)
qed

section \<open>The contract as a locale\<close>

text \<open>
  \<open>step\<close> is an operation of the producer (with its argument), \<open>view\<close> the rows an observer
  should hold, \<open>inv\<close> the producer's invariant.
\<close>

locale change_stream =
  fixes inv :: "'s \<Rightarrow> bool"
    and view :: "'s \<Rightarrow> 'v list"
    and blank :: "'v"
    and step :: "'s \<Rightarrow> 'e \<Rightarrow> ('s \<times> transcript_change list) panics"
  assumes step_no_panic: "inv s \<Longrightarrow> \<exists>s' cs. step s e = Some (s', cs)"
    and step_inv: "inv s \<Longrightarrow> step s e = Some (s', cs) \<Longrightarrow> inv s'"
    and step_tracks: "inv s \<Longrightarrow> step s e = Some (s', cs) \<Longrightarrow> tracks blank (view s) cs (view s')"
begin

lemma run_in_step:
  assumes "inv s" and "ui = view s"
  shows "\<exists>s'. observed_run view blank step (s, ui) es = Some (s', view s') \<and> inv s'"
  using assms
proof (induction es arbitrary: s ui)
  case (Cons e es)
  then obtain s1 cs where 1: "step s e = Some (s1, cs)" using step_no_panic by blast
  with Cons.prems have "inv s1" "replay blank (view s1) cs ui = view s1"
    using step_inv step_tracks by (auto simp: tracks_def)
  with Cons.IH [of s1 "view s1"] 1 show ?case by simp
qed simp

text \<open>An observer that joins late is in step after the next reset, whatever it held.\<close>

lemma reset_resyncs:
  assumes "inv s" and "step s e = Some (s', cs)" and "cs = Reset # ds"
  shows "replay blank (view s') cs ui = view s'"
  using step_tracks [OF assms(1,2)] assms(3) by (simp add: tracks_def)

end

end
