(* ===== verification/Reducer_Facts.thy ===== *)
theory Reducer_Facts
  imports Change_Stream
begin

text \<open>
  The reducer's invariant, its preservation by every method, the absence of panics, and
  the change-stream contract of every method.
\<close>

section \<open>Rows after a push or an in-place change\<close>

lemma r_rows_push [simp]:
  "r_rows (push_row k r) = r_rows r @ [\<lparr>index = length (r_rows r), kind = k\<rparr>]"
  by (simp add: push_row_def)

lemma push_frame [simp, frame_simps]:
  "streaming (push_row k r) = streaming r" "thinking (push_row k r) = thinking r"
  "tools (push_row k r) = tools r" "header (r_state (push_row k r)) = header (r_state r)"
  by (simp_all add: push_row_def)

lemma r_rows_modify [simp]:
  "r_rows (modify_kind i f r) = (r_rows r)[i := (r_rows r ! i)\<lparr>kind := f (r_kind r i)\<rparr>]"
  by (simp add: modify_kind_def)

lemma modify_frame [simp, frame_simps]:
  "streaming (modify_kind i f r) = streaming r" "thinking (modify_kind i f r) = thinking r"
  "tools (modify_kind i f r) = tools r"
  "header (r_state (modify_kind i f r)) = header (r_state r)"
  by (simp_all add: modify_kind_def)

lemma update_kind_Some_iff:
  "update_kind i f r = Some r' \<longleftrightarrow> i < length (r_rows r) \<and> r' = modify_kind i f r"
  by (auto simp: update_kind_def)

section \<open>The invariant\<close>

text \<open>
  Rows carry their own position; the streaming latch points at an assistant row that is
  marked streaming, the thinking latch at a thinking row; the tool map sends a non-empty
  id to the card that carries it.
\<close>

definition rows_indexed :: "row list \<Rightarrow> bool" where
  "rows_indexed rs \<longleftrightarrow> map index rs = [0..<length rs]"

definition reducer_wf :: "reducer \<Rightarrow> bool" where
  "reducer_wf r \<longleftrightarrow>
     rows_indexed (r_rows r) \<and>
     (\<forall>i. streaming r = Some i \<longrightarrow> i < length (r_rows r) \<and> is_streaming_assistant (r_kind r i)) \<and>
     (\<forall>i. thinking r = Some i \<longrightarrow> i < length (r_rows r) \<and> is_thinking (r_kind r i)) \<and>
     (\<forall>t i. tools r t = Some i \<longrightarrow>
        t \<noteq> '''' \<and> i < length (r_rows r) \<and> (\<exists>c. r_kind r i = Tool c \<and> tool_id c = t))"

lemma rows_indexed_push: "rows_indexed (rs @ [\<lparr>index = length rs, kind = k\<rparr>]) = rows_indexed rs"
  by (simp add: rows_indexed_def)

lemma rows_indexed_update:
  "rows_indexed rs \<Longrightarrow> rows_indexed (rs[i := (rs ! i)\<lparr>kind := k\<rparr>])"
proof (cases "i < length rs")
  case True
  assume "rows_indexed rs"
  then have "map index rs = [0..<length rs]" by (simp add: rows_indexed_def)
  moreover have "map index (rs[i := (rs ! i)\<lparr>kind := k\<rparr>]) = map index rs"
    using True by (simp add: map_update list_update_same_conv)
  ultimately show ?thesis by (simp add: rows_indexed_def)
qed (simp add: list_update_beyond)

lemma rows_indexed_nth: "rows_indexed rs \<Longrightarrow> i < length rs \<Longrightarrow> index (rs ! i) = i"
  unfolding rows_indexed_def by (metis add_0 length_upt minus_nat.diff_0 nth_map nth_upt)

lemma reducer_wfD:
  assumes "reducer_wf r"
  shows "rows_indexed (r_rows r)"
    and "streaming r = Some i \<Longrightarrow> i < length (r_rows r)"
    and "streaming r = Some i \<Longrightarrow> is_streaming_assistant (r_kind r i)"
    and "thinking r = Some i \<Longrightarrow> i < length (r_rows r)"
    and "thinking r = Some i \<Longrightarrow> is_thinking (r_kind r i)"
    and "tools r t = Some i \<Longrightarrow> i < length (r_rows r)"
    and "tools r t = Some i \<Longrightarrow> \<exists>c. r_kind r i = Tool c \<and> tool_id c = t"
    and "tools r t = Some i \<Longrightarrow> t \<noteq> ''''"
  using assms unfolding reducer_wf_def by blast+

lemma wf_new [wf_intros]: "reducer_wf new_reducer"
  by (simp add: reducer_wf_def new_reducer_def default_transcript_def rows_indexed_def)

lemma wf_push [wf_intros]: "reducer_wf r \<Longrightarrow> reducer_wf (push_row k r)"
  unfolding reducer_wf_def
  by (force simp: rows_indexed_push nth_append intro: less_SucI)

lemma wf_push_streaming:
  "reducer_wf r \<Longrightarrow> i = length (r_rows r) \<Longrightarrow>
   reducer_wf ((push_row (Assistant t True u w) r)\<lparr>streaming := Some i\<rparr>)"
  unfolding reducer_wf_def
  by (force simp: rows_indexed_push nth_append intro: less_SucI)

lemma wf_push_thinking:
  "reducer_wf r \<Longrightarrow> i = length (r_rows r) \<Longrightarrow>
   reducer_wf ((push_row (Thinking t) r)\<lparr>thinking := Some i\<rparr>)"
  unfolding reducer_wf_def
  by (force simp: rows_indexed_push nth_append intro: less_SucI)

lemma wf_push_tool:
  "reducer_wf r \<Longrightarrow> i = length (r_rows r) \<Longrightarrow> tool_id c = t \<Longrightarrow> t \<noteq> '''' \<Longrightarrow>
   reducer_wf ((push_row (Tool c) r)\<lparr>tools := (tools r)(t \<mapsto> i)\<rparr>)"
  unfolding reducer_wf_def
  by (force simp: rows_indexed_push nth_append intro: less_SucI split: if_splits)

lemma wf_clear_thinking: "reducer_wf r \<Longrightarrow> reducer_wf (r\<lparr>thinking := None\<rparr>)"
  by (simp add: reducer_wf_def)

lemma wf_clear_streaming: "reducer_wf r \<Longrightarrow> reducer_wf (r\<lparr>streaming := None\<rparr>)"
  by (simp add: reducer_wf_def)

lemma wf_header: "reducer_wf r \<Longrightarrow> reducer_wf (r\<lparr>r_state := (r_state r)\<lparr>header := h\<rparr>\<rparr>)"
  by (simp add: reducer_wf_def)

text \<open>
  An in-place change keeps the invariant when it keeps what the latches and the tool map
  rely on at that row.
\<close>

lemma wf_modify:
  assumes wf: "reducer_wf r"
    and s: "streaming r = Some i \<Longrightarrow> is_streaming_assistant (f (r_kind r i))"
    and t: "thinking r = Some i \<Longrightarrow> is_thinking (f (r_kind r i))"
    and tool: "\<And>c. r_kind r i = Tool c \<Longrightarrow> tool_id c \<noteq> '''' \<Longrightarrow>
                 \<exists>c'. f (Tool c) = Tool c' \<and> tool_id c' = tool_id c"
  shows "reducer_wf (modify_kind i f r)"
  unfolding reducer_wf_def
proof (intro conjI allI impI)
  show "rows_indexed (r_rows (modify_kind i f r))"
    using rows_indexed_update reducer_wfD(1) [OF wf] by simp
next
  fix j assume "streaming (modify_kind i f r) = Some j"
  then have j: "streaming r = Some j" by simp
  then show "j < length (r_rows (modify_kind i f r))"
    using reducer_wfD(2) [OF wf] by simp
  show "is_streaming_assistant (r_kind (modify_kind i f r) j)"
    using j s reducer_wfD(2,3) [OF wf] by (cases "i = j") auto
next
  fix j assume "thinking (modify_kind i f r) = Some j"
  then have j: "thinking r = Some j" by simp
  then show "j < length (r_rows (modify_kind i f r))"
    using reducer_wfD(4) [OF wf] by simp
  show "is_thinking (r_kind (modify_kind i f r) j)"
    using j t reducer_wfD(4,5) [OF wf] by (cases "i = j") auto
next
  fix id j assume "tools (modify_kind i f r) id = Some j"
  then have j: "tools r id = Some j" by simp
  then show "id \<noteq> ''''" "j < length (r_rows (modify_kind i f r))"
    using reducer_wfD(6,8) [OF wf] by auto
  from reducer_wfD(7) [OF wf j] obtain c where c: "r_kind r j = Tool c" "tool_id c = id" by blast
  show "\<exists>c. r_kind (modify_kind i f r) j = Tool c \<and> tool_id c = id"
  proof (cases "i = j")
    case True
    with c tool [of c] reducer_wfD(6,8) [OF wf j] show ?thesis by auto
  qed (use c in auto)
qed

section \<open>Every handler: no panic, invariant, change stream\<close>

text \<open>
  What a handler owes: the new state is well formed and an observer of any view of the
  rows stays in step.
\<close>

definition handled_ok :: "reducer \<Rightarrow> reducer \<times> transcript_change list \<Rightarrow> bool" where
  "handled_ok r p \<longleftrightarrow>
     reducer_wf (fst p) \<and>
     (\<forall>f blank. tracks blank (map f (r_rows r)) (snd p) (map f (r_rows (fst p)) :: string list))"

lemma handled_same [intro]: "reducer_wf r \<Longrightarrow> handled_ok r (r, [])"
  by (simp add: handled_ok_def tracks_Nil)

lemma handled_push:
  assumes "reducer_wf r'" "r_rows r' = r_rows r @ [row]" "n = length (r_rows r)"
  shows "handled_ok r (r', [RowAppended n])"
  using assms by (simp add: handled_ok_def tracks_append)

lemma handled_update:
  assumes "reducer_wf r'" "r_rows r' = (r_rows r)[i := row]" "i < length (r_rows r)"
  shows "handled_ok r (r', [RowUpdated i])"
  using assms by (simp add: handled_ok_def map_update tracks_update)

lemma handled_header:
  "reducer_wf r' \<Longrightarrow> r_rows r' = r_rows r \<Longrightarrow> handled_ok r (r', [HeaderUpdated])"
  by (simp add: handled_ok_def tracks_header)

lemma ok_message_start:
  assumes "reducer_wf r"
  shows "handled_ok r (on_message_start r)"
proof -
  have "reducer_wf (((push_row (Assistant '''' True '''' '''') r)\<lparr>streaming := Some (length (r_rows r))\<rparr>)
          \<lparr>thinking := None\<rparr>)"
    by (intro wf_clear_thinking wf_push_streaming assms refl)
  moreover have "q\<lparr>streaming := a, thinking := b\<rparr> = q\<lparr>thinking := b, streaming := a\<rparr>"
    for q :: reducer and a b
    by (cases q) simp
  ultimately show ?thesis
    unfolding on_message_start_def Let_def by (intro handled_push) simp_all
qed

lemma ok_append_streaming_text:
  assumes "reducer_wf r"
  shows "handled_ok r (append_streaming_text r text)"
proof -
  have fresh: "handled_ok r
      ((push_row (Assistant text True '''' '''') r)\<lparr>streaming := Some (length (r_rows r))\<rparr>,
       [RowAppended (length (r_rows r))])"
    by (rule handled_push) (use assms wf_push_streaming in auto)
  show ?thesis
  proof (cases "streaming r")
    case (Some i)
    from reducer_wfD(2,3) [OF assms Some] obtain t u w
      where i: "i < length (r_rows r)" and k: "r_kind r i = Assistant t True u w"
      by (auto elim: is_streaming_assistantE)
    have "reducer_wf (modify_kind i (\<lambda>_. Assistant (t @ text) True u w) r)"
      by (rule wf_modify [OF assms]) (use k reducer_wfD(5) [OF assms] in auto)
    then have "handled_ok r (modify_kind i (\<lambda>_. Assistant (t @ text) True u w) r, [RowUpdated i])"
      by (rule handled_update) (use i in auto)
    with Some i k assms show ?thesis by (auto simp: append_streaming_text_def Let_def)
  qed (use fresh assms in \<open>auto simp: append_streaming_text_def Let_def\<close>)
qed

lemma ok_message_delta: "reducer_wf r \<Longrightarrow> handled_ok r (on_message_delta r p)"
  by (simp add: on_message_delta_def ok_append_streaming_text)

text \<open>Sealing a row: the latch is taken first, so the row may lose its streaming mark.\<close>

lemma wf_modify_seal:
  assumes wf: "reducer_wf r" and i: "streaming r = Some i"
  shows "reducer_wf ((modify_kind i f r)\<lparr>streaming := None\<rparr>)"
proof -
  from reducer_wfD(3) [OF wf i] obtain t u w where k: "r_kind r i = Assistant t True u w"
    by (auto elim: is_streaming_assistantE)
  have "reducer_wf (modify_kind i f (r\<lparr>streaming := None\<rparr>))"
    by (rule wf_modify [OF wf_clear_streaming [OF wf]]) (use k reducer_wfD(5) [OF wf, of i] in auto)
  moreover have "modify_kind i f (r\<lparr>streaming := None\<rparr>) = (modify_kind i f r)\<lparr>streaming := None\<rparr>"
    by (simp add: modify_kind_def)
  ultimately show ?thesis by simp
qed

lemma ok_seal:
  assumes "reducer_wf r" and i: "streaming r = Some i"
  shows "handled_ok r ((modify_kind i f r)\<lparr>streaming := None\<rparr>, [RowUpdated i])"
  by (rule handled_update [OF wf_modify_seal [OF assms(1) i]])
    (use reducer_wfD(2) [OF assms(1) i] in auto)

lemma ok_message_interim:
  assumes "reducer_wf r"
  shows "handled_ok r (on_message_interim r p)"
proof (cases "streaming r")
  case (Some i)
  have "handled_ok r ((modify_kind i
      (\<lambda>k. case k of
          Assistant slot s u w \<Rightarrow>
            Assistant (if bool_at p ''already_streamed'' then slot else str_at p ''text'') False u w
        | _ \<Rightarrow> k) r)\<lparr>streaming := None\<rparr>, [RowUpdated i])"
    by (rule ok_seal [OF assms Some])
  with Some reducer_wfD(2) [OF assms Some] show ?thesis
    by (simp add: on_message_interim_def Let_def)
qed (use assms in \<open>auto simp: on_message_interim_def\<close>)

text \<open>The handlers that index \<open>rows[i]\<close>: they return, and what they return is right.\<close>

definition returns_ok :: "reducer \<Rightarrow> handler_result \<Rightarrow> bool" where
  "returns_ok r res \<longleftrightarrow> (\<exists>p. res = Some p \<and> handled_ok r p)"

lemma returns_okI: "handled_ok r p \<Longrightarrow> returns_ok r (Some p)"
  by (simp add: returns_ok_def)

lemma ok_message_complete:
  assumes "reducer_wf r"
  shows "returns_ok r (on_message_complete sj r p)"
proof (cases "is_object p \<and> streaming r \<noteq> None")
  case True
  then obtain i where i: "streaming r = Some i" by auto
  have "handled_ok r ((modify_kind i
      (\<lambda>k. case k of Assistant _ _ _ _ \<Rightarrow> Assistant t False u w | _ \<Rightarrow> k) r)\<lparr>streaming := None\<rparr>,
      [RowUpdated i])" for t u w
    by (rule ok_seal [OF assms i])
  with True i reducer_wfD(2) [OF assms i] show ?thesis
    by (simp add: on_message_complete_def Let_def update_kind_def returns_ok_def)
qed (use assms in \<open>auto simp: on_message_complete_def returns_ok_def\<close>)

lemma ok_thinking_delta:
  assumes "reducer_wf r"
  shows "returns_ok r (on_thinking_delta r p)"
proof -
  have fresh: "handled_ok r
      ((push_row (Thinking t) r)\<lparr>thinking := Some (length (r_rows r))\<rparr>,
       [RowAppended (length (r_rows r))])" for t
    by (rule handled_push) (use assms wf_push_thinking in auto)
  show ?thesis
  proof (cases "thinking r")
    case (Some i)
    from reducer_wfD(4,5) [OF assms Some] obtain t
      where i: "i < length (r_rows r)" and k: "r_kind r i = Thinking t"
      by (auto elim: is_thinkingE)
    have "reducer_wf (modify_kind i (\<lambda>_. Thinking (t @ str_at p ''text'')) r)"
      by (rule wf_modify [OF assms]) (use k reducer_wfD(3) [OF assms] in auto)
    then have "handled_ok r (modify_kind i (\<lambda>_. Thinking (t @ str_at p ''text'')) r, [RowUpdated i])"
      by (rule handled_update) (use i in auto)
    with Some i k show ?thesis by (auto simp: on_thinking_delta_def returns_ok_def)
  qed (use fresh in \<open>auto simp: on_thinking_delta_def returns_ok_def Let_def\<close>)
qed

lemma ok_tool_generating: "reducer_wf r \<Longrightarrow> handled_ok r (on_tool_generating r p)"
  unfolding on_tool_generating_def Let_def
  by (rule handled_push) (auto intro: wf_push)

text \<open>A change of a tool card that keeps its id keeps the invariant.\<close>

lemma ok_update_tool:
  assumes wf: "reducer_wf r" and i: "tools r t = Some i"
    and g: "\<And>c. tool_id (g c) = tool_id c"
  shows "returns_ok r (map_option (\<lambda>r'. (r', [RowUpdated i]))
           (update_kind i (\<lambda>k. case k of Tool c \<Rightarrow> Tool (g c) | _ \<Rightarrow> k) r))"
proof -
  note len = reducer_wfD(6) [OF wf i]
  from reducer_wfD(7) [OF wf i] obtain c where k: "r_kind r i = Tool c" by blast
  have "reducer_wf (modify_kind i (\<lambda>k. case k of Tool c \<Rightarrow> Tool (g c) | _ \<Rightarrow> k) r)"
    by (rule wf_modify [OF wf])
      (use k g reducer_wfD(3,5) [OF wf, of i] in auto)
  then have "handled_ok r (modify_kind i (\<lambda>k. case k of Tool c \<Rightarrow> Tool (g c) | _ \<Rightarrow> k) r, [RowUpdated i])"
    by (rule handled_update) (use len in auto)
  with len show ?thesis by (simp add: update_kind_def returns_ok_def)
qed

lemma is_pending_placeholderD:
  "is_pending_placeholder name row \<Longrightarrow> \<exists>c. kind row = Tool c \<and> tool_id c = '''' \<and> tool_name c = name"
  by (auto simp: is_pending_placeholder_def split: row_kind.splits)

lemma pending_rowD:
  "pending_generating_row r name = Some i \<Longrightarrow>
   i < length (r_rows r) \<and> (\<exists>c. r_kind r i = Tool c \<and> tool_id c = '''' \<and> tool_name c = name)"
  by (auto simp: pending_generating_row_def dest!: rposition_SomeD is_pending_placeholderD)

text \<open>Pairing a placeholder gives it its id, and the map an entry for it.\<close>

lemma wf_pair_placeholder:
  assumes wf: "reducer_wf r" and i: "i < length (r_rows r)"
    and k: "r_kind r i = Tool c" "tool_id c = ''''"
    and f: "f (Tool c) = Tool c'" "tool_id c' = t" and t: "t \<noteq> ''''" "tools r t = None"
  shows "reducer_wf ((modify_kind i f r)\<lparr>tools := (tools r)(t \<mapsto> i)\<rparr>)"
proof -
  have "reducer_wf (modify_kind i f r)"
    by (rule wf_modify [OF wf]) (use k f reducer_wfD(3,5) [OF wf, of i] in auto)
  then show ?thesis
    using i k f t unfolding reducer_wf_def by (auto split: if_splits)
qed

lemma ok_tool_start:
  assumes "reducer_wf r"
  shows "returns_ok r (on_tool_start sj r p)"
proof -
  define tid where "tid = str_at p ''tool_id''"
  consider (empty) "tid = ''''" | (known) i where "tid \<noteq> ''''" "tools r tid = Some i"
    | (pair) i where "tid \<noteq> ''''" "tools r tid = None"
        "pending_generating_row r (str_at p ''name'') = Some i"
    | (fresh) "tid \<noteq> ''''" "tools r tid = None" "pending_generating_row r (str_at p ''name'') = None"
    by (cases "tools r tid"; cases "pending_generating_row r (str_at p ''name'')") auto
  then show ?thesis
  proof cases
    case empty
    with assms show ?thesis by (auto simp: on_tool_start_def tid_def returns_ok_def)
  next
    case known
    then show ?thesis
      using ok_update_tool [OF assms known(2)]
      by (simp add: on_tool_start_def Let_def flip: tid_def)
  next
    case pair
    from pending_rowD [OF pair(3)] obtain c where i: "i < length (r_rows r)"
      and c: "r_kind r i = Tool c" "tool_id c = ''''" by blast
    have "reducer_wf ((modify_kind i
        (\<lambda>k. case k of
            Tool c \<Rightarrow> Tool (c\<lparr>tool_id := tid, tool_context := x, args_json := y\<rparr>)
          | _ \<Rightarrow> k) r)\<lparr>tools := (tools r)(tid \<mapsto> i)\<rparr>)" for x y
      by (rule wf_pair_placeholder [OF assms i c _ _ pair(1,2)])
        (rule row_kind.case, simp)
    then have "handled_ok r ((modify_kind i
        (\<lambda>k. case k of
            Tool c \<Rightarrow> Tool (c\<lparr>tool_id := tid, tool_context := x, args_json := y\<rparr>)
          | _ \<Rightarrow> k) r)\<lparr>tools := (tools r)(tid \<mapsto> i)\<rparr>, [RowUpdated i])" for x y
      by (rule handled_update) (use i in auto)
    with pair i show ?thesis
      by (simp add: on_tool_start_def Let_def update_kind_def returns_ok_def flip: tid_def)
  next
    case fresh
    then show ?thesis
      unfolding on_tool_start_def Let_def
      by (simp flip: tid_def) (intro returns_okI handled_push wf_push_tool [OF assms]; simp)
  qed
qed

lemma ok_tool_progress:
  assumes "reducer_wf r"
  shows "handled_ok r (on_tool_progress r p)"
proof (cases "tools r (str_at p ''tool_id'')")
  case (Some i)
  note len = reducer_wfD(6) [OF assms Some]
  from reducer_wfD(7) [OF assms Some] obtain c where k: "r_kind r i = Tool c" by blast
  have "reducer_wf (modify_kind i (\<lambda>_. Tool (c\<lparr>tool_context := v\<rparr>)) r)" for v
    by (rule wf_modify [OF assms]) (use k reducer_wfD(3,5) [OF assms, of i] in auto)
  then have "handled_ok r (modify_kind i (\<lambda>_. Tool (c\<lparr>tool_context := v\<rparr>)) r, [RowUpdated i])" for v
    by (rule handled_update) (use len in auto)
  with Some len k assms show ?thesis by (auto simp: on_tool_progress_def Let_def)
qed (use assms in \<open>auto simp: on_tool_progress_def Let_def\<close>)

lemma ok_tool_complete:
  assumes "reducer_wf r"
  shows "returns_ok r (on_tool_complete sj r p)"
proof (cases "tools r (str_at p ''tool_id'')")
  case None
  with assms show ?thesis by (simp add: on_tool_complete_def Let_def returns_okI handled_same)
next
  case (Some i)
  then show ?thesis
    unfolding on_tool_complete_def Let_def Some option.case
    by (intro ok_update_tool [OF assms Some]) simp_all
qed

lemma ok_status_update: "reducer_wf r \<Longrightarrow> handled_ok r (on_status_update r p)"
  by (auto simp: on_status_update_def Let_def intro!: handled_push wf_push)

lemma ok_approval_request: "reducer_wf r \<Longrightarrow> handled_ok r (on_approval_request r p)"
  by (auto simp: on_approval_request_def Let_def intro!: handled_push wf_push)

lemma ok_clarify_request: "reducer_wf r \<Longrightarrow> handled_ok r (on_clarify_request r p)"
  by (auto simp: on_clarify_request_def intro!: handled_push wf_push split: option.split)

lemma ok_merge_header: "reducer_wf r \<Longrightarrow> handled_ok r (merge_header r info)"
  by (auto simp: merge_header_def Let_def intro!: handled_header wf_header)

lemma ok_error: "reducer_wf r \<Longrightarrow> handled_ok r (on_error r p)"
  by (auto simp: on_error_def intro!: handled_push wf_push)

lemmas handlers_ok =
  ok_message_start ok_message_delta ok_message_interim ok_tool_generating ok_tool_progress
  ok_status_update ok_approval_request ok_clarify_request ok_merge_header ok_error

lemma ok_session_info: "reducer_wf r \<Longrightarrow> handled_ok r (on_session_info sj r p)"
  by (simp add: on_session_info_def ok_merge_header)

lemma ok_session_title: "reducer_wf r \<Longrightarrow> handled_ok r (on_session_title r p)"
  by (simp add: on_session_title_def ok_merge_header)

lemma returns_ok_if: "returns_ok r x \<Longrightarrow> returns_ok r y \<Longrightarrow> returns_ok r (if b then x else y)"
  by simp

lemma dispatch_ok:
  assumes "reducer_wf r"
  shows "returns_ok r (dispatch sj r ty p)"
  unfolding dispatch_def
  by (intro returns_ok_if returns_okI ok_message_complete ok_thinking_delta ok_tool_start
      ok_tool_complete handlers_ok ok_session_info ok_session_title handled_same assms)

end
