(* ===== verification/Reducer_Stream.thy ===== *)
theory Reducer_Stream
  imports Reducer_Facts
begin

text \<open>
  The reducer as a producer of the change stream: every public method of
  \<open>Reducer\<close> that changes state is one operation, and the reducer with these operations is
  an instance of the contract of \<^verbatim>\<open>Change_Stream\<close>.
\<close>

section \<open>The public operations as one step function\<close>

datatype reducer_op =
    Op_Apply event_params
  | Op_Resolve_Approval string string
  | Op_Resolve_Clarify string string
  | Op_Reset string
  | Op_Ingest string "json list"
  | Op_Append_User string string
  | Op_Approval_Card string string json

definition unwrap_changes :: "session_change list \<Rightarrow> transcript_change list" where
  "unwrap_changes cs = map sc_change cs"

definition plain :: "(reducer \<times> session_change list) panics \<Rightarrow> handler_result" where
  "plain res = map_option (\<lambda>(r, cs). (r, unwrap_changes cs)) res"

fun reducer_step :: "serde \<Rightarrow> reducer \<Rightarrow> reducer_op \<Rightarrow> handler_result" where
  "reducer_step sj r (Op_Apply ev) = plain (reducer_apply sj r ev)"
| "reducer_step sj r (Op_Resolve_Approval key rid) = plain (resolve_approval r key rid)"
| "reducer_step sj r (Op_Resolve_Clarify key rid) = plain (resolve_clarify r key rid)"
| "reducer_step sj r (Op_Reset key) = plain (Some (reset_from_resume r key))"
| "reducer_step sj r (Op_Ingest key msgs) = plain (Some (ingest_resume_messages r key msgs))"
| "reducer_step sj r (Op_Append_User key text) = plain (Some (append_user_row r key text))"
| "reducer_step sj r (Op_Approval_Card key rid payload) =
     plain (map_option (\<lambda>(r', cs). (r', unwrap_or [] cs)) (apply_approval_card sj r key rid payload))"

lemma unwrap_wrap [simp]: "unwrap_changes (wrap key cs) = cs"
  by (simp add: unwrap_changes_def wrap_def comp_def)

lemma wrap_Nil [simp]: "wrap key [] = []"
  by (simp add: wrap_def)

lemma wrap_eq_Nil_iff [simp]: "wrap key cs = [] \<longleftrightarrow> cs = []"
  by (simp add: wrap_def)

lemma wrap_append: "wrap key (cs @ ds) = wrap key cs @ wrap key ds"
  by (simp add: wrap_def)

lemma plain_simps [simp]:
  "plain (Some (r, wrap key cs)) = Some (r, cs)" "plain (Some (r, [])) = Some (r, [])"
  "plain None = None"
  by (simp_all add: plain_def) (simp add: unwrap_changes_def)

section \<open>Every operation keeps the contract\<close>

lemma returns_ok_apply:
  assumes "reducer_wf r"
  shows "returns_ok r (plain (reducer_apply sj r ev))"
proof (cases "ev_session_id ev = ''''")
  case True
  with assms show ?thesis by (simp add: reducer_apply_def returns_ok_def handled_same)
next
  case False
  from dispatch_ok [OF assms, of sj "event_type ev" "ev_payload ev"] obtain r' cs
    where "dispatch sj r (event_type ev) (ev_payload ev) = Some (r', cs)" "handled_ok r (r', cs)"
    unfolding returns_ok_def by auto
  with False show ?thesis by (simp add: reducer_apply_def returns_ok_def)
qed

lemma find_kindD:
  assumes "find_kind r P = Some i"
  shows "i < length (r_rows r)" "P (r_kind r i)" "\<And>j. j < i \<Longrightarrow> \<not> P (r_kind r j)"
  using position_SomeD [OF assms [unfolded find_kind_def]] by auto

text \<open>An in-place change of a card that no latch and no tool entry points at.\<close>

lemma returns_ok_update_card:
  assumes wf: "reducer_wf r" and i: "find_kind r P = Some i"
    and P: "\<And>k. P k \<Longrightarrow> \<not> is_streaming_assistant k \<and> \<not> is_thinking k \<and> tool_of k = None"
  shows "returns_ok r (plain (map_option (\<lambda>r'. (r', wrap key [RowUpdated i])) (update_kind i f r)))"
proof -
  note c = find_kindD [OF i]
  have "reducer_wf (modify_kind i f r)"
    by (rule wf_modify [OF wf]) (use P [OF c(2)] reducer_wfD(3,5) [OF wf, of i] in auto)
  then have "handled_ok r (modify_kind i f r, [RowUpdated i])"
    by (rule handled_update) (use c(1) in auto)
  with c(1) show ?thesis by (simp add: update_kind_def returns_ok_def)
qed

lemma returns_ok_resolve_approval:
  assumes "reducer_wf r"
  shows "returns_ok r (plain (resolve_approval r key rid))"
proof (cases "find_kind r (is_unresolved_approval rid)")
  case None
  with assms show ?thesis by (simp add: resolve_approval_def returns_ok_def handled_same)
next
  case (Some i)
  show ?thesis
    unfolding resolve_approval_def Some option.case
    by (rule returns_ok_update_card [OF assms Some])
      (auto simp: is_unresolved_approval_def split: row_kind.splits)
qed

lemma returns_ok_resolve_clarify:
  assumes "reducer_wf r"
  shows "returns_ok r (plain (resolve_clarify r key rid))"
proof (cases "find_kind r (is_unresolved_clarify rid)")
  case None
  with assms show ?thesis by (simp add: resolve_clarify_def returns_ok_def handled_same)
next
  case (Some i)
  show ?thesis
    unfolding resolve_clarify_def Some option.case
    by (rule returns_ok_update_card [OF assms Some])
      (auto simp: is_unresolved_clarify_def split: row_kind.splits)
qed

section \<open>Rebuilding from a history\<close>

definition history_rows :: "nat \<Rightarrow> json list \<Rightarrow> row list" where
  "history_rows n msgs =
     map (\<lambda>(i, m). \<lparr>index = i, kind = history_kind m\<rparr>) (enumerate n (filter is_object msgs))"

lemma history_rows_simps [simp]:
  "history_rows n [] = []"
  "history_rows n (m # ms) =
     (if is_object m then \<lparr>index = n, kind = history_kind m\<rparr> # history_rows (Suc n) ms
      else history_rows n ms)"
  by (simp_all add: history_rows_def)

lemma length_history_rows [simp]: "length (history_rows n msgs) = length (filter is_object msgs)"
  by (simp add: history_rows_def)

lemma ingest_message_object:
  assumes "is_object m"
  shows "r_rows (fst (ingest_message r m)) = r_rows r @ [\<lparr>index = length (r_rows r), kind = history_kind m\<rparr>]"
    and "snd (ingest_message r m) = [RowAppended (length (r_rows r))]"
  using assms by (simp_all add: ingest_message_def Let_def)

lemma ingest_message_skip: "\<not> is_object m \<Longrightarrow> ingest_message r m = (r, [])"
  by (simp add: ingest_message_def)

lemma ingest_messages_rows:
  "r_rows (fst (ingest_messages r msgs)) = r_rows r @ history_rows (length (r_rows r)) msgs \<and>
   snd (ingest_messages r msgs) =
     map RowAppended [length (r_rows r)..<length (r_rows r) + length (filter is_object msgs)]"
proof (induction msgs arbitrary: r)
  case (Cons m ms)
  show ?case
  proof (cases "is_object m")
    case True
    define r1 where "r1 = fst (ingest_message r m)"
    have m: "ingest_message r m = (r1, [RowAppended (length (r_rows r))])"
      using ingest_message_object(2) [OF True, of r] by (metis prod.collapse r1_def)
    have len: "length (r_rows r1) = Suc (length (r_rows r))"
      and rows: "r_rows r1 = r_rows r @ [\<lparr>index = length (r_rows r), kind = history_kind m\<rparr>]"
      using ingest_message_object(1) [OF True, of r] by (simp_all add: r1_def)
    with True Cons.IH [of r1] m show ?thesis
      by (simp add: split_beta upt_conv_Cons del: upt_Suc)
  qed (use Cons.IH [of r] in \<open>simp add: ingest_message_skip split_beta\<close>)
qed simp

lemma wf_ingest_message: "reducer_wf r \<Longrightarrow> reducer_wf (fst (ingest_message r m))"
proof (cases "\<exists>c. history_kind m = Tool c \<and> tool_id c \<noteq> ''''")
  case True
  assume wf: "reducer_wf r"
  from True obtain c where "history_kind m = Tool c" "tool_id c \<noteq> ''''" by blast
  with wf_push_tool [OF wf refl refl, of c] wf show ?thesis
    by (simp add: ingest_message_def Let_def)
next
  case False
  assume wf: "reducer_wf r"
  from False have "ingest_message r m = (push_row (history_kind m) r, [RowAppended (length (r_rows r))])
      \<or> ingest_message r m = (r, [])"
    by (cases "history_kind m") (auto simp: ingest_message_def Let_def push_row_def)
  with wf wf_push [OF wf] show ?thesis by auto
qed

lemma wf_ingest_messages: "reducer_wf r \<Longrightarrow> reducer_wf (fst (ingest_messages r msgs))"
  by (induction msgs arbitrary: r) (simp_all add: split_beta wf_ingest_message)

lemma r_rows_new [simp]: "r_rows new_reducer = []"
  by (simp add: new_reducer_def default_transcript_def)

lemma ingest_resume_messages_result:
  obtains r' where "ingest_resume_messages r key msgs =
      (r', wrap key (Reset # map RowAppended [0..<length (filter is_object msgs)]))"
    and "r_rows r' = history_rows 0 msgs" and "reducer_wf r'"
  using ingest_messages_rows [of new_reducer msgs] wf_ingest_messages [OF wf_new, of msgs]
  by (simp add: ingest_resume_messages_def split_beta)

lemma returns_ok_ingest: "returns_ok r (plain (Some (ingest_resume_messages r key msgs)))"
proof -
  obtain r' where r': "ingest_resume_messages r key msgs =
      (r', wrap key (Reset # map RowAppended [0..<length (filter is_object msgs)]))"
    "r_rows r' = history_rows 0 msgs" "reducer_wf r'"
    by (rule ingest_resume_messages_result)
  then show ?thesis
    by (simp add: returns_ok_def handled_ok_def tracks_rebuild)
qed

lemma returns_ok_reset: "returns_ok r (plain (Some (reset_from_resume r key)))"
  by (simp add: reset_from_resume_def returns_ok_def handled_ok_def wf_new tracks_def)

lemma returns_ok_append_user:
  "reducer_wf r \<Longrightarrow> returns_ok r (plain (Some (append_user_row r key text)))"
  by (auto simp: append_user_row_def returns_ok_def intro!: handled_push wf_push)

lemma unwrap_or_changes [simp]: "unwrap_or [] (if cs = [] then None else Some cs) = cs"
  by simp

lemma returns_ok_approval_card:
  assumes "reducer_wf r"
  shows "returns_ok r (reducer_step sj r (Op_Approval_Card key rid payload))"
proof (cases "rid = ''''")
  case True
  with assms show ?thesis by (simp add: apply_approval_card_def returns_ok_def handled_same)
next
  case False
  have "reducer_step sj r (Op_Approval_Card key rid payload) =
        plain (reducer_apply sj r (approval_card_event key rid payload))"
    using False
    by (cases "reducer_apply sj r (approval_card_event key rid payload)")
      (auto simp: apply_approval_card_def)
  with returns_ok_apply [OF assms] show ?thesis by simp
qed

lemma reducer_step_ok:
  assumes "reducer_wf r"
  shows "returns_ok r (reducer_step sj r opn)"
  by (cases opn)
    (simp_all only: reducer_step.simps(1-6) returns_ok_apply [OF assms]
      returns_ok_resolve_approval [OF assms] returns_ok_resolve_clarify [OF assms]
      returns_ok_reset returns_ok_ingest returns_ok_append_user [OF assms]
      returns_ok_approval_card [OF assms])

section \<open>The reducer implements the contract\<close>

text \<open>What the platform sees of the rows: their index-wise rendering by any \<open>f\<close>.\<close>

definition rendered :: "(row \<Rightarrow> string) \<Rightarrow> reducer \<Rightarrow> string list" where
  "rendered f r = map f (r_rows r)"

lemma reducer_step_result:
  assumes "reducer_wf r"
  obtains r' cs where "reducer_step sj r opn = Some (r', cs)" "reducer_wf r'"
    "\<And>f blank. tracks blank (rendered f r) cs (rendered f r')"
  using reducer_step_ok [OF assms, of sj opn]
  unfolding returns_ok_def handled_ok_def rendered_def by auto

interpretation reducer_stream: change_stream reducer_wf "rendered f" blank "reducer_step sj"
  for f blank sj
proof
  show "\<exists>s' cs. reducer_step sj s e = Some (s', cs)" if "reducer_wf s" for s e
    using reducer_step_result [OF that] by metis
  show "reducer_wf s'" if "reducer_wf s" "reducer_step sj s e = Some (s', cs)" for s e s' cs
    using reducer_step_result [OF that(1)] that(2) by (metis option.inject prod.inject)
  show "tracks blank (rendered f s) cs (rendered f s')"
    if "reducer_wf s" "reducer_step sj s e = Some (s', cs)" for s e s' cs
    using reducer_step_result [OF that(1)] that(2) by (metis option.inject prod.inject)
qed

end
