(* ===== verification/Row_Evolution.thy ===== *)
theory Row_Evolution
  imports Reducer_Stream
begin

text \<open>
  An abstract specification of what one event may do to a transcript: nothing, one row
  appended, or one row evolved in place along a fixed order of row states. The handlers of
  \<open>Reducer\<close> refine it.
\<close>

section \<open>The specification\<close>

text \<open>
  How a row may change in place. A sealed answer, a user row, a status or error row and a
  resolved card are final; thinking only grows; a tool card keeps a non-empty id.
  \<open>a\<close> says whether a streaming answer may change.
\<close>

fun evolves :: "bool \<Rightarrow> row_kind \<Rightarrow> row_kind \<Rightarrow> bool" where
  "evolves a (Assistant t s u w) (Assistant t' s' u' w') = (a \<and> s)"
| "evolves a (Thinking t) (Thinking t') = prefix t t'"
| "evolves a (Tool c) (Tool c') = (tool_id c = '''' \<or> tool_id c' = tool_id c)"
| "evolves a (Approval c) (Approval c') = (\<not> appr_resolved c \<and> c' = c\<lparr>appr_resolved := True\<rparr>)"
| "evolves a (Clarify c) (Clarify c') = (\<not> clar_resolved c \<and> c' = c\<lparr>clar_resolved := True\<rparr>)"
| "evolves a _ _ = False"

inductive row_effect :: "bool \<Rightarrow> row list \<Rightarrow> row list \<Rightarrow> bool" for a where
  same: "row_effect a rs rs"
| push: "row_effect a rs (rs @ [row])"
| evolve: "i < length rs \<Longrightarrow> evolves a (kind (rs ! i)) k \<Longrightarrow>
             row_effect a rs (rs[i := (rs ! i)\<lparr>kind := k\<rparr>])"

lemma evolves_mono: "evolves False k k' \<Longrightarrow> evolves True k k'"
  by (induction False k k' rule: evolves.induct) auto

lemma row_effect_mono: "row_effect False rs rs' \<Longrightarrow> row_effect True rs rs'"
  by (induction rule: row_effect.induct) (auto intro: row_effect.intros evolves_mono)

text \<open>Final rows and the kind of a row are stable under the specification.\<close>

fun settled :: "row_kind \<Rightarrow> bool" where
  "settled (User _) = True"
| "settled (Assistant _ s _ _) = (\<not> s)"
| "settled (Thinking _) = False"
| "settled (Tool _) = False"
| "settled (Approval c) = appr_resolved c"
| "settled (Clarify c) = clar_resolved c"
| "settled (Status _ _) = True"
| "settled (ErrorRow _) = True"

lemma evolves_not_settled: "evolves a k k' \<Longrightarrow> \<not> settled k"
  by (induction a k k' rule: evolves.induct) auto

lemma evolves_kind_name: "evolves a k k' \<Longrightarrow> kind_name k' = kind_name k"
  by (induction a k k' rule: evolves.induct) auto

lemma row_effect_length: "row_effect a rs rs' \<Longrightarrow> length rs \<le> length rs'"
  by (induction rule: row_effect.induct) auto

lemma row_effect_settled:
  "row_effect a rs rs' \<Longrightarrow> i < length rs \<Longrightarrow> settled (kind (rs ! i)) \<Longrightarrow> rs' ! i = rs ! i"
  by (induction rule: row_effect.induct)
    (auto simp: nth_append nth_list_update dest: evolves_not_settled)

lemma row_effect_kind_name:
  "row_effect a rs rs' \<Longrightarrow> i < length rs \<Longrightarrow> kind_name (kind (rs' ! i)) = kind_name (kind (rs ! i))"
  by (induction rule: row_effect.induct)
    (auto simp: nth_append nth_list_update dest: evolves_kind_name)

lemma row_effect_assistant:
  "row_effect False rs rs' \<Longrightarrow> i < length rs \<Longrightarrow> kind (rs ! i) = Assistant t s u w \<Longrightarrow> rs' ! i = rs ! i"
proof (induction rule: row_effect.induct)
  case (evolve j rs k)
  then show ?case by (cases k) (auto simp: nth_list_update)
qed (auto simp: nth_append)

lemma row_effect_tool:
  "row_effect a rs rs' \<Longrightarrow> i < length rs \<Longrightarrow> kind (rs ! i) = Tool c \<Longrightarrow> tool_id c \<noteq> '''' \<Longrightarrow>
   \<exists>c'. kind (rs' ! i) = Tool c' \<and> tool_id c' = tool_id c"
proof (induction rule: row_effect.induct)
  case (evolve j rs k)
  then show ?case by (cases k) (auto simp: nth_list_update)
qed (auto simp: nth_append)

section \<open>The handlers refine it\<close>

lemma effect_push: "r_rows r' = r_rows r @ [row] \<Longrightarrow> row_effect a (r_rows r) (r_rows r')"
  by (simp add: row_effect.push)

lemma effect_modify:
  "i < length (r_rows r) \<Longrightarrow> evolves a (r_kind r i) (f (r_kind r i)) \<Longrightarrow>
   r_rows r' = r_rows (modify_kind i f r) \<Longrightarrow> row_effect a (r_rows r) (r_rows r')"
  by (simp add: row_effect.evolve)

text \<open>What a handler that is not about an answer leaves alone: the streaming latch too.\<close>

definition quiet :: "reducer \<Rightarrow> reducer \<Rightarrow> bool" where
  "quiet r r' \<longleftrightarrow> row_effect False (r_rows r) (r_rows r') \<and> streaming r' = streaming r"

definition quiet_result :: "reducer \<Rightarrow> handler_result \<Rightarrow> bool" where
  "quiet_result r res \<longleftrightarrow> (\<forall>p. res = Some p \<longrightarrow> quiet r (fst p))"

lemma quiet_same [intro]: "quiet r r"
  by (simp add: quiet_def row_effect.same)

lemma quiet_pushI: "r_rows r' = r_rows r @ [row] \<Longrightarrow> streaming r' = streaming r \<Longrightarrow> quiet r r'"
  unfolding quiet_def using effect_push by blast

lemma quiet_result_simps [simp]:
  "quiet_result r (Some p) \<longleftrightarrow> quiet r (fst p)" "quiet_result r None"
  by (simp_all add: quiet_result_def)

lemma quiet_thinking:
  assumes "reducer_wf r"
  shows "quiet_result r (on_thinking_delta r p)"
proof (cases "thinking r")
  case None
  then show ?thesis by (auto simp: on_thinking_delta_def Let_def intro!: quiet_pushI)
next
  case (Some i)
  from reducer_wfD(4,5) [OF assms Some] obtain t
    where i: "i < length (r_rows r)" and k: "r_kind r i = Thinking t"
    by (auto elim: is_thinkingE)
  have "quiet r (modify_kind i (\<lambda>_. Thinking (t @ str_at p ''text'')) r)"
    unfolding quiet_def by (intro conjI effect_modify [OF i _ refl]) (simp_all add: k)
  with Some i k show ?thesis by (simp add: on_thinking_delta_def Let_def)
qed

lemma quiet_update_tool:
  assumes k: "\<And>i. i < length (r_rows r) \<Longrightarrow> i = j \<Longrightarrow>
      \<exists>c. r_kind r i = Tool c \<and> (tool_id c = '''' \<or> tool_id (g c) = tool_id c)"
    and h: "\<And>q. r_rows (h q) = r_rows q" "\<And>q. streaming (h q) = streaming q"
  shows "quiet_result r (map_option (\<lambda>r'. (h r', cs))
           (update_kind j (\<lambda>k. case k of Tool c \<Rightarrow> Tool (g c) | _ \<Rightarrow> k) r))"
proof (cases "j < length (r_rows r)")
  case True
  from k [OF this refl] obtain c where "r_kind r j = Tool c" "tool_id c = '''' \<or> tool_id (g c) = tool_id c"
    by blast
  then have "quiet r (h (modify_kind j (\<lambda>k. case k of Tool c \<Rightarrow> Tool (g c) | _ \<Rightarrow> k) r))"
    unfolding quiet_def by (intro conjI effect_modify [OF True]) (simp_all add: h)
  with True show ?thesis by (simp add: update_kind_def)
qed (simp add: update_kind_def)

lemma quiet_tool_start:
  assumes "reducer_wf r"
  shows "quiet_result r (on_tool_start sj r p)"
proof (cases "str_at p ''tool_id'' = ''''")
  case True
  then show ?thesis by (simp add: on_tool_start_def quiet_same)
next
  case id: False
  show ?thesis
  proof (cases "tools r (str_at p ''tool_id'')")
    case (Some i)
    note c = reducer_wfD(7) [OF assms Some]
    show ?thesis
      unfolding on_tool_start_def Let_def Some option.case if_not_P [OF id]
      by (rule quiet_update_tool) (use c in auto)
  next
    case None
    show ?thesis
    proof (cases "pending_generating_row r (str_at p ''name'')")
      case (Some i)
      note c = pending_rowD [OF Some]
      show ?thesis
        unfolding on_tool_start_def Let_def None Some option.case if_not_P [OF id]
        by (rule quiet_update_tool) (use c in auto)
    qed (use None id in \<open>auto simp: on_tool_start_def Let_def intro!: quiet_pushI\<close>)
  qed
qed

lemma quiet_tool_progress:
  assumes "reducer_wf r"
  shows "quiet r (fst (on_tool_progress r p))"
proof (cases "tools r (str_at p ''tool_id'')")
  case (Some i)
  from reducer_wfD(6,7) [OF assms Some] obtain c
    where i: "i < length (r_rows r)" and k: "r_kind r i = Tool c" by blast
  have "quiet r (modify_kind i (\<lambda>_. Tool (c\<lparr>tool_context := v\<rparr>)) r)" for v
    unfolding quiet_def by (intro conjI effect_modify [OF i _ refl]) (simp_all add: k)
  with Some i k show ?thesis by (auto simp: on_tool_progress_def Let_def)
qed (auto simp: on_tool_progress_def Let_def)

lemma quiet_tool_complete:
  assumes "reducer_wf r"
  shows "quiet_result r (on_tool_complete sj r p)"
proof (cases "tools r (str_at p ''tool_id'')")
  case (Some i)
  note c = reducer_wfD(7) [OF assms Some]
  show ?thesis
    unfolding on_tool_complete_def Let_def Some option.case
    by (rule quiet_update_tool) (use c in auto)
qed (auto simp: on_tool_complete_def Let_def)

lemma quiet_pushers:
  "quiet r (fst (on_tool_generating r p))" "quiet r (fst (on_status_update r p))"
  "quiet r (fst (on_approval_request r p))" "quiet r (fst (on_clarify_request r p))"
  "quiet r (fst (on_error r p))"
  by (auto simp: on_tool_generating_def on_status_update_def on_approval_request_def
      on_clarify_request_def on_error_def Let_def split: option.split intro: quiet_pushI)

lemma quiet_header: "quiet r (fst (merge_header r info))"
  by (auto simp: merge_header_def Let_def quiet_def row_effect.same)

lemma quiet_session:
  "quiet r (fst (on_session_info sj r p))" "quiet r (fst (on_session_title r p))"
  by (simp_all add: on_session_info_def on_session_title_def quiet_header)

definition answer_event :: "string \<Rightarrow> bool" where
  "answer_event ty \<longleftrightarrow>
     ty = ''message.start'' \<or> ty = ''message.delta'' \<or> ty = ''message.interim'' \<or> ty = ''message.complete''"

lemma quiet_result_if:
  "quiet_result r x \<Longrightarrow> quiet_result r y \<Longrightarrow> quiet_result r (if b then x else y)"
  by simp

lemma quiet_dispatch:
  assumes "reducer_wf r" and "\<not> answer_event ty"
  shows "quiet_result r (dispatch sj r ty p)"
proof -
  have ty: "ty \<noteq> ''message.start''" "ty \<noteq> ''message.delta''" "ty \<noteq> ''message.interim''"
      "ty \<noteq> ''message.complete''"
    using assms(2) by (simp_all add: answer_event_def)
  show ?thesis
    unfolding dispatch_def if_not_P [OF ty(1)] if_not_P [OF ty(2)] if_not_P [OF ty(3)] if_not_P [OF ty(4)]
    using quiet_thinking [OF assms(1)] quiet_tool_start [OF assms(1)] quiet_tool_progress [OF assms(1)]
      quiet_tool_complete [OF assms(1)]
    by (intro quiet_result_if) (simp_all add: quiet_pushers quiet_session quiet_same)
qed

text \<open>The four answer events.\<close>

lemma effect_answer:
  assumes wf: "reducer_wf r" and "answer_event ty" and d: "dispatch sj r ty p = Some (r', cs)"
  shows "row_effect True (r_rows r) (r_rows r')"
proof -
  have stream: "\<exists>t u w. i < length (r_rows r) \<and> r_kind r i = Assistant t True u w"
    if "streaming r = Some i" for i
    using reducer_wfD(2,3) [OF wf that] by (auto elim: is_streaming_assistantE)
  consider "ty = ''message.start''" | "ty = ''message.delta''" | "ty = ''message.interim''"
    | "ty = ''message.complete''"
    using assms(2) by (auto simp: answer_event_def)
  then show ?thesis
  proof cases
    case 1
    with d show ?thesis by (auto simp: dispatch_def on_message_start_def Let_def intro!: effect_push)
  next
    case 2
    then have r': "r' = fst (append_streaming_text r (str_at p ''text''))"
      using d by (simp add: dispatch_def on_message_delta_def)
    show ?thesis
    proof (cases "streaming r")
      case None
      then show ?thesis
        by (auto simp: r' append_streaming_text_def Let_def intro: row_effect.push row_effect.same)
    next
      case (Some i)
      with stream [OF Some] show ?thesis
        by (auto simp: r' append_streaming_text_def Let_def intro!: row_effect.same row_effect.evolve)
    qed
  next
    case 3
    then have r': "r' = fst (on_message_interim r p)" using d by (simp add: dispatch_def)
    show ?thesis
    proof (cases "streaming r")
      case (Some i)
      with stream [OF Some] show ?thesis
        by (auto simp: r' on_message_interim_def Let_def intro!: row_effect.evolve)
    qed (auto simp: r' on_message_interim_def intro: row_effect.same)
  next
    case 4
    then have m: "on_message_complete sj r p = Some (r', cs)" using d by (simp add: dispatch_def)
    show ?thesis
    proof (cases "streaming r")
      case (Some i)
      with stream [OF Some] m show ?thesis
        by (auto simp: on_message_complete_def Let_def update_kind_def intro!: row_effect.same row_effect.evolve
            split: if_splits)
    qed (use m in \<open>auto simp: on_message_complete_def intro: row_effect.same split: if_splits\<close>)
  qed
qed

lemma dispatch_effect:
  assumes "reducer_wf r" and "dispatch sj r ty p = Some (r', cs)"
  shows "row_effect True (r_rows r) (r_rows r')"
proof (cases "answer_event ty")
  case False
  with quiet_dispatch [OF assms(1), of ty sj p] assms(2) show ?thesis
    by (auto simp: quiet_def intro: row_effect_mono)
qed (use effect_answer assms in blast)

lemma apply_effect:
  assumes "reducer_wf r" and "reducer_apply sj r ev = Some (r', cs)"
  shows "row_effect True (r_rows r) (r_rows r')"
  using assms dispatch_effect [OF assms(1)]
  by (auto simp: reducer_apply_def intro: row_effect.same split: if_splits)

lemma resolve_approval_effect:
  assumes "resolve_approval r key rid = Some (r', cs)"
  shows "row_effect False (r_rows r) (r_rows r')"
proof (cases "find_kind r (is_unresolved_approval rid)")
  case None
  with assms show ?thesis by (simp add: resolve_approval_def row_effect.same)
next
  case (Some i)
  note c = find_kindD [OF Some]
  from c(2) obtain d where "r_kind r i = Approval d" "\<not> appr_resolved d"
    by (auto simp: is_unresolved_approval_def split: row_kind.splits)
  with assms Some c(1) show ?thesis
    by (auto simp: resolve_approval_def update_kind_def intro!: row_effect.evolve)
qed

lemma resolve_clarify_effect:
  assumes "resolve_clarify r key rid = Some (r', cs)"
  shows "row_effect False (r_rows r) (r_rows r')"
proof (cases "find_kind r (is_unresolved_clarify rid)")
  case None
  with assms show ?thesis by (simp add: resolve_clarify_def row_effect.same)
next
  case (Some i)
  note c = find_kindD [OF Some]
  from c(2) obtain d where "r_kind r i = Clarify d" "\<not> clar_resolved d"
    by (auto simp: is_unresolved_clarify_def split: row_kind.splits)
  with assms Some c(1) show ?thesis
    by (auto simp: resolve_clarify_def update_kind_def intro!: row_effect.evolve)
qed

end
