(* ===== verification/Reducer_Props.thy ===== *)
theory Reducer_Props
  imports Row_Evolution
begin

text \<open>
  Properties of the reducer over whole event sequences: the observer contract, the final
  state of settled rows, the streamed answer, the tool cards, approvals and the rebuild
  from a resume history.
\<close>

section \<open>Runs of events\<close>

lemma apply_keeps_wf:
  assumes "reducer_wf r"
  obtains r' cs where "reducer_apply sj r ev = Some (r', cs)" "reducer_wf r'"
  using returns_ok_apply [OF assms, of sj ev]
  by (auto simp: returns_ok_def plain_def handled_ok_def)

lemma apply_wf: "reducer_wf r \<Longrightarrow> reducer_apply sj r ev = Some (r', cs) \<Longrightarrow> reducer_wf r'"
  using apply_keeps_wf by (metis option.inject prod.inject)

lemma applies_wf:
  assumes "reducer_wf r"
  obtains r' cs where "foldM (reducer_apply sj) r evs = Some (r', cs)" "reducer_wf r'"
proof -
  have "\<exists>r' cs. foldM (reducer_apply sj) r evs = Some (r', cs) \<and> reducer_wf r'"
    by (rule foldM_invariant [where I = reducer_wf, OF _ assms]) (meson apply_keeps_wf)
  with that show thesis by blast
qed

text \<open>A fact about the rows that every effect keeps holds after any run.\<close>

lemma applies_effect_induct:
  assumes "foldM (reducer_apply sj) r evs = Some (r', cs)" and "reducer_wf r" and "P (r_rows r)"
    and "\<And>rs rs'. row_effect True rs rs' \<Longrightarrow> P rs \<Longrightarrow> P rs'"
  shows "P (r_rows r')"
  using assms(1-3)
proof (induction evs arbitrary: r cs)
  case (Cons ev evs)
  then obtain r1 c1 c2 where 1: "reducer_apply sj r ev = Some (r1, c1)"
    and 2: "foldM (reducer_apply sj) r1 evs = Some (r', c2)"
    by (auto split: option.splits)
  have "P (r_rows r1)" by (rule assms(4) [OF apply_effect [OF Cons.prems(2) 1] Cons.prems(3)])
  with Cons.IH [OF 2 apply_wf [OF Cons.prems(2) 1]] show ?case by blast
qed simp

section \<open>The observer contract\<close>

text \<open>
  C3: whatever the sequence of reducer operations (events of any type and payload, card
  resolutions, resets, resume ingests, user rows, synthesized approval cards), the reducer
  never panics, keeps its invariant, and an observer that applies each emitted change with
  the row as rendered at that moment holds exactly the rendered rows.
\<close>

theorem reducer_in_step:
  "\<exists>r'. observed_run (rendered f) blank (reducer_step sj) (new_reducer, []) ops
           = Some (r', rendered f r') \<and> reducer_wf r'"
  by (rule reducer_stream.run_in_step [OF wf_new]) (simp add: rendered_def)

section \<open>Settled rows\<close>

text \<open>
  C6: no sequence of events changes a settled row: a user row, a sealed answer, a status or
  error row and a resolved card stay at their index, byte for byte, and no row is removed.
\<close>

theorem settled_rows_are_final:
  assumes "reducer_wf r" and "foldM (reducer_apply sj) r evs = Some (r', cs)"
    and "i < length (r_rows r)" and "settled (r_kind r i)"
  shows "i < length (r_rows r') \<and> r_rows r' ! i = r_rows r ! i"
proof (rule applies_effect_induct [OF assms(2,1)])
  show "i < length (r_rows r) \<and> r_rows r ! i = r_rows r ! i" using assms(3) by simp
  show "i < length rs' \<and> rs' ! i = r_rows r ! i"
    if "row_effect True rs rs'" "i < length rs \<and> rs ! i = r_rows r ! i" for rs rs'
    using row_effect_length [OF that(1)] row_effect_settled [OF that(1), of i] that(2) assms(4) by auto
qed

text \<open>Concrete events for the witnesses.\<close>

definition sample_serde :: serde where
  "sample_serde = \<lparr>to_string = (\<lambda>_. Some ''{}''), from_str = (\<lambda>_. None), parse_error = (\<lambda>_. ''bad''),
     num_to_string = (\<lambda>_. ''1'')\<rparr>"

definition sample_event :: "string \<Rightarrow> (string \<times> json) list \<Rightarrow> event_params" where
  "sample_event ty kvs =
     \<lparr>event_type = ty, ev_session_id = ''k'', ev_seq = None, ev_payload = JObj kvs\<rparr>"

definition user_reducer :: reducer where
  "user_reducer = fst (append_user_row new_reducer ''k'' ''hi'')"

lemma wf_user_reducer: "reducer_wf user_reducer"
  by (simp add: user_reducer_def append_user_row_def wf_push wf_new)

lemma settled_rows_are_final_witness:
  "\<exists>r' cs. foldM (reducer_apply sample_serde) user_reducer [sample_event ''error'' []] = Some (r', cs) \<and>
     0 < length (r_rows r') \<and> r_rows r' ! 0 = r_rows user_reducer ! 0"
proof -
  obtain r' cs where r': "foldM (reducer_apply sample_serde) user_reducer [sample_event ''error'' []] = Some (r', cs)"
    by (rule applies_wf [OF wf_user_reducer])
  have "0 < length (r_rows user_reducer)" "settled (r_kind user_reducer 0)"
    by (simp_all add: user_reducer_def append_user_row_def)
  from settled_rows_are_final [OF wf_user_reducer r' this] r' show ?thesis by blast
qed

section \<open>The streamed answer\<close>

definition delta_text :: "event_params \<Rightarrow> string" where
  "delta_text ev =
     (if ev_session_id ev \<noteq> '''' \<and> event_type ev = ''message.delta''
      then str_at (ev_payload ev) ''text'' else '''')"

fun answer_text :: "row_kind \<Rightarrow> string" where
  "answer_text (Assistant t s u w) = t"
| "answer_text _ = ''''"

definition ends_answer :: "event_params \<Rightarrow> bool" where
  "ends_answer ev \<longleftrightarrow> event_type ev \<in> {''message.start'', ''message.interim'', ''message.complete''}"

lemma apply_delta:
  assumes wf: "reducer_wf r" and s: "streaming r = Some i" and n: "\<not> ends_answer ev"
    and a: "reducer_apply sj r ev = Some (r', cs)"
  shows "streaming r' = Some i \<and> answer_text (r_kind r' i) = answer_text (r_kind r i) @ delta_text ev"
proof -
  from reducer_wfD(2,3) [OF wf s] obtain t u w
    where i: "i < length (r_rows r)" and k: "r_kind r i = Assistant t True u w"
    by (auto elim: is_streaming_assistantE)
  show ?thesis
  proof (cases "ev_session_id ev = '''' \<or> \<not> answer_event (event_type ev)")
    case True
    then have d: "delta_text ev = ''''" by (auto simp: delta_text_def answer_event_def)
    from True have "quiet r r'"
      using a quiet_dispatch [OF wf, of "event_type ev" sj "ev_payload ev"]
      by (auto simp: reducer_apply_def split: if_splits)
    then have "streaming r' = streaming r" "r_rows r' ! i = r_rows r ! i"
      using row_effect_assistant [OF _ i k] by (auto simp: quiet_def)
    with s d show ?thesis by simp
  next
    case False
    with n have ty: "event_type ev = ''message.delta''"
      by (auto simp: answer_event_def ends_answer_def)
    with False a have "r' = fst (append_streaming_text r (str_at (ev_payload ev) ''text''))"
      by (auto simp: reducer_apply_def dispatch_def on_message_delta_def split_beta)
    with False ty s i k show ?thesis
      by (simp add: append_streaming_text_def Let_def delta_text_def)
  qed
qed

text \<open>
  C5: while an answer streams, its row holds the concatenation of the delta texts in order,
  whatever other events (tools, thinking, status, approvals, session info) come between,
  and the latch stays on that row.
\<close>

theorem deltas_concatenate:
  assumes "reducer_wf r" and "streaming r = Some i" and "\<forall>ev \<in> set evs. \<not> ends_answer ev"
  shows "\<exists>r' cs. foldM (reducer_apply sj) r evs = Some (r', cs) \<and> streaming r' = Some i \<and>
           answer_text (r_kind r' i) = answer_text (r_kind r i) @ concat (map delta_text evs)"
  using assms
proof (induction evs arbitrary: r)
  case (Cons ev evs)
  obtain r1 c1 where 1: "reducer_apply sj r ev = Some (r1, c1)" "reducer_wf r1"
    by (rule apply_keeps_wf [OF Cons.prems(1)])
  from apply_delta [OF Cons.prems(1,2) _ 1(1)] Cons.prems(3)
  have "streaming r1 = Some i" "answer_text (r_kind r1 i) = answer_text (r_kind r i) @ delta_text ev"
    by auto
  with Cons.IH [OF 1(2)] Cons.prems(3) 1(1) show ?case by fastforce
qed simp

definition answering :: reducer where
  "answering = fst (on_message_start user_reducer)"

lemma wf_answering: "reducer_wf answering"
  using ok_message_start [OF wf_user_reducer] by (simp add: answering_def handled_ok_def)

lemma deltas_concatenate_witness:
  "\<exists>r' cs. foldM (reducer_apply sample_serde) answering
             [sample_event ''message.delta'' [(''text'', JStr ''ab'')],
              sample_event ''status.update'' [(''kind'', JStr ''status'')],
              sample_event ''message.delta'' [(''text'', JStr ''c'')]] = Some (r', cs) \<and>
     streaming r' = Some 1 \<and> answer_text (r_kind r' 1) = ''abc''"
proof -
  let ?evs = "[sample_event ''message.delta'' [(''text'', JStr ''ab'')],
              sample_event ''status.update'' [(''kind'', JStr ''status'')],
              sample_event ''message.delta'' [(''text'', JStr ''c'')]]"
  have s: "streaming answering = Some 1" "answer_text (r_kind answering 1) = ''''"
    by (simp_all add: answering_def on_message_start_def Let_def user_reducer_def append_user_row_def)
  have n: "\<forall>ev \<in> set ?evs. \<not> ends_answer ev"
    by (simp add: sample_event_def ends_answer_def)
  have t: "concat (map delta_text ?evs) = ''abc''"
    by (simp add: delta_text_def sample_event_def)
  from deltas_concatenate [OF wf_answering s(1) n, of sample_serde] show ?thesis
    unfolding s(2) t by simp
qed

text \<open>The end of an answer: \<open>message.complete\<close> replaces the text and seals the row.\<close>

text \<open>
  a \<open>message.complete\<close> for a streaming answer replaces the streamed text by the final
  one, records usage and warning, seals the row and releases the latch; every other row is
  unchanged; and the change emitted is the update of that row.
\<close>

lemma complete_seals_answer:
  assumes wf: "reducer_wf r" and s: "streaming r = Some i"
    and ev: "event_type ev = ''message.complete''" "ev_session_id ev \<noteq> ''''" "is_object (ev_payload ev)"
  shows "\<exists>r'. reducer_apply sj r ev = Some (r', [\<lparr>sc_key = ev_session_id ev, sc_change = RowUpdated i\<rparr>]) \<and>
           streaming r' = None \<and> length (r_rows r') = length (r_rows r) \<and>
           r_kind r' i = Assistant (str_at (ev_payload ev) ''text'') False
             (unwrap_or '''' (map_option (to_compact_string sj) (get_key (ev_payload ev) ''usage'')))
             (str_at (ev_payload ev) ''warning'') \<and>
           (\<forall>j. j \<noteq> i \<longrightarrow> r_rows r' ! j = r_rows r ! j)"
proof -
  from reducer_wfD(2,3) [OF wf s] obtain t u w
    where i: "i < length (r_rows r)" and k: "r_kind r i = Assistant t True u w"
    by (auto elim: is_streaming_assistantE)
  with s ev show ?thesis
    by (simp add: reducer_apply_def dispatch_def on_message_complete_def Let_def update_kind_def wrap_def)
qed

lemma complete_seals_answer_witness:
  "\<exists>r'. reducer_apply sample_serde answering (sample_event ''message.complete'' [(''text'', JStr ''done'')])
          = Some (r', [\<lparr>sc_key = ''k'', sc_change = RowUpdated 1\<rparr>]) \<and>
        r_kind r' 1 = Assistant ''done'' False '''' ''''"
proof -
  have s: "streaming answering = Some 1"
    by (simp add: answering_def on_message_start_def Let_def user_reducer_def append_user_row_def)
  show ?thesis
    using complete_seals_answer [OF wf_answering s, of "sample_event ''message.complete'' [(''text'', JStr ''done'')]" sample_serde]
    by (auto simp: sample_event_def)
qed

section \<open>Tool cards\<close>

text \<open>Every card with an id is the one the tool map names.\<close>

definition cards_tracked :: "reducer \<Rightarrow> bool" where
  "cards_tracked r \<longleftrightarrow>
     (\<forall>i c. i < length (r_rows r) \<longrightarrow> r_kind r i = Tool c \<longrightarrow> tool_id c \<noteq> '''' \<longrightarrow>
        tools r (tool_id c) = Some i)"

lemma cards_trackedD:
  "cards_tracked r \<Longrightarrow> i < length (r_rows r) \<Longrightarrow> r_kind r i = Tool c \<Longrightarrow> tool_id c \<noteq> '''' \<Longrightarrow>
   tools r (tool_id c) = Some i"
  by (simp add: cards_tracked_def)

lemma tracked_same: "cards_tracked r \<Longrightarrow> r_rows r' = r_rows r \<Longrightarrow> tools r' = tools r \<Longrightarrow> cards_tracked r'"
  by (simp add: cards_tracked_def)

lemma tracked_push:
  assumes "cards_tracked r" and "r_rows r' = r_rows r @ [\<lparr>index = n, kind = k\<rparr>]" and "tools r' = tools r"
    and "\<And>c. k = Tool c \<Longrightarrow> tool_id c = ''''"
  shows "cards_tracked r'"
  using assms unfolding cards_tracked_def by (auto simp: nth_append less_Suc_eq)

lemma tracked_modify:
  assumes "cards_tracked r" and "r_rows r' = r_rows (modify_kind i f r)" and "tools r' = tools r"
    and "\<And>c. i < length (r_rows r) \<Longrightarrow> f (r_kind r i) = Tool c \<Longrightarrow> tool_id c \<noteq> '''' \<Longrightarrow>
           \<exists>c'. r_kind r i = Tool c' \<and> tool_id c' = tool_id c"
  shows "cards_tracked r'"
  unfolding cards_tracked_def
proof (intro allI impI)
  fix j c assume j: "j < length (r_rows r')" "r_kind r' j = Tool c" "tool_id c \<noteq> []"
  show "tools r' (tool_id c) = Some j"
  proof (cases "j = i")
    case True
    with j assms(2) have i: "i < length (r_rows r)" and f: "f (r_kind r i) = Tool c" by auto
    from assms(4) [OF i f j(3)] obtain c' where "r_kind r i = Tool c'" "tool_id c' = tool_id c" by blast
    with cards_trackedD [OF assms(1) i, of c'] j(3) True assms(3) show ?thesis by simp
  next
    case False
    with j assms(2) cards_trackedD [OF assms(1), of j c] assms(3) show ?thesis by simp
  qed
qed

definition tracked_result :: "handler_result \<Rightarrow> bool" where
  "tracked_result res \<longleftrightarrow> (\<forall>p. res = Some p \<longrightarrow> cards_tracked (fst p))"

lemma tracked_result_simps [simp]:
  "tracked_result (Some p) \<longleftrightarrow> cards_tracked (fst p)" "tracked_result None"
  by (simp_all add: tracked_result_def)

lemma tracked_result_if: "tracked_result x \<Longrightarrow> tracked_result y \<Longrightarrow> tracked_result (if b then x else y)"
  by simp

lemma tracked_update_kind:
  assumes "cards_tracked r"
    and "\<And>c. i < length (r_rows r) \<Longrightarrow> f (r_kind r i) = Tool c \<Longrightarrow> tool_id c \<noteq> '''' \<Longrightarrow>
           \<exists>c'. r_kind r i = Tool c' \<and> tool_id c' = tool_id c"
    and "\<And>q. r_rows (h q) = r_rows q" "\<And>q. tools (h q) = tools q"
  shows "tracked_result (map_option (\<lambda>r'. (h r', cs)) (update_kind i f r))"
proof (cases "i < length (r_rows r)")
  case True
  have "cards_tracked (h (modify_kind i f r))"
    by (rule tracked_modify [OF assms(1)]) (use assms in auto)
  with True show ?thesis by (simp add: update_kind_def)
qed (simp add: update_kind_def)

lemma tracked_simple:
  assumes "cards_tracked r"
  shows "cards_tracked (fst (on_message_start r))" "cards_tracked (fst (on_tool_generating r p))"
    "cards_tracked (fst (on_status_update r p))" "cards_tracked (fst (on_approval_request r p))"
    "cards_tracked (fst (on_clarify_request r p))" "cards_tracked (fst (on_error r p))"
  by (auto simp: on_message_start_def on_tool_generating_def on_status_update_def
      on_approval_request_def on_clarify_request_def on_error_def Let_def assms split: option.split
      intro: tracked_push [OF assms])

lemma tracked_delta: "cards_tracked r \<Longrightarrow> cards_tracked (fst (on_message_delta r p))"
  by (auto simp: on_message_delta_def append_streaming_text_def Let_def
      split: option.split row_kind.split intro: tracked_push tracked_modify)

lemma tracked_interim: "cards_tracked r \<Longrightarrow> cards_tracked (fst (on_message_interim r p))"
proof (cases "streaming r")
  case (Some i)
  assume t: "cards_tracked r"
  show ?thesis
  proof (cases "i < length (r_rows r)")
    case True
    with Some t show ?thesis
      by (auto simp: on_message_interim_def Let_def split: row_kind.splits
          elim!: tracked_modify)
  qed (use Some t in \<open>auto simp: on_message_interim_def Let_def intro: tracked_same\<close>)
qed (simp add: on_message_interim_def)

lemma tracked_complete: "cards_tracked r \<Longrightarrow> tracked_result (on_message_complete sj r p)"
  by (auto simp: on_message_complete_def Let_def
      split: option.split intro!: tracked_update_kind split: row_kind.splits)

lemma tracked_thinking: "cards_tracked r \<Longrightarrow> tracked_result (on_thinking_delta r p)"
  by (auto simp: on_thinking_delta_def Let_def
      split: option.split row_kind.split intro: tracked_push tracked_modify)

lemma tracked_header: "cards_tracked r \<Longrightarrow> cards_tracked (fst (merge_header r info))"
  by (auto simp: merge_header_def Let_def intro: tracked_same)

lemma tracked_session:
  "cards_tracked r \<Longrightarrow> cards_tracked (fst (on_session_info sj r p))"
  "cards_tracked r \<Longrightarrow> cards_tracked (fst (on_session_title r p))"
  by (simp_all add: on_session_info_def on_session_title_def tracked_header)

lemma tracked_progress: "cards_tracked r \<Longrightarrow> cards_tracked (fst (on_tool_progress r p))"
  by (auto simp: on_tool_progress_def Let_def
      split: option.split row_kind.split intro: tracked_modify)

lemma tracked_tool_complete: "cards_tracked r \<Longrightarrow> tracked_result (on_tool_complete sj r p)"
  by (auto simp: on_tool_complete_def Let_def
      split: option.split intro!: tracked_update_kind split: row_kind.splits)

lemma tracked_tool_start:
  assumes wf: "reducer_wf r" and t: "cards_tracked r"
  shows "tracked_result (on_tool_start sj r p)"
proof (cases "str_at p ''tool_id'' = ''''")
  case True
  with t show ?thesis by (simp add: on_tool_start_def)
next
  case id: False
  show ?thesis
  proof (cases "tools r (str_at p ''tool_id'')")
    case (Some i)
    show ?thesis
      unfolding on_tool_start_def Let_def Some option.case if_not_P [OF id]
      by (rule tracked_update_kind [OF t]) (auto split: row_kind.splits)
  next
    case None
    show ?thesis
    proof (cases "pending_generating_row r (str_at p ''name'')")
      case (Some i)
      from pending_rowD [OF Some] obtain c where i: "i < length (r_rows r)" and c: "r_kind r i = Tool c" by blast
      show ?thesis
        using None Some id i c cards_trackedD [OF t]
        by (auto simp: on_tool_start_def Let_def update_kind_def cards_tracked_def nth_list_update)
          (metis option.distinct(1))
    next
      case pend: None
      show ?thesis
        using None pend id cards_trackedD [OF t]
        by (auto simp: on_tool_start_def Let_def cards_tracked_def nth_append less_Suc_eq)
          (metis option.distinct(1))
    qed
  qed
qed

lemma tracked_dispatch:
  assumes "reducer_wf r" and "cards_tracked r"
  shows "tracked_result (dispatch sj r ty p)"
  unfolding dispatch_def
  by (intro tracked_result_if tracked_complete tracked_thinking tracked_tool_start tracked_tool_complete assms)
    (simp_all add: tracked_simple tracked_delta tracked_interim tracked_session tracked_progress assms)

lemma tracked_apply:
  assumes "reducer_wf r" and "cards_tracked r" and "reducer_apply sj r ev = Some (r', cs)"
  shows "cards_tracked r'"
  using assms tracked_dispatch [OF assms(1,2), of sj "event_type ev" "ev_payload ev"]
  by (auto simp: reducer_apply_def tracked_result_def split: if_splits)

lemma tracked_applies:
  assumes "foldM (reducer_apply sj) r evs = Some (r', cs)" and "reducer_wf r" and "cards_tracked r"
  shows "cards_tracked r'"
  using assms
proof (induction evs arbitrary: r cs)
  case (Cons ev evs)
  then obtain r1 c1 c2 where 1: "reducer_apply sj r ev = Some (r1, c1)"
    and 2: "foldM (reducer_apply sj) r1 evs = Some (r', c2)"
    by (auto split: option.splits)
  from Cons.IH [OF 2 apply_wf [OF Cons.prems(2) 1] tracked_apply [OF Cons.prems(2,3) 1]]
  show ?case .
qed simp

text \<open>The non-empty tool ids of a history.\<close>

definition history_tool_ids :: "json list \<Rightarrow> string list" where
  "history_tool_ids msgs =
     List.map_filter (\<lambda>m. case history_kind m of
        Tool c \<Rightarrow> (if tool_id c = '''' then None else Some (tool_id c)) | _ \<Rightarrow> None)
      (filter is_object msgs)"

lemma tracked_ingest_messages:
  assumes "cards_tracked r" and "distinct (history_tool_ids msgs)"
    and "\<forall>t \<in> set (history_tool_ids msgs). tools r t = None"
  shows "cards_tracked (fst (ingest_messages r msgs))"
  using assms
proof (induction msgs arbitrary: r)
  case (Cons m ms)
  show ?case
  proof (cases "is_object m")
    case False
    with Cons show ?thesis by (simp add: ingest_message_skip split_beta history_tool_ids_def)
  next
    case True
    define r1 where "r1 = fst (ingest_message r m)"
    show ?thesis
    proof (cases "\<exists>c. history_kind m = Tool c \<and> tool_id c \<noteq> ''''")
      case t: True
      then obtain c where c: "history_kind m = Tool c" "tool_id c \<noteq> ''''" by blast
      have ids: "history_tool_ids (m # ms) = tool_id c # history_tool_ids ms"
        using True c by (simp add: history_tool_ids_def List.map_filter_simps)
      have r1: "r1 = (push_row (Tool c) r)\<lparr>tools := (tools r)(tool_id c \<mapsto> length (r_rows r))\<rparr>"
        using True c by (simp add: r1_def ingest_message_def Let_def)
      have "cards_tracked r1"
        using Cons.prems cards_trackedD [OF Cons.prems(1)]
        by (auto simp: r1 ids cards_tracked_def nth_append less_Suc_eq)
          (metis c(2) option.distinct(1))
      moreover have "\<forall>t \<in> set (history_tool_ids ms). tools r1 t = None"
        using Cons.prems by (auto simp: r1 ids)
      ultimately show ?thesis
        using Cons.IH [of r1] Cons.prems(2) by (simp add: ids split_beta flip: r1_def)
    next
      case nt: False
      then have ids: "history_tool_ids (m # ms) = history_tool_ids ms"
        using True by (cases "history_kind m") (auto simp: history_tool_ids_def List.map_filter_simps)
      have r1: "r1 = push_row (history_kind m) r"
        using True nt by (cases "history_kind m") (auto simp: r1_def ingest_message_def Let_def push_row_def)
      have "cards_tracked r1"
        by (rule tracked_push [OF Cons.prems(1)]) (use nt in \<open>auto simp: r1\<close>)
      with Cons.IH [of r1] Cons.prems show ?thesis
        by (simp add: ids r1 split_beta flip: r1_def)
    qed
  qed
qed (simp add: history_tool_ids_def)

text \<open>No event re-points a tool id.\<close>

definition tools_kept :: "reducer \<Rightarrow> handler_result \<Rightarrow> bool" where
  "tools_kept r res \<longleftrightarrow> (\<forall>p t i. res = Some p \<longrightarrow> tools r t = Some i \<longrightarrow> tools (fst p) t = Some i)"

lemma tools_kept_if: "tools_kept r x \<Longrightarrow> tools_kept r y \<Longrightarrow> tools_kept r (if b then x else y)"
  by simp

lemma tools_kept_same: "tools (fst p) = tools r \<Longrightarrow> tools_kept r (Some p)"
  by (simp add: tools_kept_def)

lemma tools_same:
  "tools (fst (on_message_start r)) = tools r" "tools (fst (on_message_delta r p)) = tools r"
  "tools (fst (on_message_interim r p)) = tools r" "tools (fst (on_tool_generating r p)) = tools r"
  "tools (fst (on_tool_progress r p)) = tools r" "tools (fst (on_status_update r p)) = tools r"
  "tools (fst (on_approval_request r p)) = tools r" "tools (fst (on_clarify_request r p)) = tools r"
  "tools (fst (on_session_info sj r p)) = tools r" "tools (fst (on_session_title r p)) = tools r"
  "tools (fst (on_error r p)) = tools r"
  by (simp_all add: on_message_start_def on_message_delta_def append_streaming_text_def
      on_message_interim_def on_tool_generating_def on_tool_progress_def on_status_update_def
      on_approval_request_def on_clarify_request_def on_session_info_def on_session_title_def
      on_error_def merge_header_def Let_def split: option.split row_kind.split)

lemma tools_kept_checked:
  "tools_kept r (on_message_complete sj r p)" "tools_kept r (on_thinking_delta r p)"
  "tools_kept r (on_tool_start sj r p)" "tools_kept r (on_tool_complete sj r p)"
  by (auto simp: tools_kept_def on_message_complete_def on_thinking_delta_def on_tool_start_def
      on_tool_complete_def Let_def update_kind_def split: if_splits option.splits row_kind.splits)

lemma dispatch_keeps_tools:
  assumes "dispatch sj r ty p = Some (r', cs)" and "tools r t = Some i"
  shows "tools r' t = Some i"
proof -
  have "tools_kept r (dispatch sj r ty p)"
    unfolding dispatch_def
    by (intro tools_kept_if tools_kept_checked) (simp_all add: tools_kept_same tools_same)
  with assms show ?thesis by (auto simp: tools_kept_def)
qed

lemma tracked_new: "cards_tracked new_reducer"
  by (simp add: cards_tracked_def)

text \<open>
  C31: after a resume whose history has each tool id once, and any sequence of events, a
  tool id is on at most one card: starts and repeated starts never add a second one.
\<close>

theorem one_card_per_tool_id:
  assumes "distinct (history_tool_ids msgs)"
    and "foldM (reducer_apply sj) (fst (ingest_resume_messages r0 key msgs)) evs = Some (r, cs)"
    and "i < length (r_rows r)" "r_kind r i = Tool c" "j < length (r_rows r)" "r_kind r j = Tool d"
    and "tool_id c = tool_id d" "tool_id c \<noteq> ''''"
  shows "i = j"
proof -
  have "cards_tracked (fst (ingest_resume_messages r0 key msgs))"
    using tracked_ingest_messages [OF tracked_new assms(1)]
    by (simp add: ingest_resume_messages_def split_beta new_reducer_def)
  moreover have "reducer_wf (fst (ingest_resume_messages r0 key msgs))"
    by (metis ingest_resume_messages_result fst_conv)
  ultimately have "cards_tracked r" using tracked_applies [OF assms(2)] by blast
  from cards_trackedD [OF this assms(3,4,8)] cards_trackedD [OF this assms(5,6)] assms(7,8)
  show ?thesis by simp
qed

definition tool_history :: "json list" where
  "tool_history = [JObj [(''role'', JStr ''tool''), (''name'', JStr ''ls''),
     (''display_metadata'', JObj [(''tool_id'', JStr ''t1'')])]]"

definition tool_starts :: "event_params list" where
  "tool_starts =
     [sample_event ''tool.start'' [(''tool_id'', JStr ''t1''), (''name'', JStr ''ls'')],
      sample_event ''tool.start'' [(''tool_id'', JStr ''t2''), (''name'', JStr ''ls'')]]"

lemma one_card_per_tool_id_witness:
  "\<exists>r cs c d. foldM (reducer_apply sample_serde) (fst (ingest_resume_messages new_reducer ''k'' tool_history))
      tool_starts = Some (r, cs) \<and>
     r_kind r 0 = Tool c \<and> r_kind r 1 = Tool d \<and> tool_id c \<noteq> tool_id d"
proof -
  have d: "distinct (history_tool_ids tool_history)" by code_simp
  have rows: "map_option (\<lambda>(r, cs). map (\<lambda>row. map_option tool_id (tool_of (kind row))) (r_rows r))
     (foldM (reducer_apply sample_serde) (fst (ingest_resume_messages new_reducer ''k'' tool_history)) tool_starts)
       = Some [Some ''t1'', Some ''t2'']" by code_simp
  then obtain r cs where r: "foldM (reducer_apply sample_serde)
      (fst (ingest_resume_messages new_reducer ''k'' tool_history)) tool_starts = Some (r, cs)"
    and m: "map (\<lambda>row. map_option tool_id (tool_of (kind row))) (r_rows r) = [Some ''t1'', Some ''t2'']"
    by auto
  then obtain c e where ce: "r_kind r 0 = Tool c" "r_kind r 1 = Tool e" "tool_id c = ''t1''"
    and len: "length (r_rows r) = 2"
    by (auto simp: map_eq_Cons_conv)
  have ne: "tool_id c \<noteq> ''''" using ce(3) by simp
  have "tool_id c \<noteq> tool_id e"
    using one_card_per_tool_id [OF d r _ ce(1) _ ce(2) _ ne] len by auto
  with ce r show ?thesis by blast
qed

text \<open>
  The tool map keeps naming the same card whatever happens in between, and a later
  \<open>tool.complete\<close> with that id marks exactly that card complete with its result and
  duration, emits one update of its row and touches no other row.
\<close>

lemma tool_completes_its_card:
  assumes wf: "reducer_wf r" and i: "tools r t = Some i"
    and run: "foldM (reducer_apply sj) r evs = Some (r1, cs)"
    and ev: "event_type ev = ''tool.complete''" "ev_session_id ev = key" "key \<noteq> ''''"
      "str_at (ev_payload ev) ''tool_id'' = t"
  shows "\<exists>r' c. reducer_apply sj r1 ev = Some (r', [\<lparr>sc_key = key, sc_change = RowUpdated i\<rparr>]) \<and>
           r_kind r' i = Tool c \<and> tool_id c = t \<and> complete c \<and>
           result_json c = unwrap_or '''' (map_option (to_compact_string sj) (get_key (ev_payload ev) ''result'')) \<and>
           duration_s c = f64_at (ev_payload ev) ''duration_s'' \<and>
           (\<forall>j. j \<noteq> i \<longrightarrow> r_rows r' ! j = r_rows r1 ! j)"
proof -
  have keep: "tools q' t = Some i" if "reducer_apply sj q e = Some (q', c)" "tools q t = Some i" for q q' e c
    using that(1)
    using that(2) by (auto simp: reducer_apply_def intro: dispatch_keeps_tools split: if_splits)
  have "reducer_wf r1 \<and> tools r1 t = Some i"
    using run wf i
  proof (induction evs arbitrary: r cs)
    case (Cons e evs)
    then obtain q c1 c2 where 1: "reducer_apply sj r e = Some (q, c1)"
      and 2: "foldM (reducer_apply sj) q evs = Some (r1, c2)"
      by (auto split: option.splits)
    from Cons.IH [OF 2 apply_wf [OF Cons.prems(2) 1] keep [OF 1 Cons.prems(3)]] show ?case .
  qed simp
  then have wf1: "reducer_wf r1" and i1: "tools r1 t = Some i" by blast+
  from reducer_wfD(6,7) [OF wf1 i1] obtain c where
    "i < length (r_rows r1)" "r_kind r1 i = Tool c" "tool_id c = t" by blast
  with i1 ev show ?thesis
    by (simp add: reducer_apply_def dispatch_def on_tool_complete_def Let_def update_kind_def wrap_def)
qed

definition tool_reducer :: reducer where
  "tool_reducer = fst (ingest_resume_messages new_reducer ''k'' tool_history)"

lemma tool_completes_its_card_witness:
  "\<exists>r1 cs r' c. foldM (reducer_apply sample_serde) tool_reducer tool_starts = Some (r1, cs) \<and>
     reducer_apply sample_serde r1 (sample_event ''tool.complete'' [(''tool_id'', JStr ''t1'')])
       = Some (r', [\<lparr>sc_key = ''k'', sc_change = RowUpdated 0\<rparr>]) \<and> r_kind r' 0 = Tool c \<and> complete c"
proof -
  have wf: "reducer_wf tool_reducer"
    unfolding tool_reducer_def by (metis fst_conv ingest_resume_messages_result)
  have t: "tools tool_reducer ''t1'' = Some 0" by code_simp
  obtain r1 cs where r1: "foldM (reducer_apply sample_serde) tool_reducer tool_starts = Some (r1, cs)"
    by (rule applies_wf [OF wf])
  have "str_at (ev_payload (sample_event ''tool.complete'' [(''tool_id'', JStr ''t1'')])) ''tool_id'' = ''t1''"
    by (simp add: sample_event_def)
  from tool_completes_its_card [OF wf t r1 _ _ _ this, of "''k''"] r1 show ?thesis
    by (fastforce simp: sample_event_def)
qed

section \<open>Approvals\<close>

lemma has_unresolved_iff:
  "has_unresolved_approval r rid \<longleftrightarrow> (\<exists>i < length (r_rows r). is_unresolved_approval rid (r_kind r i))"
  unfolding has_unresolved_approval_def by (metis in_set_conv_nth)

lemma find_kind_None: "find_kind r P = None \<longleftrightarrow> (\<forall>row \<in> set (r_rows r). \<not> P (kind row))"
  by (simp add: find_kind_def position_None_iff)

lemma resolve_approval_Some:
  assumes "find_kind r (is_unresolved_approval rid) = Some i"
  obtains d where "r_kind r i = Approval d" "appr_request_id d = rid" "\<not> appr_resolved d" "i < length (r_rows r)"
    "resolve_approval r key rid =
       Some (modify_kind i (\<lambda>k. case k of Approval c \<Rightarrow> Approval (c\<lparr>appr_resolved := True\<rparr>) | _ \<Rightarrow> k) r,
             wrap key [RowUpdated i])"
proof -
  note c = find_kindD [OF assms]
  from c(2) obtain d where "r_kind r i = Approval d" "appr_request_id d = rid" "\<not> appr_resolved d"
    by (auto simp: is_unresolved_approval_def split: row_kind.splits)
  with c(1) assms that show thesis by (simp add: resolve_approval_def update_kind_def)
qed

text \<open>How many unresolved cards carry a request id.\<close>

definition unresolved_count :: "reducer \<Rightarrow> string \<Rightarrow> nat" where
  "unresolved_count r rid = length (filter (\<lambda>row. is_unresolved_approval rid (kind row)) (r_rows r))"

lemma unresolved_count_0: "unresolved_count r rid = 0 \<longleftrightarrow> \<not> has_unresolved_approval r rid"
  by (simp add: unresolved_count_def has_unresolved_approval_def filter_empty_conv)

lemma length_filter_update:
  assumes "i < length xs" and "P (xs ! i)" and "\<not> P y"
  shows "Suc (length (filter P (xs[i := y]))) = length (filter P xs)"
proof -
  have "xs = take i xs @ xs ! i # drop (Suc i) xs" using assms(1) by (simp add: id_take_nth_drop)
  then have "length (filter P xs) = length (filter P (take i xs @ xs ! i # drop (Suc i) xs))" by simp
  with assms show ?thesis by (simp add: upd_conv_take_nth_drop)
qed

lemma resolve_approval_counts:
  "\<exists>r' cs. resolve_approval r key rid = Some (r', cs) \<and>
     unresolved_count r' rid = unresolved_count r rid - 1 \<and>
     (cs = [] \<longleftrightarrow> \<not> has_unresolved_approval r rid) \<and> (cs = [] \<longrightarrow> r' = r)"
proof (cases "find_kind r (is_unresolved_approval rid)")
  case None
  then have "\<not> has_unresolved_approval r rid"
    by (simp add: find_kind_None has_unresolved_approval_def)
  with None show ?thesis
    using unresolved_count_0 [of r rid] by (simp add: resolve_approval_def)
next
  case (Some i)
  then obtain d where d: "r_kind r i = Approval d" "appr_request_id d = rid" "\<not> appr_resolved d"
    "i < length (r_rows r)"
    "resolve_approval r key rid =
       Some (modify_kind i (\<lambda>k. case k of Approval c \<Rightarrow> Approval (c\<lparr>appr_resolved := True\<rparr>) | _ \<Rightarrow> k) r,
             wrap key [RowUpdated i])"
    by (rule resolve_approval_Some [where key = key])
  then have h: "has_unresolved_approval r rid"
    by (auto simp: has_unresolved_iff is_unresolved_approval_def)
  have "Suc (unresolved_count
      (modify_kind i (\<lambda>k. case k of Approval c \<Rightarrow> Approval (c\<lparr>appr_resolved := True\<rparr>) | _ \<Rightarrow> k) r) rid)
      = unresolved_count r rid"
    unfolding unresolved_count_def r_rows_modify
    by (rule length_filter_update) (use d in \<open>simp_all add: is_unresolved_approval_def\<close>)
  with d(5) h show ?thesis by auto
qed


section \<open>Rebuilding\<close>

text \<open>
  a resume ingest forgets everything the reducer held: the rows become exactly the
  object entries of the history in order with consecutive indices, the change stream is a
  reset followed by one append per row, and the result does not depend on the old state.
\<close>

lemma ingest_rebuilds:
  "map kind (r_rows (fst (ingest_resume_messages r key msgs))) = map history_kind (filter is_object msgs) \<and>
   map index (r_rows (fst (ingest_resume_messages r key msgs))) = [0..<length (filter is_object msgs)] \<and>
   snd (ingest_resume_messages r key msgs) =
     wrap key (Reset # map RowAppended [0..<length (filter is_object msgs)]) \<and>
   ingest_resume_messages r key msgs = ingest_resume_messages r0 key msgs"
proof -
  obtain r' where r': "ingest_resume_messages r key msgs =
      (r', wrap key (Reset # map RowAppended [0..<length (filter is_object msgs)]))"
    "r_rows r' = history_rows 0 msgs"
    by (rule ingest_resume_messages_result)
  have "map kind (history_rows n msgs) = map history_kind (filter is_object msgs)"
    "map index (history_rows n msgs) = [n..<n + length (filter is_object msgs)]" for n
    by (rule nth_equalityI; simp add: history_rows_def nth_enumerate_eq)+
  from this [of 0] r' show ?thesis by (simp add: ingest_resume_messages_def)
qed

section \<open>Events with no effect\<close>

definition known_types :: "string list" where
  "known_types = [''message.start'', ''message.delta'', ''message.interim'', ''message.complete'',
     ''thinking.delta'', ''reasoning.delta'', ''tool.generating'', ''tool.start'', ''tool.progress'',
     ''tool.complete'', ''status.update'', ''approval.request'', ''clarify.request'', ''session.info'',
     ''session.title'', ''error'']"

text \<open>
  an event without a session, of a type the client does not know, or a heartbeat, is
  absorbed: the reducer is unchanged and nothing is emitted.
\<close>

lemma absorbed_events:
  assumes "ev_session_id ev = '''' \<or> event_type ev \<notin> set known_types \<or>
    event_type ev = ''status.update'' \<and> str_at (ev_payload ev) ''kind'' = ''heartbeat''"
  shows "reducer_apply sj r ev = Some (r, [])"
  using assms
  by (auto simp: reducer_apply_def dispatch_def known_types_def on_status_update_def Let_def
      status_kind_parse_def)

lemma absorbed_events_witness:
  "reducer_apply sample_serde answering (sample_event ''skin.changed'' []) = Some (answering, [])"
  by (rule absorbed_events) (simp add: sample_event_def known_types_def)

section \<open>A card of the history taken for a placeholder\<close>

text \<open>
  A resume history entry of a tool without an id is a completed card with an empty id,
  which \<open>pending_generating_row\<close> takes for a placeholder: the next \<open>tool.start\<close> of that
  tool name captures the old card, keeps it marked complete and appends no row.
\<close>

lemma history_card_captured_by_tool_start:
  "let r = fst (ingest_resume_messages new_reducer ''k''
                 [JObj [(''role'', JStr ''tool''), (''name'', JStr ''ls''), (''text'', JStr ''old'')]]);
       res = reducer_apply sample_serde r
               (sample_event ''tool.start'' [(''tool_id'', JStr ''t9''), (''name'', JStr ''ls'')])
   in map_option (\<lambda>(r', cs). (map (\<lambda>row. map_option (\<lambda>c. (tool_id c, complete c, result_json c)) (tool_of (kind row)))
                          (r_rows r'), unwrap_changes cs)) res
      = Some ([Some (''t9'', True, ''old'')], [RowUpdated 0])"
  by code_simp

end
