(* ===== verification/Registry.thy ===== *)
theory Registry
  imports Core_Error
begin

text \<open>
  The durable list of open tabs: \<open>hermes_core/src/session_registry.rs\<close>. The store part is
  an instance of a keyed, ordered store, stated as a locale.
\<close>

section \<open>Records and operations\<close>

record session_record =
  stored_id :: string
  last_seen_seq :: int
  rec_epoch :: string
  rec_cols :: int
  rec_title :: string
  rec_profile :: string

record registry =
  active_key :: "string option"
  sessions :: "session_record list"

definition resume_profile :: "session_record \<Rightarrow> string option" where
  "resume_profile r = (if rec_profile r = '''' then None else Some (rec_profile r))"

definition registry_new :: registry where
  "registry_new = \<lparr>active_key = None, sessions = []\<rparr>"

definition registry_upsert :: "session_record \<Rightarrow> registry \<Rightarrow> registry" where
  "registry_upsert r reg =
     (case position (\<lambda>x. stored_id x = stored_id r) (sessions reg) of
        Some i \<Rightarrow> reg\<lparr>sessions := (sessions reg)[i := r]\<rparr>
      | None \<Rightarrow> reg\<lparr>sessions := sessions reg @ [r]\<rparr>)"

definition registry_close :: "string \<Rightarrow> registry \<Rightarrow> registry \<times> bool" where
  "registry_close key reg =
     (let kept = filter (\<lambda>r. stored_id r \<noteq> key) (sessions reg)
      in (reg\<lparr>active_key := (if active_key reg = Some key then None else active_key reg),
              sessions := kept\<rparr>,
          length kept \<noteq> length (sessions reg)))"

definition set_active :: "string option \<Rightarrow> registry \<Rightarrow> registry" where
  "set_active key reg = reg\<lparr>active_key := key\<rparr>"

definition registry_get :: "registry \<Rightarrow> string \<Rightarrow> session_record option" where
  "registry_get reg key = find (\<lambda>r. stored_id r = key) (sessions reg)"

text \<open>\<open>get_mut\<close> followed by an assignment through the reference.\<close>

definition registry_modify :: "string \<Rightarrow> (session_record \<Rightarrow> session_record) \<Rightarrow> registry \<Rightarrow> registry" where
  "registry_modify key f reg =
     (case position (\<lambda>r. stored_id r = key) (sessions reg) of
        None \<Rightarrow> reg
      | Some i \<Rightarrow> reg\<lparr>sessions := (sessions reg)[i := f (sessions reg ! i)]\<rparr>)"

definition touch_record :: "int \<Rightarrow> string \<Rightarrow> session_record \<Rightarrow> session_record" where
  "touch_record seq epoch rec =
     (let rec1 = (if last_seen_seq rec < seq then rec\<lparr>last_seen_seq := seq\<rparr> else rec)
      in if epoch = '''' then rec1 else rec1\<lparr>rec_epoch := epoch\<rparr>)"

definition registry_touch :: "string \<Rightarrow> int \<Rightarrow> string \<Rightarrow> registry \<Rightarrow> registry" where
  "registry_touch key seq epoch reg = registry_modify key (touch_record seq epoch) reg"

definition registry_is_empty :: "registry \<Rightarrow> bool" where
  "registry_is_empty reg \<longleftrightarrow> sessions reg = []"

section \<open>Serialization\<close>

definition record_to_value :: "session_record \<Rightarrow> json" where
  "record_to_value r =
     JObj [(''stored_id'', JStr (stored_id r)),
           (''last_seen_seq'', JNum (IntNum (last_seen_seq r))),
           (''replay_epoch'', JStr (rec_epoch r)),
           (''cols'', JNum (IntNum (rec_cols r))),
           (''title'', JStr (rec_title r)),
           (''profile_name'', JStr (rec_profile r))]"

definition registry_to_value :: "registry \<Rightarrow> json" where
  "registry_to_value reg =
     (let root = JObj [(''sessions'', JArr (map record_to_value (sessions reg)))]
      in case active_key reg of None \<Rightarrow> root | Some a \<Rightarrow> set_key ''active'' (JStr a) root)"

definition registry_to_json :: "serde \<Rightarrow> registry \<Rightarrow> string" where
  "registry_to_json sj reg = to_compact_string sj (registry_to_value reg)"

definition record_from_value :: "json \<Rightarrow> session_record option" where
  "record_from_value item =
     (if \<not> is_object item then None
      else if str_at item ''stored_id'' = '''' then None
      else Some \<lparr>stored_id = str_at item ''stored_id'', last_seen_seq = i64_at item ''last_seen_seq'',
                 rec_epoch = str_at item ''replay_epoch'', rec_cols = i64_at item ''cols'',
                 rec_title = str_at item ''title'', rec_profile = str_at item ''profile_name''\<rparr>)"

definition registry_from_value :: "json \<Rightarrow> registry" where
  "registry_from_value value =
     \<lparr>active_key = (let a = str_at value ''active'' in if a = '''' then None else Some a),
      sessions = List.map_filter record_from_value (array_at value ''sessions'')\<rparr>"

definition registry_from_json :: "serde \<Rightarrow> string \<Rightarrow> core_error + registry" where
  "registry_from_json sj text =
     (case from_str sj text of
        None \<Rightarrow> Inl (CoreError_Io (''corrupt sessions.json: '' @ parse_error sj text))
      | Some value \<Rightarrow> Inr (registry_from_value value))"

section \<open>An ordered store with unique keys\<close>

locale keyed_store =
  fixes ok :: "'s \<Rightarrow> bool"
    and keys :: "'s \<Rightarrow> 'k list"
    and look :: "'s \<Rightarrow> 'k \<Rightarrow> 'r option"
    and put :: "'r \<Rightarrow> 's \<Rightarrow> 's"
    and del :: "'k \<Rightarrow> 's \<Rightarrow> 's"
    and key_of :: "'r \<Rightarrow> 'k"
  assumes ok_distinct: "ok s \<Longrightarrow> distinct (keys s)"
    and put_ok: "ok s \<Longrightarrow> ok (put r s)"
    and del_ok: "ok s \<Longrightarrow> ok (del k s)"
    and look_put: "ok s \<Longrightarrow> look (put r s) k = (if k = key_of r then Some r else look s k)"
    and look_del: "ok s \<Longrightarrow> look (del k s) k' = (if k' = k then None else look s k')"
    and keys_put: "ok s \<Longrightarrow>
        keys (put r s) = (if key_of r \<in> set (keys s) then keys s else keys s @ [key_of r])"
    and keys_del: "ok s \<Longrightarrow> keys (del k s) = removeAll k (keys s)"
begin

text \<open>A sequence of operations, \<open>Inl\<close> an insertion and \<open>Inr\<close> a removal.\<close>

definition store_step :: "'r + 'k \<Rightarrow> 's \<Rightarrow> 's" where
  "store_step opn s = (case opn of Inl r \<Rightarrow> put r s | Inr k \<Rightarrow> del k s)"

definition map_step :: "'r + 'k \<Rightarrow> ('k \<rightharpoonup> 'r) \<Rightarrow> ('k \<rightharpoonup> 'r)" where
  "map_step opn m = (case opn of Inl r \<Rightarrow> m(key_of r \<mapsto> r) | Inr k \<Rightarrow> m(k := None))"

lemma store_step_ok: "ok s \<Longrightarrow> ok (store_step opn s)"
  by (cases opn) (simp_all add: store_step_def put_ok del_ok)

lemma look_store_step: "ok s \<Longrightarrow> look (store_step opn s) = map_step opn (look s)"
  by (cases opn) (auto simp: fun_eq_iff store_step_def map_step_def look_put look_del)

lemma run_refines_map:
  "ok s \<Longrightarrow> ok (fold store_step ops s) \<and> look (fold store_step ops s) = fold map_step ops (look s)"
  by (induction ops arbitrary: s) (simp_all add: store_step_ok look_store_step)

lemma run_distinct: "ok s \<Longrightarrow> distinct (keys (fold store_step ops s))"
  using run_refines_map ok_distinct by blast

text \<open>The relative order of keys that are never removed does not change.\<close>

lemma step_keeps_order:
  assumes "ok s" and "keys s = xs @ ys" and "\<forall>k \<in> set xs. opn \<noteq> Inr k"
  shows "\<exists>zs. keys (store_step opn s) = xs @ zs"
proof (cases opn)
  case (Inl r)
  then show ?thesis using assms by (auto simp: store_step_def keys_put)
next
  case (Inr k)
  then have "k \<notin> set xs" using assms(3) by auto
  then show ?thesis using assms Inr by (auto simp: store_step_def keys_del)
qed

lemma run_keeps_order:
  assumes "ok s" and "keys s = xs @ ys" and "\<forall>k \<in> set xs. Inr k \<notin> set ops"
  shows "\<exists>zs. keys (fold store_step ops s) = xs @ zs"
  using assms
proof (induction ops arbitrary: s ys)
  case (Cons opn ops)
  then obtain zs where "keys (store_step opn s) = xs @ zs"
    using step_keeps_order [of s xs ys opn] by fastforce
  with Cons.IH [of "store_step opn s" zs] Cons.prems show ?case by (simp add: store_step_ok)
qed simp

end

section \<open>The registry is such a store\<close>

definition registry_keys :: "registry \<Rightarrow> string list" where
  "registry_keys reg = map stored_id (sessions reg)"

definition registry_wf :: "registry \<Rightarrow> bool" where
  "registry_wf reg \<longleftrightarrow> distinct (registry_keys reg)"

lemma position_key_Some:
  assumes "position (\<lambda>x. stored_id x = k) rs = Some i"
  shows "i < length rs" "stored_id (rs ! i) = k"
  using position_SomeD [OF assms] by auto

lemma position_key_None: "position (\<lambda>x. stored_id x = k) rs = None \<longleftrightarrow> k \<notin> stored_id ` set rs"
  by (auto simp: position_None_iff)

lemma map_stored_id_update: "stored_id r = stored_id (rs ! i) \<Longrightarrow> map stored_id (rs[i := r]) = map stored_id rs"
  by (cases "i < length rs") (simp_all add: map_update list_update_same_conv list_update_beyond)

lemma keys_upsert:
  "registry_keys (registry_upsert r reg) =
     (if stored_id r \<in> set (registry_keys reg) then registry_keys reg
      else registry_keys reg @ [stored_id r])"
proof (cases "position (\<lambda>x. stored_id x = stored_id r) (sessions reg)")
  case None
  then have "stored_id r \<notin> set (registry_keys reg)"
    by (simp add: registry_keys_def position_key_None)
  with None show ?thesis by (simp add: registry_upsert_def registry_keys_def)
next
  case (Some i)
  have "stored_id r \<in> set (registry_keys reg)"
    using position_key_None [of "stored_id r" "sessions reg"] Some by (simp add: registry_keys_def)
  with Some position_key_Some [OF Some] show ?thesis
    by (simp add: registry_upsert_def registry_keys_def map_stored_id_update)
qed

lemma find_append: "find P (xs @ ys) = (case find P xs of None \<Rightarrow> find P ys | Some x \<Rightarrow> Some x)"
  by (induction xs) auto

lemma find_update_key:
  assumes "distinct (map stored_id rs)" and "i < length rs" and "stored_id r = stored_id (rs ! i)"
  shows "find (\<lambda>x. stored_id x = k) (rs[i := r]) =
         (if k = stored_id r then Some r else find (\<lambda>x. stored_id x = k) rs)"
  using assms
proof (induction rs arbitrary: i)
  case (Cons x rs)
  show ?case
  proof (cases i)
    case (Suc j)
    with Cons.prems have "rs ! j \<in> set rs" "stored_id r = stored_id (rs ! j)" by simp_all
    with Cons.prems(1) have "stored_id x \<noteq> stored_id r" by auto
    with Suc Cons show ?thesis by auto
  qed (use Cons.prems in auto)
qed simp

lemma find_key_None: "find (\<lambda>x. stored_id x = k) rs = None \<longleftrightarrow> k \<notin> stored_id ` set rs"
  by (auto simp: find_None_iff)

lemma get_upsert:
  assumes "registry_wf reg"
  shows "registry_get (registry_upsert r reg) k = (if k = stored_id r then Some r else registry_get reg k)"
proof (cases "position (\<lambda>x. stored_id x = stored_id r) (sessions reg)")
  case None
  then have "stored_id r \<notin> stored_id ` set (sessions reg)" by (simp add: position_key_None)
  then have "find (\<lambda>x. stored_id x = stored_id r) (sessions reg) = None" by (simp add: find_key_None)
  with None show ?thesis
    by (auto simp: registry_upsert_def registry_get_def find_append split: option.split)
next
  case (Some i)
  with position_key_Some [OF Some] assms show ?thesis
    by (simp add: registry_upsert_def registry_get_def registry_wf_def registry_keys_def find_update_key)
qed

lemma keys_close: "registry_keys (fst (registry_close k reg)) = removeAll k (registry_keys reg)"
proof -
  have "map stored_id (filter (\<lambda>r. stored_id r \<noteq> k) rs) = removeAll k (map stored_id rs)" for rs
    by (induction rs) auto
  then show ?thesis by (simp add: registry_close_def Let_def registry_keys_def)
qed

lemma get_close:
  "registry_get (fst (registry_close k reg)) k' = (if k' = k then None else registry_get reg k')"
proof -
  have "find (\<lambda>r. stored_id r = k') (filter (\<lambda>r. stored_id r \<noteq> k) rs) =
        (if k' = k then None else find (\<lambda>r. stored_id r = k') rs)" for rs
    by (induction rs) auto
  from this [of "sessions reg"] show ?thesis by (simp add: registry_close_def Let_def registry_get_def)
qed

interpretation tabs: keyed_store registry_wf registry_keys registry_get registry_upsert
    "\<lambda>k reg. fst (registry_close k reg)" stored_id
proof
  fix s r k k'
  assume s: "registry_wf s"
  then show "distinct (registry_keys s)" by (simp add: registry_wf_def)
  show "registry_wf (registry_upsert r s)" using s by (simp add: registry_wf_def keys_upsert)
  show "registry_wf (fst (registry_close k s))"
    using s by (simp add: registry_wf_def keys_close distinct_removeAll)
  show "registry_get (registry_upsert r s) k = (if k = stored_id r then Some r else registry_get s k)"
    by (rule get_upsert [OF s])
  show "registry_get (fst (registry_close k s)) k' = (if k' = k then None else registry_get s k')"
    by (rule get_close)
  show "registry_keys (registry_upsert r s) =
      (if stored_id r \<in> set (registry_keys s) then registry_keys s else registry_keys s @ [stored_id r])"
    by (rule keys_upsert)
  show "registry_keys (fst (registry_close k s)) = removeAll k (registry_keys s)"
    by (rule keys_close)
qed

section \<open>Runs of tab operations\<close>

text \<open>Opening or replacing a tab (\<open>Inl\<close>) and closing one (\<open>Inr\<close>).\<close>

definition tab_step :: "session_record + string \<Rightarrow> registry \<Rightarrow> registry" where
  "tab_step opn reg =
     (case opn of Inl r \<Rightarrow> registry_upsert r reg | Inr k \<Rightarrow> fst (registry_close k reg))"

definition tab_map_step ::
  "session_record + string \<Rightarrow> (string \<rightharpoonup> session_record) \<Rightarrow> (string \<rightharpoonup> session_record)" where
  "tab_map_step opn m = (case opn of Inl r \<Rightarrow> m(stored_id r \<mapsto> r) | Inr k \<Rightarrow> m(k := None))"

lemma tab_step_eq: "tabs.store_step = tab_step" "tabs.map_step = tab_map_step"
  by (auto simp: fun_eq_iff tabs.store_step_def tabs.map_step_def tab_step_def tab_map_step_def
      split: sum.splits)


definition sample_record :: "string \<Rightarrow> session_record" where
  "sample_record k = \<lparr>stored_id = k, last_seen_seq = 5, rec_epoch = ''e'', rec_cols = 80,
                      rec_title = '''', rec_profile = ''''\<rparr>"

definition sample_registry :: registry where
  "sample_registry = \<lparr>active_key = Some ''b'', sessions = [sample_record ''a'', sample_record ''b'']\<rparr>"


section \<open>Watermarks\<close>

lemma registry_get_modify:
  assumes "\<And>r. stored_id (f r) = stored_id r"
  shows "registry_get (registry_modify key f reg) k =
         (if k = key then map_option f (registry_get reg k) else registry_get reg k)"
proof -
  define mm where "mm = (\<lambda>rs. case position (\<lambda>r. stored_id r = key) rs of
      None \<Rightarrow> rs | Some i \<Rightarrow> rs[i := f (rs ! i)])"
  have mm: "mm (x # rs) = (if stored_id x = key then f x # rs else x # mm rs)" for x rs
    by (auto simp: mm_def split: option.split)
  have "find (\<lambda>r. stored_id r = k) (mm rs) =
        (if k = key then map_option f (find (\<lambda>r. stored_id r = k) rs)
         else find (\<lambda>r. stored_id r = k) rs)" for rs
    by (induction rs) (auto simp: mm assms, simp_all add: mm_def)
  moreover have "sessions (registry_modify key f reg) = mm (sessions reg)"
    by (auto simp: registry_modify_def mm_def split: option.split)
  ultimately show ?thesis by (simp add: registry_get_def)
qed

lemma stored_id_touch [simp]: "stored_id (touch_record seq epoch r) = stored_id r"
  by (simp add: touch_record_def Let_def)

lemma touch_record_fields [simp]:
  "last_seen_seq (touch_record seq epoch r) = max (last_seen_seq r) seq"
  "rec_epoch (touch_record seq epoch r) = (if epoch = '''' then rec_epoch r else epoch)"
  "rec_cols (touch_record seq epoch r) = rec_cols r"
  "rec_title (touch_record seq epoch r) = rec_title r"
  "rec_profile (touch_record seq epoch r) = rec_profile r"
  by (auto simp: touch_record_def Let_def)

lemma get_touch:
  "registry_get (registry_touch key seq epoch reg) k =
     (if k = key then map_option (touch_record seq epoch) (registry_get reg k) else registry_get reg k)"
  by (simp add: registry_touch_def registry_get_modify)

lemma keys_modify:
  "(\<And>r. stored_id (f r) = stored_id r) \<Longrightarrow> registry_keys (registry_modify key f reg) = registry_keys reg"
  by (auto simp: registry_modify_def registry_keys_def map_stored_id_update split: option.split)

text \<open>A flush of several watermarks: \<open>(key, seq, epoch)\<close> one after the other.\<close>

definition touch_all :: "(string \<times> int \<times> string) list \<Rightarrow> registry \<Rightarrow> registry" where
  "touch_all ts reg = fold (\<lambda>(k, s, e). registry_touch k s e) ts reg"

text \<open>
  touching never loses a watermark: after any touches, in any order, a tab's watermark
  is the maximum of the old one and of every sequence number given for it; the set and the
  order of tabs do not change, and an unknown key has no effect.
\<close>

lemma touches_take_maximum:
  "map_option last_seen_seq (registry_get (touch_all ts reg) key) =
     map_option (\<lambda>r. fold max (map (\<lambda>(k, s, e). s) (filter (\<lambda>(k, s, e). k = key) ts)) (last_seen_seq r))
       (registry_get reg key) \<and>
   registry_keys (touch_all ts reg) = registry_keys reg"
proof (induction ts arbitrary: reg)
  case (Cons t ts)
  obtain k s e where t: "t = (k, s, e)" by (cases t)
  have "registry_keys (registry_touch k s e reg) = registry_keys reg"
    by (simp add: registry_touch_def keys_modify)
  with Cons.IH [of "registry_touch k s e reg"] show ?case
    by (cases "registry_get reg key") (auto simp: t touch_all_def get_touch max.commute)
qed (simp add: touch_all_def option.map_ident)

section \<open>Round trip\<close>

lemma record_round_trip:
  assumes "stored_id r \<noteq> ''''" "is_i64 (last_seen_seq r)" "is_i64 (rec_cols r)"
  shows "record_from_value (record_to_value r) = Some r"
proof -
  have "i64_at (record_to_value r) ''last_seen_seq'' = last_seen_seq r"
    by (rule i64_at_IntNum) (use assms in \<open>simp_all add: record_to_value_def\<close>)
  moreover have "i64_at (record_to_value r) ''cols'' = rec_cols r"
    by (rule i64_at_IntNum) (use assms in \<open>simp_all add: record_to_value_def\<close>)
  ultimately show ?thesis
    using assms by (simp add: record_from_value_def) (simp add: record_to_value_def)
qed

definition storable :: "registry \<Rightarrow> bool" where
  "storable reg \<longleftrightarrow> active_key reg \<noteq> Some '''' \<and>
     (\<forall>r \<in> set (sessions reg). stored_id r \<noteq> '''' \<and> is_i64 (last_seen_seq r) \<and> is_i64 (rec_cols r))"

lemma records_round_trip:
  "(\<forall>r \<in> set rs. stored_id r \<noteq> '''' \<and> is_i64 (last_seen_seq r) \<and> is_i64 (rec_cols r)) \<Longrightarrow>
   List.map_filter record_from_value (map record_to_value rs) = rs"
  by (induction rs) (simp_all add: List.map_filter_simps record_round_trip)

text \<open>
  A registry whose keys are not empty survives printing and parsing unchanged (tab order,
  active tab, watermarks, epochs, titles and profiles), whenever the JSON crate parses what
  it printed for that document.
\<close>

lemma registry_round_trip:
  assumes "storable reg"
    and "to_string sj (registry_to_value reg) = Some text"
    and "from_str sj text = Some (registry_to_value reg)"
  shows "registry_from_json sj (registry_to_json sj reg) = Inr reg"
proof -
  have a: "array_at (registry_to_value reg) ''sessions'' = map record_to_value (sessions reg)"
    "str_at (registry_to_value reg) ''active'' = (case active_key reg of None \<Rightarrow> '''' | Some k \<Rightarrow> k)"
    by (simp_all add: registry_to_value_def set_key_def Let_def split: option.split)
  have "registry_from_value (registry_to_value reg) = reg"
    using assms(1) records_round_trip [of "sessions reg"]
    unfolding registry_from_value_def a
    by (cases "active_key reg") (simp_all add: storable_def)
  with assms(2,3) show ?thesis
    by (simp add: registry_from_json_def registry_to_json_def to_compact_string_def)
qed

end
