(* ===== verification/Policies.thy ===== *)
theory Policies
  imports Json
begin

text \<open>
  Two pure policies: the reconnect backoff (\<open>hermes_core/src/reconnect.rs\<close>) and the
  resolution of a bot's canonical chat (\<open>hermes_core/src/bot_chat.rs\<close>).
\<close>

section \<open>Rounding to a double\<close>

text \<open>
  The double nearest to a rational \<open>0 \<le> x < 2 ^ 53\<close>, ties to even: \<open>x\<close> is scaled by the
  least power of two that gives a 53-bit integer part (or by \<open>2 ^ 1074\<close>, the subnormal
  limit), rounded and scaled back.
\<close>

function scale_from :: "rat \<Rightarrow> nat \<Rightarrow> nat" where
  "scale_from x p = (if 2 ^ 52 \<le> x * 2 ^ p \<or> 1074 \<le> p then p else scale_from x (Suc p))"
  by pat_completeness auto
termination
  by (relation "measure (\<lambda>(x, p). 1074 - p)") auto

declare scale_from.simps [simp del]

definition round_half_even :: "rat \<Rightarrow> int" where
  "round_half_even y =
     (let q = \<lfloor>y\<rfloor>; r = y - of_int q
      in if 1 / 2 < r \<or> (r = 1 / 2 \<and> odd q) then q + 1 else q)"

definition f64_round :: "rat \<Rightarrow> rat" where
  "f64_round x = (let p = scale_from x 0 in of_int (round_half_even (x * 2 ^ p)) / 2 ^ p)"

lemma round_half_even_le:
  assumes "y \<le> of_int N"
  shows "round_half_even y \<le> N"
proof -
  have q: "\<lfloor>y\<rfloor> \<le> N" using assms by linarith
  have "\<lfloor>y\<rfloor> + 1 \<le> N" if "0 < y - of_int \<lfloor>y\<rfloor>"
    using that assms by linarith
  with q show ?thesis
    unfolding round_half_even_def Let_def by (auto split: if_splits)
qed

lemma round_half_even_nonneg: "0 \<le> y \<Longrightarrow> 0 \<le> round_half_even y"
  unfolding round_half_even_def Let_def by auto

lemma f64_round_le_int:
  assumes "x \<le> of_nat n"
  shows "f64_round x \<le> of_nat n"
proof -
  define p where "p = scale_from x 0"
  have "x * 2 ^ p \<le> of_int (int n * 2 ^ p)" using assms by simp
  then have "round_half_even (x * 2 ^ p) \<le> int n * 2 ^ p" by (rule round_half_even_le)
  then have "(of_int (round_half_even (x * 2 ^ p)) :: rat) \<le> of_int (int n * 2 ^ p)"
    by (simp only: of_int_le_iff)
  then show ?thesis by (simp add: f64_round_def p_def [symmetric] Let_def pos_divide_le_eq)
qed

lemma f64_round_nonneg: "0 \<le> x \<Longrightarrow> 0 \<le> f64_round x"
  by (simp add: f64_round_def Let_def round_half_even_nonneg)

text \<open>The scale is the least sufficient one, so rounding is monotone.\<close>

lemma scale_from_spec:
  "k \<le> scale_from x k \<and> (2 ^ 52 \<le> x * 2 ^ scale_from x k \<or> 1074 \<le> scale_from x k) \<and>
   (\<forall>q. k \<le> q \<longrightarrow> q < scale_from x k \<longrightarrow> x * 2 ^ q < 2 ^ 52 \<and> q < 1074)"
proof (induction x k rule: scale_from.induct)
  case (1 x p)
  show ?case
  proof (cases "2 ^ 52 \<le> x * 2 ^ p \<or> 1074 \<le> p")
    case True
    then show ?thesis by (auto simp: scale_from.simps [of x p])
  next
    case False
    with 1 have IH: "Suc p \<le> scale_from x (Suc p)"
      "2 ^ 52 \<le> x * 2 ^ scale_from x (Suc p) \<or> 1074 \<le> scale_from x (Suc p)"
      "\<forall>q. Suc p \<le> q \<longrightarrow> q < scale_from x (Suc p) \<longrightarrow> x * 2 ^ q < 2 ^ 52 \<and> q < 1074"
      by auto
    have eq: "scale_from x p = scale_from x (Suc p)" using False by (simp add: scale_from.simps [of x p])
    have "x * 2 ^ q < 2 ^ 52 \<and> q < 1074" if "p \<le> q" "q < scale_from x p" for q
      using that IH(3) False eq by (cases "q = p") auto
    with IH(1,2) eq show ?thesis by auto
  qed
qed

lemma round_half_even_ge: "of_int N \<le> y \<Longrightarrow> N \<le> round_half_even y"
proof -
  assume "of_int N \<le> y"
  then have "N \<le> \<lfloor>y\<rfloor>" by (simp add: le_floor_iff)
  then show ?thesis unfolding round_half_even_def Let_def by auto
qed

lemma round_finer_le:
  assumes "x * 2 ^ q \<le> of_int N" and "q \<le> p"
  shows "of_int (round_half_even (x * 2 ^ p)) / 2 ^ p \<le> (of_int N / 2 ^ q :: rat)"
proof -
  obtain d where p: "p = q + d" using assms(2) le_Suc_ex by blast
  have "x * 2 ^ p \<le> of_int (N * 2 ^ d)"
    using mult_right_mono [OF assms(1), of "2 ^ d"] by (simp add: p power_add mult_ac)
  then have "round_half_even (x * 2 ^ p) \<le> N * 2 ^ d" by (rule round_half_even_le)
  then have "(of_int (round_half_even (x * 2 ^ p)) :: rat) \<le> of_int (N * 2 ^ d)"
    by (simp only: of_int_le_iff)
  then show ?thesis by (simp add: p power_add field_simps)
qed

lemma round_coarser_ge:
  assumes "of_int N \<le> y * 2 ^ q"
  shows "(of_int N / 2 ^ q :: rat) \<le> of_int (round_half_even (y * 2 ^ q)) / 2 ^ q"
  using round_half_even_ge [OF assms] by (simp add: divide_right_mono)

lemma round_half_even_mono:
  assumes "x \<le> y"
  shows "round_half_even x \<le> round_half_even y"
proof (cases "\<lfloor>x\<rfloor> = \<lfloor>y\<rfloor>")
  case True
  with assms show ?thesis unfolding round_half_even_def Let_def by auto
next
  case False
  with assms have "\<lfloor>x\<rfloor> + 1 \<le> \<lfloor>y\<rfloor>" using floor_mono [OF assms] by linarith
  then show ?thesis unfolding round_half_even_def Let_def by auto
qed

lemma f64_round_mono:
  assumes "0 \<le> x" and "x \<le> y"
  shows "f64_round x \<le> f64_round y"
proof -
  define p where "p = scale_from x 0"
  define q where "q = scale_from y 0"
  note p = scale_from_spec [of 0 x, folded p_def] and q = scale_from_spec [of 0 y, folded q_def]
  have le: "x * 2 ^ n \<le> y * 2 ^ n" for n :: nat using assms(2) by (simp add: mult_right_mono)
  have "q \<le> p"
  proof (rule ccontr)
    assume "\<not> q \<le> p"
    then have "y * 2 ^ p < 2 ^ 52" "p < 1074" using q by auto
    with p le [of p] show False by linarith
  qed
  then consider "p = q" | "q < p" by linarith
  then show ?thesis
  proof cases
    case 1
    with round_half_even_mono [OF le [of p]] show ?thesis
      by (simp add: f64_round_def Let_def p_def [symmetric] q_def [symmetric] divide_right_mono)
  next
    case 2
    then have x: "x * 2 ^ q < 2 ^ 52" and "q < 1074" using p by auto
    then have y: "2 ^ 52 \<le> y * 2 ^ q" using q by linarith
    have "f64_round x \<le> of_int (2 ^ 52) / 2 ^ q"
      unfolding f64_round_def Let_def p_def [symmetric]
      by (rule round_finer_le) (use x 2 in simp_all)
    also have "\<dots> \<le> f64_round y"
      unfolding f64_round_def Let_def q_def [symmetric]
      by (rule round_coarser_ge) (use y in simp)
    finally show ?thesis .
  qed
qed

section \<open>Reconnect backoff\<close>

definition backoff_ms :: "nat list" where
  "backoff_ms = [1000, 2000, 4000, 8000, 15000]"

definition delay_for_attempt :: "nat \<Rightarrow> nat" where
  "delay_for_attempt attempt = backoff_ms ! min attempt (length backoff_ms - 1)"

text \<open>The double that the literal \<open>0.2\<close> denotes.\<close>

definition f64_point_two :: rat where
  "f64_point_two = 3602879701896397 / 2 ^ 54"

definition clamp01 :: "rat \<Rightarrow> rat" where
  "clamp01 j = (if j < 0 then 0 else if 1 < j then 1 else j)"

definition jittered_delay :: "nat \<Rightarrow> rat \<Rightarrow> nat" where
  "jittered_delay attempt jitter =
     (let base = delay_for_attempt attempt; factor = clamp01 jitter
      in base + nat \<lfloor>f64_round (f64_round (of_nat base * f64_point_two) * factor)\<rfloor>)"

lemma delay_cases:
  "delay_for_attempt n =
     (if n = 0 then 1000 else if n = 1 then 2000 else if n = 2 then 4000 else if n = 3 then 8000
      else 15000)"
proof -
  consider "n = 0" | "n = 1" | "n = 2" | "n = 3" | "4 \<le> n" by linarith
  then show ?thesis
    by cases (simp_all add: delay_for_attempt_def backoff_ms_def min_def)
qed

lemma scale_from_eq:
  assumes "2 ^ 52 \<le> x * 2 ^ p" and "\<And>q. q < p \<Longrightarrow> \<not> 2 ^ 52 \<le> x * 2 ^ q" and "p \<le> 1074" and "k \<le> p"
  shows "scale_from x k = p"
  using assms(4)
proof (induction "p - k" arbitrary: k)
  case 0
  with assms(1) show ?case by (simp add: scale_from.simps [of x k])
next
  case (Suc n)
  then have "scale_from x (Suc k) = p" by simp
  with Suc assms(2) [of k] assms(3) show ?case by (simp add: scale_from.simps [of x k])
qed

lemma scale_from_Suc:
  assumes "2 ^ 52 \<le> x * 2 ^ Suc p" and "x * 2 ^ p < 2 ^ 52" and "Suc p \<le> 1074" and "0 \<le> x"
  shows "scale_from x 0 = Suc p"
proof (rule scale_from_eq)
  show "\<not> 2 ^ 52 \<le> x * 2 ^ q" if "q < Suc p" for q
  proof -
    have "x * 2 ^ q \<le> x * 2 ^ p" using that assms(4) by (simp add: mult_left_mono)
    with assms(2) show ?thesis by linarith
  qed
qed (use assms in simp_all)

lemma fifth_of_delays:
  "f64_round (1000 * f64_point_two) = 200" "f64_round (2000 * f64_point_two) = 400"
  "f64_round (4000 * f64_point_two) = 800" "f64_round (8000 * f64_point_two) = 1600"
  "f64_round (15000 * f64_point_two) = 3000"
proof -
  have "scale_from (1000 * f64_point_two) 0 = Suc 44" "scale_from (2000 * f64_point_two) 0 = Suc 43"
    "scale_from (4000 * f64_point_two) 0 = Suc 42" "scale_from (8000 * f64_point_two) 0 = Suc 41"
    "scale_from (15000 * f64_point_two) 0 = Suc 40"
    by (rule scale_from_Suc; simp add: f64_point_two_def)+
  moreover have "\<lfloor>450359962737049625 / 64 :: rat\<rfloor> = 7036874417766400"
    "\<lfloor>6755399441055744375 / 1024 :: rat\<rfloor> = 6597069766656000"
    by (simp_all add: floor_eq_iff)
  ultimately show "f64_round (1000 * f64_point_two) = 200" "f64_round (2000 * f64_point_two) = 400"
    "f64_round (4000 * f64_point_two) = 800" "f64_round (8000 * f64_point_two) = 1600"
    "f64_round (15000 * f64_point_two) = 3000"
    unfolding f64_round_def Let_def
    by (simp_all add: f64_point_two_def round_half_even_def Let_def)
qed

lemma fifth_of_delay: "f64_round (of_nat (delay_for_attempt n) * f64_point_two) = of_nat (delay_for_attempt n div 5)"
  using fifth_of_delays by (simp add: delay_cases)

lemma clamp01_range: "0 \<le> clamp01 j" "clamp01 j \<le> 1"
  by (simp_all add: clamp01_def)

text \<open>
  C37: the backoff schedule never shrinks from one attempt to the next and never passes 15
  seconds; and for any jitter factor, clamped or not, the delay lies between the base delay
  and 20% above it, in the code's double arithmetic.
\<close>

theorem backoff_bounds:
  "delay_for_attempt n \<le> delay_for_attempt (Suc n) \<and> delay_for_attempt n \<le> 15000 \<and>
   delay_for_attempt n \<le> jittered_delay n j \<and>
   jittered_delay n j \<le> delay_for_attempt n + delay_for_attempt n div 5"
proof -
  have "f64_round (of_nat (delay_for_attempt n div 5) * clamp01 j) \<le> of_nat (delay_for_attempt n div 5)"
    by (rule f64_round_le_int) (use clamp01_range [of j] in \<open>simp add: mult_left_le\<close>)
  then have "nat \<lfloor>f64_round (of_nat (delay_for_attempt n div 5) * clamp01 j)\<rfloor> \<le> delay_for_attempt n div 5"
    by (metis floor_mono floor_of_nat nat_int nat_mono)
  then show ?thesis
    unfolding jittered_delay_def Let_def fifth_of_delay by (simp add: delay_cases)
qed

lemma f64_round_of_nat [simp]: "f64_round (of_nat n) = of_nat n"
proof -
  have "round_half_even (of_nat n * 2 ^ p) = int n * 2 ^ p" for p
  proof -
    have "(of_nat n * 2 ^ p :: rat) = of_int (int n * 2 ^ p)" by simp
    then show ?thesis unfolding round_half_even_def Let_def by (simp only: floor_of_int) simp
  qed
  then show ?thesis by (simp add: f64_round_def Let_def)
qed

lemma jittered_delay_exact:
  assumes "of_nat (delay_for_attempt n div 5) * clamp01 j = of_nat m"
  shows "jittered_delay n j = delay_for_attempt n + m"
  unfolding jittered_delay_def Let_def fifth_of_delay assms by simp

text \<open>A larger jitter factor never yields a smaller delay.\<close>

lemma jittered_delay_mono:
  assumes "j \<le> k"
  shows "jittered_delay n j \<le> jittered_delay n k"
proof -
  have "clamp01 j \<le> clamp01 k" using assms by (auto simp: clamp01_def)
  then have "f64_round (of_nat (delay_for_attempt n div 5) * clamp01 j)
      \<le> f64_round (of_nat (delay_for_attempt n div 5) * clamp01 k)"
    by (intro f64_round_mono mult_left_mono mult_nonneg_nonneg) (simp_all add: clamp01_range)
  then show ?thesis
    unfolding jittered_delay_def Let_def fifth_of_delay by (simp add: floor_mono nat_mono)
qed

section \<open>The canonical bot chat\<close>

definition bot_chat_title :: string where
  "bot_chat_title = ''Bot Chat''"

datatype bot_chat_resolution = Resume_Chat string | Create_Chat

text \<open>Rows are pairs of title and durable id, in server order.\<close>

fun resolve_bot_chat :: "(string \<times> string) list \<Rightarrow> bot_chat_resolution" where
  "resolve_bot_chat [] = Create_Chat"
| "resolve_bot_chat ((title, i) # rows) =
     (if title = bot_chat_title \<and> i \<noteq> '''' then Resume_Chat i else resolve_bot_chat rows)"

text \<open>
  a chat is created only when no resumable row has exactly the canonical title, and
  otherwise the one resumed is the first such row in server order.
\<close>

lemma resolve_bot_chat_first:
  "(resolve_bot_chat rows = Create_Chat \<longleftrightarrow> filter (\<lambda>(t, i). t = bot_chat_title \<and> i \<noteq> '''') rows = []) \<and>
   (resolve_bot_chat rows = Resume_Chat k \<longleftrightarrow>
      (\<exists>rest. filter (\<lambda>(t, i). t = bot_chat_title \<and> i \<noteq> '''') rows = (bot_chat_title, k) # rest))"
  by (induction rows rule: resolve_bot_chat.induct) auto

lemma resolve_bot_chat_id_nonempty: "resolve_bot_chat rows = Resume_Chat k \<Longrightarrow> k \<noteq> ''''"
  by (induction rows rule: resolve_bot_chat.induct) (auto split: if_splits)

end
