(* ===== verification/Api.thy ===== *)
theory Api
  imports Core_Error
begin

text \<open>
  The typed RPC wrappers: \<open>hermes_core/src/rpc/api.rs\<close>. A wrapper builds the parameters,
  makes one call and parses the result. The call itself (\<open>GatewayClient::call\<close>, awaited)
  is an argument: it may change the caller's world \<open>'w\<close>, which is how everything that
  happens while the call is in flight enters the model.
\<close>

section \<open>Calls\<close>

type_synonym 'w caller = "string \<Rightarrow> json \<Rightarrow> 'w \<Rightarrow> (client_error + json) \<times> 'w"

type_synonym ('w, 'a) rpc_result = "(client_error + 'a) \<times> 'w"

definition call_and_parse ::
  "'w caller \<Rightarrow> string \<Rightarrow> json \<Rightarrow> (json \<Rightarrow> 'a) \<Rightarrow> 'w \<Rightarrow> ('w, 'a) rpc_result" where
  "call_and_parse call meth params parse w =
     (case call meth params w of
        (Inl e, w') \<Rightarrow> (Inl e, w')
      | (Inr v, w') \<Rightarrow> (Inr (parse v), w'))"

text \<open>\<open>option.filter(|s| !s.is_empty())\<close> and the conditional insertion of a key.\<close>

definition non_empty :: "string option \<Rightarrow> string option" where
  "non_empty x = (case x of Some s \<Rightarrow> (if s = '''' then None else Some s) | None \<Rightarrow> None)"

definition set_opt :: "string \<Rightarrow> string option \<Rightarrow> json \<Rightarrow> json" where
  "set_opt k x params = (case x of None \<Rightarrow> params | Some s \<Rightarrow> set_key k (JStr s) params)"

section \<open>Results\<close>

record created_session =
  cs_session_id :: string
  cs_stored_session_id :: string
  cs_message_count :: int
  cs_profile_name :: string

definition profile_of_info :: "json \<Rightarrow> string" where
  "profile_of_info value = str_at (unwrap_or JNull (get_key value ''info'')) ''profile_name''"

definition created_from_value :: "json \<Rightarrow> created_session" where
  "created_from_value value =
     \<lparr>cs_session_id = str_at value ''session_id'',
      cs_stored_session_id = str_at value ''stored_session_id'',
      cs_message_count = i64_at value ''message_count'', cs_profile_name = profile_of_info value\<rparr>"

record session_entry =
  se_id :: string
  se_resolved_id :: string
  se_title :: string
  se_preview :: string
  se_started_at :: string
  se_message_count :: int
  se_source :: string

definition session_entry_from_value :: "json \<Rightarrow> session_entry" where
  "session_entry_from_value s =
     \<lparr>se_id = str_at s ''id'', se_resolved_id = str_at s ''resolved_id'', se_title = str_at s ''title'',
      se_preview = str_at s ''preview'', se_started_at = str_at s ''started_at'',
      se_message_count = i64_at s ''message_count'', se_source = str_at s ''source''\<rparr>"

record resumed_session =
  rs_session_id :: string
  rs_resumed :: bool
  rs_message_count :: int
  rs_messages :: "json list"
  rs_running :: bool
  rs_inflight :: bool
  rs_profile_name :: string

definition resumed_from_value :: "json \<Rightarrow> resumed_session" where
  "resumed_from_value value =
     \<lparr>rs_session_id = str_at value ''session_id'', rs_resumed = bool_at value ''resumed'',
      rs_message_count = i64_at value ''message_count'', rs_messages = array_at value ''messages'',
      rs_running = bool_at value ''running'', rs_inflight = bool_at value ''inflight'',
      rs_profile_name = profile_of_info value\<rparr>"

datatype submit_status = Streaming | Redirected | Other_Status

definition submit_status_parse :: "json \<Rightarrow> submit_status" where
  "submit_status_parse value =
     (if str_at value ''status'' = ''streaming'' then Streaming
      else if str_at value ''status'' = ''redirected'' then Redirected
      else Other_Status)"

record clarify_ack =
  ack_status :: string
  ack_remaining :: "string list"

definition clarify_ack_from_value :: "json \<Rightarrow> clarify_ack" where
  "clarify_ack_from_value value =
     \<lparr>ack_status = str_at value ''status'',
      ack_remaining = map (\<lambda>v. unwrap_or '''' (as_str v)) (array_at value ''remaining'')\<rparr>"

datatype dispatch_outcome =
    Outcome_Output string
  | Outcome_Alias string
  | Outcome_Skill string string string
  | Outcome_Send string
  | Outcome_Prefill string
  | Outcome_Unknown

definition dispatch_outcome_from_value :: "json \<Rightarrow> dispatch_outcome" where
  "dispatch_outcome_from_value value =
     (let ty = str_at value ''type''
      in if ty = ''exec'' \<or> ty = ''plugin'' then Outcome_Output (str_at value ''output'')
         else if ty = ''alias'' then Outcome_Alias (str_at value ''target'')
         else if ty = ''skill''
         then Outcome_Skill (str_at value ''name'') (str_at value ''message'') (str_at value ''display'')
         else if ty = ''send'' then Outcome_Send (str_at value ''message'')
         else if ty = ''prefill'' then Outcome_Prefill (str_at value ''message'')
         else Outcome_Unknown)"

record slash_completion_item =
  sci_display :: string
  sci_text :: string
  sci_kind :: string
  sci_meta :: string

record slash_completions =
  sc_items :: "slash_completion_item list"
  sc_replace_from :: int

definition completions_from_value :: "json \<Rightarrow> slash_completions" where
  "completions_from_value result =
     \<lparr>sc_items =
        map (\<lambda>i. \<lparr>sci_display = str_at i ''display'', sci_text = str_at i ''text'',
                  sci_kind = str_at i ''kind'', sci_meta = str_at i ''meta''\<rparr>)
          (array_at result ''items''),
      sc_replace_from =
        (case get_key result ''replace_from'' of
           Some (JNum _) \<Rightarrow> i64_at result ''replace_from''
         | _ \<Rightarrow> - 1)\<rparr>"

record replayed_event =
  re_event_type :: string
  re_session_id :: string
  re_seq :: int
  re_payload :: json

record events_since =
  es_events :: "replayed_event list"
  es_latest_seq :: int
  es_truncated :: bool
  es_epoch :: string

definition replayed_from_value :: "json \<Rightarrow> replayed_event" where
  "replayed_from_value e =
     \<lparr>re_event_type = str_at e ''type'', re_session_id = str_at e ''session_id'',
      re_seq = i64_at e ''seq'', re_payload = unwrap_or JNull (get_key e ''payload'')\<rparr>"

definition events_since_from_value :: "json \<Rightarrow> events_since" where
  "events_since_from_value result =
     \<lparr>es_events = map replayed_from_value (array_at result ''events''),
      es_latest_seq = i64_at result ''latest_seq'', es_truncated = bool_at result ''truncated'',
      es_epoch = str_at result ''epoch''\<rparr>"

record session_title_result =
  st_title :: string
  st_pending :: bool

definition session_title_from_value :: "json \<Rightarrow> session_title_result" where
  "session_title_from_value value =
     \<lparr>st_title = unwrap_or '''' (as_str (unwrap_or JNull (get_key value ''title''))),
      st_pending = unwrap_or False (as_bool (unwrap_or JNull (get_key value ''pending'')))\<rparr>"

section \<open>Parameters and wrappers\<close>

definition create_params :: "int \<Rightarrow> string option \<Rightarrow> string option \<Rightarrow> json" where
  "create_params cols profile title =
     set_opt ''title'' (non_empty title)
       (set_opt ''profile'' (non_empty profile) (JObj [(''cols'', JNum (IntNum cols))]))"

definition create_session ::
  "'w caller \<Rightarrow> int \<Rightarrow> string option \<Rightarrow> string option \<Rightarrow> 'w \<Rightarrow> ('w, created_session) rpc_result" where
  "create_session call cols profile title =
     call_and_parse call ''session.create'' (create_params cols profile title) created_from_value"

definition list_params :: "int \<Rightarrow> bool \<Rightarrow> string option \<Rightarrow> string option \<Rightarrow> json" where
  "list_params limit include_hidden title profile =
     set_opt ''profile'' (non_empty profile)
       (set_opt ''title'' (non_empty title)
         (if include_hidden
          then set_key ''include_hidden'' (JBool True) (JObj [(''limit'', JNum (IntNum limit))])
          else JObj [(''limit'', JNum (IntNum limit))]))"

definition list_sessions ::
  "'w caller \<Rightarrow> int \<Rightarrow> bool \<Rightarrow> string option \<Rightarrow> string option \<Rightarrow> 'w
     \<Rightarrow> ('w, session_entry list) rpc_result" where
  "list_sessions call limit include_hidden title profile =
     call_and_parse call ''session.list'' (list_params limit include_hidden title profile)
       (\<lambda>result. map session_entry_from_value (array_at result ''sessions''))"

definition resume_params :: "string \<Rightarrow> string option \<Rightarrow> json" where
  "resume_params sid profile =
     set_opt ''profile'' (non_empty profile) (JObj [(''session_id'', JStr sid)])"

definition resume_session ::
  "'w caller \<Rightarrow> string \<Rightarrow> string option \<Rightarrow> 'w \<Rightarrow> ('w, resumed_session) rpc_result" where
  "resume_session call sid profile =
     call_and_parse call ''session.resume'' (resume_params sid profile) resumed_from_value"

definition session_title ::
  "'w caller \<Rightarrow> string \<Rightarrow> string option \<Rightarrow> 'w \<Rightarrow> ('w, session_title_result) rpc_result" where
  "session_title call sid title =
     call_and_parse call ''session.title'' (set_opt ''title'' title (JObj [(''session_id'', JStr sid)]))
       session_title_from_value"

definition api_submit :: "'w caller \<Rightarrow> string \<Rightarrow> string \<Rightarrow> 'w \<Rightarrow> ('w, submit_status) rpc_result" where
  "api_submit call sid text =
     call_and_parse call ''prompt.submit'' (JObj [(''session_id'', JStr sid), (''text'', JStr text)])
       submit_status_parse"

definition api_interrupt :: "'w caller \<Rightarrow> string \<Rightarrow> 'w \<Rightarrow> ('w, json) rpc_result" where
  "api_interrupt call sid = call ''session.interrupt'' (JObj [(''session_id'', JStr sid)])"

definition api_respond_approval ::
  "'w caller \<Rightarrow> string \<Rightarrow> string \<Rightarrow> string \<Rightarrow> 'w \<Rightarrow> ('w, json) rpc_result" where
  "api_respond_approval call sid rid choice =
     call ''approval.respond''
       (JObj [(''session_id'', JStr sid), (''request_id'', JStr rid), (''choice'', JStr choice)])"

definition api_respond_clarify ::
  "'w caller \<Rightarrow> string \<Rightarrow> string \<Rightarrow> string \<Rightarrow> string option \<Rightarrow> 'w \<Rightarrow> ('w, clarify_ack) rpc_result" where
  "api_respond_clarify call sid rid answer question_id =
     call_and_parse call ''clarify.respond''
       (set_opt ''question_id'' question_id
         (JObj [(''session_id'', JStr sid), (''request_id'', JStr rid), (''answer'', JStr answer)]))
       clarify_ack_from_value"

definition pending_approvals :: "'w caller \<Rightarrow> string \<Rightarrow> 'w \<Rightarrow> ('w, json) rpc_result" where
  "pending_approvals call sid = call ''approval.pending'' (JObj [(''session_id'', JStr sid)])"

definition slash_exec :: "'w caller \<Rightarrow> string \<Rightarrow> string \<Rightarrow> 'w \<Rightarrow> ('w, json) rpc_result" where
  "slash_exec call sid command =
     call ''slash.exec'' (JObj [(''session_id'', JStr sid), (''command'', JStr command)])"

definition command_dispatch ::
  "'w caller \<Rightarrow> string \<Rightarrow> string \<Rightarrow> string \<Rightarrow> 'w \<Rightarrow> ('w, dispatch_outcome) rpc_result" where
  "command_dispatch call sid name arg =
     call_and_parse call ''command.dispatch''
       (JObj [(''session_id'', JStr sid), (''name'', JStr name), (''arg'', JStr arg)])
       dispatch_outcome_from_value"

definition api_complete_slash :: "'w caller \<Rightarrow> string \<Rightarrow> 'w \<Rightarrow> ('w, slash_completions) rpc_result" where
  "api_complete_slash call text =
     call_and_parse call ''complete.slash'' (JObj [(''text'', JStr text)]) completions_from_value"

definition api_events_since :: "'w caller \<Rightarrow> string \<Rightarrow> int \<Rightarrow> 'w \<Rightarrow> ('w, events_since) rpc_result" where
  "api_events_since call sid last_seen =
     call_and_parse call ''session.events.since''
       (JObj [(''session_id'', JStr sid), (''last_seen'', JNum (IntNum last_seen))])
       events_since_from_value"

section \<open>Lemmas\<close>

lemma call_and_parse_Inr:
  "call meth params w = (Inr v, w') \<Longrightarrow> call_and_parse call meth params parse w = (Inr (parse v), w')"
  by (simp add: call_and_parse_def)

lemma call_and_parse_Inl:
  "call meth params w = (Inl e, w') \<Longrightarrow> call_and_parse call meth params parse w = (Inl e, w')"
  by (simp add: call_and_parse_def)

lemma call_and_parse_world [simp]: "snd (call_and_parse call meth params parse w) = snd (call meth params w)"
  by (simp add: call_and_parse_def split: prod.split sum.split)

lemma get_key_set_key: "is_object j \<Longrightarrow> get_key (set_key k v j) k' = (if k' = k then Some v else get_key j k')"
  by (cases j) (simp_all add: set_key_def)

lemma is_object_set_key [simp]: "is_object (set_key k v j) = is_object j"
  by (cases j) (simp_all add: set_key_def)

lemma is_object_set_opt [simp]: "is_object (set_opt k x j) = is_object j"
  by (simp add: set_opt_def split: option.split)

lemma get_key_set_opt:
  "is_object j \<Longrightarrow>
   get_key (set_opt k x j) k' =
     (if k' = k then (case x of None \<Rightarrow> get_key j k | Some s \<Rightarrow> Some (JStr s)) else get_key j k')"
  by (simp add: set_opt_def get_key_set_key split: option.split)

text \<open>
  The optional parameters of create, list and resume are on the wire exactly when they
  are given and not empty, with the given value, and a bare call carries only its one
  mandatory key.
\<close>

lemma optional_keys_omitted:
  "get_key (create_params cols profile title) ''profile'' = map_option JStr (non_empty profile) \<and>
   get_key (create_params cols profile title) ''title'' = map_option JStr (non_empty title) \<and>
   get_key (resume_params sid profile) ''profile'' = map_option JStr (non_empty profile) \<and>
   get_key (list_params limit hid title profile) ''profile'' = map_option JStr (non_empty profile) \<and>
   get_key (list_params limit hid title profile) ''title'' = map_option JStr (non_empty title) \<and>
   get_key (list_params limit hid title profile) ''include_hidden'' = (if hid then Some (JBool True) else None) \<and>
   create_params cols None (Some '''') = JObj [(''cols'', JNum (IntNum cols))] \<and>
   list_params limit False None None = JObj [(''limit'', JNum (IntNum limit))] \<and>
   resume_params sid (Some '''') = JObj [(''session_id'', JStr sid)]"
  by (auto simp: create_params_def list_params_def resume_params_def get_key_set_opt get_key_set_key
      set_opt_def non_empty_def set_key_def split: option.split)

end
