(* ===== verification/Slash.thy ===== *)
theory Slash
  imports Api
begin

text \<open>
  The try-then-fallback policy between \<open>slash.exec\<close> and \<open>command.dispatch\<close>:
  \<open>hermes_core/src/rpc/slash.rs\<close>.
\<close>

definition max_alias_hops :: nat where
  "max_alias_hops = 8"

definition alias_loop_code :: int where
  "alias_loop_code = 4091"

datatype slash_plan =
    Plan_Output string
  | Plan_Empty
  | Plan_Dispatch string string

definition split_name_arg :: "string \<Rightarrow> string \<times> string" where
  "split_name_arg command =
     (let trimmed = trim_start_matches CHR ''/'' command
      in case split_once CHR '' '' trimmed of
           Some (name, arg) \<Rightarrow> (name, arg)
         | None \<Rightarrow> (trimmed, ''''))"

definition plan_after_slash_exec ::
  "string \<Rightarrow> client_error + json \<Rightarrow> client_error + slash_plan" where
  "plan_after_slash_exec command result =
     (case result of
        Inr value \<Rightarrow>
          (let body = str_at value ''output''; warning = str_at value ''warning''
           in Inr (Plan_Output (if warning = '''' then body else ''warning: '' @ warning @ [nl] @ body)))
      | Inl (ClientError_Rpc code detail) \<Rightarrow>
          (if code = 4004 then Inr Plan_Empty
           else if code = 4018
           then (let (name, arg) = split_name_arg command in Inr (Plan_Dispatch name arg))
           else Inl (ClientError_Rpc code detail))
      | Inl e \<Rightarrow> Inl e)"

datatype slash_dispatch =
    Do_Output string
  | Do_Prefill string
  | Do_Submit string string
  | Do_Alias string
  | Do_Unknown

fun plan_from_dispatch :: "dispatch_outcome \<Rightarrow> slash_dispatch" where
  "plan_from_dispatch (Outcome_Output text) = Do_Output text"
| "plan_from_dispatch (Outcome_Prefill text) = Do_Prefill text"
| "plan_from_dispatch (Outcome_Send message) = Do_Submit message ''''"
| "plan_from_dispatch (Outcome_Skill _ message display) = Do_Submit message display"
| "plan_from_dispatch (Outcome_Alias target) = Do_Alias target"
| "plan_from_dispatch Outcome_Unknown = Do_Unknown"

section \<open>Lemmas\<close>

lemma plan_dispatch_iff:
  "plan_after_slash_exec command res = Inr (Plan_Dispatch name arg) \<longleftrightarrow>
     (\<exists>d. res = Inl (ClientError_Rpc 4018 d)) \<and> split_name_arg command = (name, arg)"
  by (auto simp: plan_after_slash_exec_def Let_def split: sum.splits client_error.splits if_splits prod.splits)

lemma plan_error_iff:
  "plan_after_slash_exec command res = Inl e \<longleftrightarrow>
     res = Inl e \<and> (\<forall>d. e \<noteq> ClientError_Rpc 4004 d \<and> e \<noteq> ClientError_Rpc 4018 d)"
  by (auto simp: plan_after_slash_exec_def Let_def split: sum.splits client_error.splits if_splits prod.splits)

lemma trim_slashes: "trim_start_matches CHR ''/'' (CHR ''/'' # s) = trim_start_matches CHR ''/'' s"
  by (simp add: trim_start_matches_def)

text \<open>
  splitting a command that is a name without blanks, with or without leading slashes,
  and an argument gives back the name without a slash and the argument byte for byte.
\<close>

lemma split_name_arg_round_trip:
  assumes "CHR '' '' \<notin> set name" and "name \<noteq> ''''" and "hd name \<noteq> CHR ''/''"
  shows "split_name_arg (replicate n (CHR ''/'') @ name @ CHR '' '' # arg) = (name, arg) \<and>
         split_name_arg (replicate n (CHR ''/'') @ name) = (name, '''')"
proof -
  have strip: "trim_start_matches CHR ''/'' (replicate n (CHR ''/'') @ name @ t) = name @ t" for t
    using assms(2,3) by (induction n) (cases name; simp add: trim_start_matches_def)+
  have "takeWhile (\<lambda>x. x \<noteq> CHR '' '') (name @ CHR '' '' # arg) = name"
    "dropWhile (\<lambda>x. x \<noteq> CHR '' '') (name @ CHR '' '' # arg) = CHR '' '' # arg"
    using assms(1) by (induction name) auto
  then show ?thesis
    using strip [of "CHR '' '' # arg"] strip [of "[]"] assms(1)
    by (simp add: split_name_arg_def Let_def split_once_def)
qed

lemma split_name_arg_round_trip_witness:
  "split_name_arg ''/skill run it'' = (''skill'', ''run it'') \<and> split_name_arg ''/skill'' = (''skill'', '''')"
  using split_name_arg_round_trip [of "''skill''" 1 "''run it''"] by simp

end
