(* ===== verification/Endpoint.thy ===== *)
theory Endpoint
  imports Core_Error
begin

text \<open>
  The gateway endpoint and the QR payload: \<open>hermes_core/src/auth/endpoint.rs\<close>. The URL
  type is the \<^verbatim>\<open>url\<close> crate's: its operations are a record of functions
  \<^verbatim>\<open>url_api\<close>, an argument of the definitions, and what the code relies on is
  the predicate \<^verbatim>\<open>url_laws\<close>.
\<close>

section \<open>The URL operations the code calls\<close>

record 'u url_api =
  url_parse :: "string \<Rightarrow> string + 'u"
  url_scheme :: "'u \<Rightarrow> string"
  url_host_str :: "'u \<Rightarrow> string option"
  url_path :: "'u \<Rightarrow> string"
  url_query :: "'u \<Rightarrow> string option"
  url_username :: "'u \<Rightarrow> string"
  url_password :: "'u \<Rightarrow> string option"
  url_fragment :: "'u \<Rightarrow> string option"
  url_as_str :: "'u \<Rightarrow> string"
  url_set_path :: "string \<Rightarrow> 'u \<Rightarrow> 'u"
  url_set_scheme :: "string \<Rightarrow> 'u \<Rightarrow> 'u option"
  url_set_pairs :: "(string \<times> string) list \<Rightarrow> 'u \<Rightarrow> 'u"
  url_pairs :: "'u \<Rightarrow> (string \<times> string) list"
  url_clear_fragment :: "'u \<Rightarrow> 'u"
  pct_decode :: "string \<Rightarrow> string"

text \<open>
  Documented behaviour of the setters: a setter changes its component and no other one the
  code reads; between the special schemes the scheme can be set.
\<close>

definition url_laws :: "'u url_api \<Rightarrow> bool" where
  "url_laws api \<longleftrightarrow>
     (\<forall>p u. url_scheme api (url_set_path api p u) = url_scheme api u \<and>
            url_username api (url_set_path api p u) = url_username api u \<and>
            url_password api (url_set_path api p u) = url_password api u \<and>
            url_host_str api (url_set_path api p u) = url_host_str api u \<and>
            (prefix ''/'' p \<longrightarrow> url_path api (url_set_path api p u) = p)) \<and>
     (\<forall>u. url_scheme api u \<in> {''http'', ''https''} \<longrightarrow> prefix ''/'' (url_path api u)) \<and>
     (\<forall>s u. s \<in> {''ws'', ''wss''} \<longrightarrow> url_scheme api u \<in> {''http'', ''https''} \<longrightarrow>
        (\<exists>v. url_set_scheme api s u = Some v \<and> url_scheme api v = s \<and>
             url_path api v = url_path api u \<and> url_host_str api v = url_host_str api u)) \<and>
     (\<forall>ps u. url_pairs api (url_set_pairs api ps u) = ps \<and>
             url_scheme api (url_set_pairs api ps u) = url_scheme api u \<and>
             url_host_str api (url_set_pairs api ps u) = url_host_str api u \<and>
             url_path api (url_set_pairs api ps u) = url_path api u) \<and>
     (\<forall>u. url_fragment api (url_clear_fragment api u) = None \<and>
          url_pairs api (url_clear_fragment api u) = url_pairs api u \<and>
          url_scheme api (url_clear_fragment api u) = url_scheme api u \<and>
          url_host_str api (url_clear_fragment api u) = url_host_str api u \<and>
          url_path api (url_clear_fragment api u) = url_path api u)"

section \<open>Definitions\<close>

record 'u gateway_endpoint =
  base_url :: 'u
  ep_username :: string
  ep_display_name :: string

definition strip_trailing_slashes :: "'u url_api \<Rightarrow> 'u \<Rightarrow> 'u" where
  "strip_trailing_slashes api url =
     (let path = url_path api url;
          trimmed0 = trim_end_matches CHR ''/'' path;
          trimmed = (if trimmed0 = '''' then ''/'' else trimmed0)
      in if trimmed \<noteq> path then url_set_path api trimmed url else url)"

definition endpoint_new :: "'u url_api \<Rightarrow> 'u \<Rightarrow> string \<Rightarrow> string \<Rightarrow> 'u gateway_endpoint" where
  "endpoint_new api base user name =
     \<lparr>base_url = strip_trailing_slashes api base, ep_username = user, ep_display_name = name\<rparr>"

text \<open>\<open>splitn(2, '=')\<close> of a pair, with the missing value read as empty.\<close>

definition split_pair :: "string \<Rightarrow> string \<times> string" where
  "split_pair p = (case split_once CHR ''='' p of Some kv \<Rightarrow> kv | None \<Rightarrow> (p, ''''))"

definition query_fields :: "'u url_api \<Rightarrow> string \<Rightarrow> (string \<times> string) list" where
  "query_fields api query =
     map (\<lambda>p. (pct_decode api (fst (split_pair p)), pct_decode api (snd (split_pair p))))
       (split_on CHR ''&'' query)"

text \<open>The loop assigns on every match, so the last value of a key is kept.\<close>

definition last_field :: "string \<Rightarrow> (string \<times> string) list \<Rightarrow> string option" where
  "last_field k kvs = map_of (rev kvs) k"

definition parse_qr_payload :: "'u url_api \<Rightarrow> string \<Rightarrow> core_error + 'u gateway_endpoint" where
  "parse_qr_payload api payload =
     (case url_parse api (trim payload) of
        Inl _ \<Rightarrow> Inl CoreError_InvalidQr
      | Inr url \<Rightarrow>
          if url_scheme api url \<noteq> ''hermes'' then Inl CoreError_InvalidQr
          else if map_option ascii_lower (url_host_str api url) \<noteq> Some ''connect''
          then Inl CoreError_InvalidQr
          else
            (let kvs = query_fields api (unwrap_or '''' (url_query api url))
             in if last_field ''v'' kvs \<noteq> Some ''1'' then Inl CoreError_InvalidQr
                else case last_field ''url'' kvs of
                  None \<Rightarrow> Inl CoreError_InvalidQr
                | Some raw_base \<Rightarrow>
                    (case url_parse api raw_base of
                       Inl _ \<Rightarrow> Inl CoreError_InvalidQr
                     | Inr base \<Rightarrow>
                         if url_scheme api base \<noteq> ''http'' \<and> url_scheme api base \<noteq> ''https''
                         then Inl CoreError_InvalidQr
                         else if url_username api base \<noteq> '''' \<or> url_password api base \<noteq> None
                         then Inl CoreError_InvalidQr
                         else Inr (endpoint_new api base
                                     (unwrap_or '''' (last_field ''user'' kvs))
                                     (unwrap_or '''' (last_field ''name'' kvs))))))"

text \<open>\<open>set_scheme(...).expect\<close> panics where the scheme cannot be set.\<close>

definition ws_url :: "'u url_api \<Rightarrow> 'u \<Rightarrow> string \<Rightarrow> 'u panics" where
  "ws_url api base ticket =
     (let scheme = (if url_scheme api base = ''https'' then ''wss'' else ''ws'')
      in case url_set_scheme api scheme base of
           None \<Rightarrow> panic
         | Some out \<Rightarrow>
             (let path = trim_end_matches CHR ''/'' (url_path api out)
              in Some (url_clear_fragment api
                   (url_set_pairs api [(''ticket'', ticket)]
                     (url_set_path api (path @ ''/api/ws'') out)))))"

section \<open>Properties\<close>

lemma trim_end_matches_cases:
  "prefix [c] p \<Longrightarrow> trim_end_matches c p = '''' \<or> prefix [c] (trim_end_matches c p)"
proof -
  assume "prefix [c] p"
  obtain n where "p = trim_end_matches c p @ replicate n c" using trim_end_matches_prefix by blast
  with \<open>prefix [c] p\<close> show ?thesis
    by (cases "trim_end_matches c p") (auto simp: prefix_def)
qed

lemma url_laws_slash:
  "url_laws api \<Longrightarrow> url_scheme api u \<in> {''http'', ''https''} \<Longrightarrow> prefix ''/'' (url_path api u)"
  unfolding url_laws_def by blast

lemma strip_trailing_slashes_path:
  assumes "url_laws api" and "prefix ''/'' (url_path api u)"
  shows "url_path api (strip_trailing_slashes api u) =
     (if trim_end_matches CHR ''/'' (url_path api u) = '''' then ''/''
      else trim_end_matches CHR ''/'' (url_path api u))"
proof -
  have set: "prefix ''/'' p \<Longrightarrow> url_path api (url_set_path api p u) = p" for p
    using assms(1) by (simp add: url_laws_def)
  show ?thesis
    using set trim_end_matches_cases [OF assms(2)]
    by (auto simp: strip_trailing_slashes_def Let_def)
qed

lemma strip_trailing_slashes_keeps:
  assumes "url_laws api"
  shows "url_scheme api (strip_trailing_slashes api u) = url_scheme api u"
    "url_username api (strip_trailing_slashes api u) = url_username api u"
    "url_password api (strip_trailing_slashes api u) = url_password api u"
  using assms by (simp_all add: strip_trailing_slashes_def Let_def url_laws_def)

lemma parse_qr_Inr:
  assumes "parse_qr_payload api payload = Inr ep"
  obtains url raw base kvs where "url_parse api (trim payload) = Inr url"
    "url_scheme api url = ''hermes''" "kvs = query_fields api (unwrap_or '''' (url_query api url))"
    "last_field ''v'' kvs = Some ''1''" "last_field ''url'' kvs = Some raw"
    "url_parse api raw = Inr base" "url_scheme api base \<in> {''http'', ''https''}"
    "url_username api base = ''''" "url_password api base = None"
    "ep = endpoint_new api base (unwrap_or '''' (last_field ''user'' kvs))
            (unwrap_or '''' (last_field ''name'' kvs))"
  using assms unfolding parse_qr_payload_def Let_def
  by (auto split: sum.splits option.splits if_splits)


text \<open>A structural URL, for the witnesses.\<close>

record plain_url =
  pu_scheme :: string
  pu_host :: string
  pu_path :: string
  pu_query :: string
  pu_pairs :: "(string \<times> string) list"

definition plain_api :: "plain_url url_api" where
  "plain_api =
     \<lparr>url_parse = (\<lambda>s.
        if s = ''qr'' then Inr \<lparr>pu_scheme = ''hermes'', pu_host = ''connect'', pu_path = '''',
                                 pu_query = ''v=1&url=base&user=u'', pu_pairs = []\<rparr>
        else if s = ''base'' then Inr \<lparr>pu_scheme = ''https'', pu_host = ''h'', pu_path = ''agent/'',
                                        pu_query = '''', pu_pairs = []\<rparr>
        else Inl ''bad''),
      url_scheme = pu_scheme, url_host_str = (\<lambda>u. Some (pu_host u)),
      url_path = (\<lambda>u. ''/'' @ pu_path u), url_query = (\<lambda>u. Some (pu_query u)),
      url_username = (\<lambda>_. ''''), url_password = (\<lambda>_. None), url_fragment = (\<lambda>_. None),
      url_as_str = pu_host, url_set_path = (\<lambda>p u. u\<lparr>pu_path := drop 1 p\<rparr>),
      url_set_scheme = (\<lambda>s u. Some (u\<lparr>pu_scheme := s\<rparr>)),
      url_set_pairs = (\<lambda>ps u. u\<lparr>pu_pairs := ps\<rparr>), url_pairs = pu_pairs,
      url_clear_fragment = (\<lambda>u. u), pct_decode = (\<lambda>s. s)\<rparr>"

lemma plain_api_laws: "url_laws plain_api"
  by (auto simp: url_laws_def plain_api_def prefix_def)

definition plain_endpoint :: "plain_url gateway_endpoint" where
  "plain_endpoint =
     \<lparr>base_url = \<lparr>pu_scheme = ''https'', pu_host = ''h'', pu_path = ''agent'', pu_query = '''', pu_pairs = []\<rparr>,
      ep_username = ''u'', ep_display_name = ''''\<rparr>"


text \<open>
  for an http or https base the WebSocket URL never panics: the scheme is mapped, the
  host kept, the path is the base path without trailing slashes followed by
  \<open>/api/ws\<close>, the query is exactly the ticket and there is no fragment.
\<close>

lemma ws_url_shape:
  assumes "url_laws api" and "url_scheme api base \<in> {''http'', ''https''}"
  shows "\<exists>out. ws_url api base ticket = Some out \<and>
           url_scheme api out = (if url_scheme api base = ''https'' then ''wss'' else ''ws'') \<and>
           url_host_str api out = url_host_str api base \<and>
           url_path api out = trim_end_matches CHR ''/'' (url_path api base) @ ''/api/ws'' \<and>
           url_pairs api out = [(''ticket'', ticket)] \<and> url_fragment api out = None"
proof -
  define s where "s = (if url_scheme api base = ''https'' then ''wss'' else ''ws'')"
  then have "s \<in> {''ws'', ''wss''}" by simp
  with assms obtain v where v: "url_set_scheme api s base = Some v" "url_scheme api v = s"
    "url_path api v = url_path api base" "url_host_str api v = url_host_str api base"
    unfolding url_laws_def by metis
  have "prefix ''/'' (trim_end_matches CHR ''/'' (url_path api base) @ ''/api/ws'')"
    using trim_end_matches_cases [OF url_laws_slash [OF assms]] by (auto simp: prefix_def)
  with v assms(1) show ?thesis
    unfolding ws_url_def Let_def s_def [symmetric] by (simp add: url_laws_def)
qed

lemma ws_url_shape_witness:
  "\<exists>out. ws_url plain_api (base_url plain_endpoint) ''t'' = Some out \<and>
     url_path plain_api out = ''/agent/api/ws'' \<and> url_scheme plain_api out = ''wss''"
proof -
  have "url_scheme plain_api (base_url plain_endpoint) \<in> {''http'', ''https''}"
    "trim_end_matches CHR ''/'' (url_path plain_api (base_url plain_endpoint)) = ''/agent''"
    "url_scheme plain_api (base_url plain_endpoint) = ''https''"
    by code_simp+
  with ws_url_shape [OF plain_api_laws this(1), of "''t''"] show ?thesis by auto
qed

end
