(* ===== verification/Storage.thy ===== *)
theory Storage
  imports Core_Error
begin

text \<open>
  The files of the data directory and the functions of \<open>std::fs\<close> the code calls on them,
  with their failures: whether a call fails, with which text, and what a failed write leaves
  behind come from an environment.
\<close>

section \<open>Files\<close>

type_synonym files = "string \<rightharpoonup> string"

record io_env =
  read_fault :: "string \<Rightarrow> string option"
  write_fault :: "string \<Rightarrow> string option"
  torn :: "string \<Rightarrow> string option"
  rename_fault :: "string \<Rightarrow> string option"
  mkdir_fault :: "string \<Rightarrow> string option"

definition no_faults :: io_env where
  "no_faults = \<lparr>read_fault = (\<lambda>_. None), write_fault = (\<lambda>_. None), torn = (\<lambda>_. None),
                rename_fault = (\<lambda>_. None), mkdir_fault = (\<lambda>_. None)\<rparr>"

definition missing_file :: string where
  "missing_file = ''No such file or directory (os error 2)''"

text \<open>A failed write may have truncated or partly written its file.\<close>

definition fs_write :: "io_env \<Rightarrow> string \<Rightarrow> string \<Rightarrow> files \<Rightarrow> (string + unit) \<times> files" where
  "fs_write env path data fs =
     (case write_fault env path of
        Some e \<Rightarrow> (Inl e, fs(path := torn env path))
      | None \<Rightarrow> (Inr (), fs(path \<mapsto> data)))"

definition fs_read :: "io_env \<Rightarrow> string \<Rightarrow> files \<Rightarrow> string + string" where
  "fs_read env path fs =
     (case read_fault env path of
        Some e \<Rightarrow> Inl e
      | None \<Rightarrow> (case fs path of None \<Rightarrow> Inl missing_file | Some data \<Rightarrow> Inr data))"

definition fs_rename :: "io_env \<Rightarrow> string \<Rightarrow> string \<Rightarrow> files \<Rightarrow> (string + unit) \<times> files" where
  "fs_rename env src dst fs =
     (case rename_fault env dst of
        Some e \<Rightarrow> (Inl e, fs)
      | None \<Rightarrow> (case fs src of
                   None \<Rightarrow> (Inl missing_file, fs)
                 | Some data \<Rightarrow> (Inr (), (fs(dst \<mapsto> data))(src := None))))"

text \<open>\<open>data_dir.join(file)\<close>, and \<open>with_extension("json.tmp")\<close> of a \<open>.json\<close> path.\<close>

definition join_path :: "string \<Rightarrow> string \<Rightarrow> string" where
  "join_path dir file = dir @ ''/'' @ file"

definition tmp_path :: "string \<Rightarrow> string" where
  "tmp_path path = path @ ''.tmp''"

lemma tmp_path_neq [simp]: "tmp_path path \<noteq> path" "path \<noteq> tmp_path path"
  by (simp_all add: tmp_path_def)

section \<open>Write to a temporary file, then rename\<close>

text \<open>The result and every state of the files on the way, the first one included.\<close>

definition write_then_rename :: "io_env \<Rightarrow> string \<Rightarrow> string \<Rightarrow> files \<Rightarrow> (core_error + unit) \<times> files list" where
  "write_then_rename env path data fs =
     (case fs_write env (tmp_path path) data fs of
        (Inl e, fs1) \<Rightarrow> (Inl (CoreError_Io (''write '' @ tmp_path path @ '': '' @ e)), [fs, fs1])
      | (Inr _, fs1) \<Rightarrow>
          (case fs_rename env (tmp_path path) path fs1 of
             (Inl e, fs2) \<Rightarrow> (Inl (CoreError_Io (''rename '' @ path @ '': '' @ e)), [fs, fs1, fs2])
           | (Inr _, fs2) \<Rightarrow> (Inr (), [fs, fs1, fs2])))"

lemma write_then_rename_states:
  assumes "write_then_rename env path data fs = (res, states)"
  shows "\<forall>st \<in> set states. st path = fs path \<or> st path = Some data"
    and "states \<noteq> []"
    and "last states path = (if res = Inr () then Some data else fs path)"
    and "\<And>p st. p \<noteq> path \<Longrightarrow> p \<noteq> tmp_path path \<Longrightarrow> st \<in> set states \<Longrightarrow> st p = fs p"
  using assms
  by (auto simp: write_then_rename_def fs_write_def fs_rename_def
      split: option.splits prod.splits sum.splits if_splits)

end
