(* ===== verification/Auth_Client.thy ===== *)
theory Auth_Client
  imports Endpoint Storage
begin

text \<open>
  The HTTP auth client: \<open>hermes_core/src/auth/client.rs\<close>. The HTTP stack is an argument:
  a request is answered by an outcome, and may change the world \<open>'w\<close> of the caller, which
  holds the cookie jar and the files through the accessors of \<^verbatim>\<open>jar_store\<close>.
\<close>

section \<open>Routes and requests\<close>

definition ep_status :: string where "ep_status = ''/api/status''"
definition ep_login :: string where "ep_login = ''/auth/password-login''"
definition ep_ws_ticket :: string where "ep_ws_ticket = ''/api/auth/ws-ticket''"
definition ep_me :: string where "ep_me = ''/api/auth/me''"
definition ep_logout :: string where "ep_logout = ''/auth/logout''"
definition ep_profiles :: string where "ep_profiles = ''/api/profiles''"

datatype http_method = Http_Get | Http_Post

record 'u http_request =
  rq_method :: http_method
  rq_url :: 'u
  rq_body :: "json option"

text \<open>
  What the HTTP library reports: a timeout, another failure with its text, or a response
  with a status and a body that does or does not decode.
\<close>

datatype http_outcome =
    Http_Timeout
  | Http_Failed string
  | Http_Response nat "string + json"

type_synonym ('u, 'w) http_stack = "'u http_request \<Rightarrow> 'w \<Rightarrow> http_outcome \<times> 'w"

section \<open>The cookie jar on disk\<close>

definition cookie_jar_file :: string where
  "cookie_jar_file = ''cookies.json''"

text \<open>
  \<open>AuthClient::new\<close>: an existing jar must parse, a missing one is an empty store. The
  parser of the cookie library is an argument.
\<close>

definition auth_client_new ::
  "(string \<Rightarrow> string + 'jar) \<Rightarrow> 'jar \<Rightarrow> io_env \<Rightarrow> string option \<Rightarrow> files \<Rightarrow> core_error + ('jar \<times> string option)" where
  "auth_client_new parse_jar empty_jar env data_dir fs =
     (let jar_path = map_option (\<lambda>d. join_path d cookie_jar_file) data_dir;
          store =
            (case jar_path of
               None \<Rightarrow> Inr empty_jar
             | Some path \<Rightarrow>
                 if fs path = None then Inr empty_jar
                 else (case fs_read env path fs of
                         Inl e \<Rightarrow> Inl (CoreError_Io (''read '' @ path @ '': '' @ e))
                       | Inr raw \<Rightarrow>
                           (case parse_jar raw of
                              Inl e \<Rightarrow>
                                Inl (CoreError_Io (''corrupt cookie jar '' @ path @ '': '' @ e @ '' ''
                                       @ [CHR 0xE2, CHR 0x80, CHR 0x94] @ '' re-login required''))
                            | Inr jar \<Rightarrow> Inr jar)))
      in case store of
           Inl e \<Rightarrow> Inl e
         | Inr jar \<Rightarrow>
             (case data_dir of
                None \<Rightarrow> Inr (jar, jar_path)
              | Some dir \<Rightarrow>
                  (case mkdir_fault env dir of
                     Some e \<Rightarrow> Inl (CoreError_Io (''create '' @ dir @ '': '' @ e))
                   | None \<Rightarrow> Inr (jar, jar_path))))"

text \<open>
  \<open>save_jar\<close>: nothing without a path or when serializing fails; otherwise the temporary
  file is written and renamed. Failures are only logged. The result is every state of the
  files on the way.
\<close>

definition save_jar ::
  "('jar \<Rightarrow> string option) \<Rightarrow> io_env \<Rightarrow> string option \<Rightarrow> 'jar \<Rightarrow> files \<Rightarrow> files list" where
  "save_jar print_jar env jar_path jar fs =
     (case jar_path of
        None \<Rightarrow> [fs]
      | Some path \<Rightarrow>
          (case print_jar jar of
             None \<Rightarrow> [fs]
           | Some buf \<Rightarrow> snd (write_then_rename env path buf fs)))"

section \<open>Requests\<close>

text \<open>\<open>base(...)\<close>: the route under the base URL's own path.\<close>

definition route_url :: "'u url_api \<Rightarrow> string \<Rightarrow> string \<Rightarrow> core_error + 'u" where
  "route_url api base path =
     (case url_parse api base of
        Inl e \<Rightarrow> Inl (CoreError_InvalidEndpoint e)
      | Inr url \<Rightarrow>
          (let base_path = trim_end_matches CHR ''/'' (url_path api url)
           in Inr (url_set_path api (if base_path = '''' then path else base_path @ path) url)))"

definition is_success :: "nat \<Rightarrow> bool" where
  "is_success status \<longleftrightarrow> 200 \<le> status \<and> status \<le> 299"

text \<open>\<open>persist\<close> is \<open>save_jar\<close> on the world: it runs after every response, before its status is looked at.\<close>

definition http_send ::
  "('u, 'w) http_stack \<Rightarrow> ('w \<Rightarrow> 'w) \<Rightarrow> 'u http_request \<Rightarrow> error_ctx \<Rightarrow> 'w \<Rightarrow> (core_error + json) \<times> 'w" where
  "http_send http persist req ctx w =
     (case http req w of
        (Http_Timeout, w') \<Rightarrow> (Inl CoreError_Timeout, w')
      | (Http_Failed e, w') \<Rightarrow> (Inl (CoreError_Network e), w')
      | (Http_Response status body, w') \<Rightarrow>
          (let w'' = persist w'
           in if \<not> is_success status then (Inl (map_status status ctx), w'')
              else case body of
                Inl e \<Rightarrow> (Inl (CoreError_Network (''decode body: '' @ e)), w'')
              | Inr v \<Rightarrow> (Inr v, w'')))"

text \<open>Every route: build the URL, send, shape the answer.\<close>

definition auth_route ::
  "'u url_api \<Rightarrow> ('u, 'w) http_stack \<Rightarrow> ('w \<Rightarrow> 'w) \<Rightarrow> http_method \<Rightarrow> string \<Rightarrow> string \<Rightarrow> json option
     \<Rightarrow> error_ctx \<Rightarrow> (json \<Rightarrow> 'a) \<Rightarrow> 'w \<Rightarrow> (core_error + 'a) \<times> 'w" where
  "auth_route api http persist meth base path body ctx shape w =
     (case route_url api base path of
        Inl e \<Rightarrow> (Inl e, w)
      | Inr url \<Rightarrow>
          (case http_send http persist \<lparr>rq_method = meth, rq_url = url, rq_body = body\<rparr> ctx w of
             (Inl e, w') \<Rightarrow> (Inl e, w')
           | (Inr v, w') \<Rightarrow> (Inr (shape v), w')))"

record gateway_status =
  gs_auth_required :: bool
  gs_auth_providers :: "string list"

definition status_from_value :: "json \<Rightarrow> gateway_status" where
  "status_from_value value =
     \<lparr>gs_auth_required = bool_at value ''auth_required'',
      gs_auth_providers = List.map_filter as_str (array_at value ''auth_providers'')\<rparr>"

definition auth_status ::
  "'u url_api \<Rightarrow> ('u, 'w) http_stack \<Rightarrow> ('w \<Rightarrow> 'w) \<Rightarrow> string \<Rightarrow> 'w \<Rightarrow> (core_error + gateway_status) \<times> 'w" where
  "auth_status api http persist base =
     auth_route api http persist Http_Get base ep_status None Ctx_Other status_from_value"

definition login_body :: "string \<Rightarrow> string \<Rightarrow> json" where
  "login_body user password =
     JObj [(''provider'', JStr ''basic''), (''username'', JStr user),
           (''password'', JStr password), (''next'', JStr '''')]"

definition auth_login ::
  "'u url_api \<Rightarrow> ('u, 'w) http_stack \<Rightarrow> ('w \<Rightarrow> 'w) \<Rightarrow> string \<Rightarrow> string \<Rightarrow> string \<Rightarrow> 'w
     \<Rightarrow> (core_error + unit) \<times> 'w" where
  "auth_login api http persist base user password =
     auth_route api http persist Http_Post base ep_login (Some (login_body user password)) Ctx_Login
       (\<lambda>_. ())"

record ws_ticket =
  tk_ticket :: string
  tk_ttl_seconds :: int

definition mint_ticket ::
  "'u url_api \<Rightarrow> ('u, 'w) http_stack \<Rightarrow> ('w \<Rightarrow> 'w) \<Rightarrow> string \<Rightarrow> 'w \<Rightarrow> (core_error + ws_ticket) \<times> 'w" where
  "mint_ticket api http persist base =
     auth_route api http persist Http_Post base ep_ws_ticket (Some (JObj [])) Ctx_Cookie
       (\<lambda>v. \<lparr>tk_ticket = str_at v ''ticket'', tk_ttl_seconds = i64_at v ''ttl_seconds''\<rparr>)"

definition auth_me ::
  "'u url_api \<Rightarrow> ('u, 'w) http_stack \<Rightarrow> ('w \<Rightarrow> 'w) \<Rightarrow> string \<Rightarrow> 'w \<Rightarrow> (core_error + json) \<times> 'w" where
  "auth_me api http persist base =
     auth_route api http persist Http_Get base ep_me None Ctx_Cookie (\<lambda>v. v)"

record profile_dto =
  pf_name :: string
  pf_is_default :: bool
  pf_model :: string
  pf_description :: string

definition profile_from_value :: "json \<Rightarrow> profile_dto" where
  "profile_from_value p =
     \<lparr>pf_name = str_at p ''name'', pf_is_default = bool_at p ''is_default'',
      pf_model = str_at p ''model'', pf_description = str_at p ''description''\<rparr>"

definition auth_profiles ::
  "'u url_api \<Rightarrow> ('u, 'w) http_stack \<Rightarrow> ('w \<Rightarrow> 'w) \<Rightarrow> string \<Rightarrow> 'w \<Rightarrow> (core_error + profile_dto list) \<times> 'w" where
  "auth_profiles api http persist base =
     auth_route api http persist Http_Get base ep_profiles None Ctx_Cookie
       (\<lambda>v. map profile_from_value (array_at v ''profiles''))"

definition auth_logout ::
  "'u url_api \<Rightarrow> ('u, 'w) http_stack \<Rightarrow> ('w \<Rightarrow> 'w) \<Rightarrow> string \<Rightarrow> 'w \<Rightarrow> (core_error + unit) \<times> 'w" where
  "auth_logout api http persist base =
     auth_route api http persist Http_Post base ep_logout None Ctx_Cookie (\<lambda>_. ())"

section \<open>Properties\<close>

lemma auth_route_response:
  assumes "route_url api base path = Inr url"
    and "http \<lparr>rq_method = meth, rq_url = url, rq_body = body\<rparr> w = (Http_Response status reply, w')"
  shows "snd (auth_route api http persist meth base path body ctx shape w) = persist w'"
    and "\<not> is_success status \<Longrightarrow>
      fst (auth_route api http persist meth base path body ctx shape w) = Inl (map_status status ctx)"
  using assms
  by (auto simp: auth_route_def http_send_def Let_def split: sum.splits prod.splits)

text \<open>
  C40: a refusal (a status outside the 200s) becomes the error that its status and its route
  call for. A 401 means wrong credentials on the login route and an expired session on every
  other; a 404 means an unknown provider on the login route only; a 429 is the rate limit
  everywhere; any other status is reported as itself. The body of the refusal plays no part,
  and the cookie jar is persisted after the response in every case.
\<close>

theorem auth_refusal_by_route:
  assumes "\<And>req. \<exists>reply. http req w = (Http_Response status reply, w')"
    and "\<And>path. \<exists>url. route_url api base path = Inr url"
    and "status < 200 \<or> 299 < status"
  shows "auth_login api http persist base user password w =
           (Inl (if status = 401 then CoreError_InvalidCredentials
                 else if status = 404 then CoreError_UnknownProvider
                 else if status = 429 then CoreError_RateLimited
                 else CoreError_Http status), persist w') \<and>
         (let err = (if status = 401 then CoreError_SessionExpired
                     else if status = 429 then CoreError_RateLimited
                     else CoreError_Http status)
          in auth_status api http persist base w = (Inl err, persist w') \<and>
             mint_ticket api http persist base w = (Inl err, persist w') \<and>
             auth_me api http persist base w = (Inl err, persist w') \<and>
             auth_profiles api http persist base w = (Inl err, persist w') \<and>
             auth_logout api http persist base w = (Inl err, persist w'))"
proof -
  have refused: "\<not> is_success status" using assms(3) by (auto simp: is_success_def)
  have route: "auth_route api http persist meth base path body ctx shape w = (Inl (map_status status ctx), persist w')"
    for meth path body ctx and shape :: "json \<Rightarrow> 'x"
  proof -
    obtain url where url: "route_url api base path = Inr url" using assms(2) by blast
    obtain reply where reply: "http \<lparr>rq_method = meth, rq_url = url, rq_body = body\<rparr> w = (Http_Response status reply, w')"
      using assms(1) by blast
    show ?thesis
      using auth_route_response [where http = http and persist = persist and ctx = ctx and shape = shape,
          OF url reply] refused
      by (simp add: prod_eq_iff)
  qed
  show ?thesis
    by (simp add: auth_login_def auth_status_def mint_ticket_def auth_me_def auth_profiles_def
        auth_logout_def route map_status_def Let_def)
qed

definition refusing_http :: "nat \<Rightarrow> (plain_url, nat) http_stack" where
  "refusing_http status req w = (Http_Response status (Inl ''''), w + 1)"

definition base_only :: "plain_url url_api" where
  "base_only = plain_api\<lparr>url_parse := (\<lambda>_. Inr (base_url plain_endpoint))\<rparr>"

lemma auth_refusal_by_route_witness:
  "auth_login base_only (refusing_http 401) (\<lambda>w. w + 10) ''base'' ''u'' ''p'' 0 =
     (Inl CoreError_InvalidCredentials, 11) \<and>
   mint_ticket base_only (refusing_http 401) (\<lambda>w. w + 10) ''base'' 0 =
     (Inl CoreError_SessionExpired, 11) \<and>
   auth_login base_only (refusing_http 404) (\<lambda>w. w + 10) ''base'' ''u'' ''p'' 0 =
     (Inl CoreError_UnknownProvider, 11) \<and>
   auth_me base_only (refusing_http 404) (\<lambda>w. w + 10) ''base'' 0 = (Inl (CoreError_Http 404), 11)"
proof -
  have "\<exists>reply. refusing_http status req 0 = (Http_Response status reply, 1)" for status req
    by (simp add: refusing_http_def)
  moreover have "\<exists>url. route_url base_only ''base'' path = Inr url" for path
    by (simp add: route_url_def base_only_def Let_def)
  ultimately show ?thesis
    using auth_refusal_by_route [of "refusing_http 401" 0 401 1 base_only "''base''" "\<lambda>w. w + 10" "''u''" "''p''"]
      auth_refusal_by_route [of "refusing_http 404" 0 404 1 base_only "''base''" "\<lambda>w. w + 10" "''u''" "''p''"]
    by (simp add: Let_def)
qed

text \<open>
  a crash at any moment of saving the jar leaves on disk either the previous jar or the
  new one, never a part of it, and no other file but the temporary one is touched; when the
  write and the rename succeed the file holds the new jar.
\<close>

lemma save_jar_atomic:
  assumes "print_jar jar = Some buf" and "st \<in> set (save_jar print_jar env (Some path) jar fs)"
  shows "(st path = fs path \<or> st path = Some buf) \<and>
         (\<forall>p. p \<noteq> path \<and> p \<noteq> tmp_path path \<longrightarrow> st p = fs p) \<and>
         (write_fault env (tmp_path path) = None \<and> rename_fault env path = None \<longrightarrow>
            last (save_jar print_jar env (Some path) jar fs) path = Some buf)"
proof -
  obtain res states where r: "write_then_rename env path buf fs = (res, states)"
    by (cases "write_then_rename env path buf fs")
  note facts = write_then_rename_states [OF r]
  have sts: "save_jar print_jar env (Some path) jar fs = states"
    using assms(1) r by (simp add: save_jar_def)
  have "res = Inr ()" if "write_fault env (tmp_path path) = None" "rename_fault env path = None"
    using that r by (simp add: write_then_rename_def fs_write_def fs_rename_def)
  then show ?thesis
    using facts assms(2) sts by auto
qed

lemma save_jar_atomic_witness:
  "last (save_jar Some no_faults (Some ''/d/cookies.json'') ''new'' [''/d/cookies.json'' \<mapsto> ''old''])
     ''/d/cookies.json'' = Some ''new''"
  using save_jar_atomic [of Some "''new''" "''new''" "[''/d/cookies.json'' \<mapsto> ''old'']" no_faults
      "''/d/cookies.json''" "[''/d/cookies.json'' \<mapsto> ''old'']"]
  by (simp add: save_jar_def write_then_rename_def fs_write_def fs_rename_def no_faults_def)

end
