(* ===== verification/Core_State.thy ===== *)
theory Core_State
  imports Reducer_Props Registry Policies Slash Auth_Client
begin

text \<open>
  The state of the client core and its synchronous operations:
  \<open>hermes_core/src/core.rs\<close>, from the DTOs to the event fan-out.

  \<^item> A client, a sink: handles (natural numbers). What was sent to a sink is the list
    \<open>sink_calls\<close> of the state, oldest first, each with the sink it went to.
  \<^item> The flags that the code keeps beside the locked state (\<open>stop_flag\<close>,
    \<open>registry_dirty\<close>, \<open>supervising\<close>) and the files of the data directory are fields too.
  \<^item> \<open>auth\<close> records whether an auth client exists; its jar is part of the HTTP stack.
\<close>

section \<open>DTOs\<close>

datatype change_kind = Kind_RowAppended | Kind_RowUpdated | Kind_Reset | Kind_HeaderUpdated

record change_dto =
  dto_key :: string
  dto_kind :: change_kind
  dto_index :: nat
  dto_row_json :: string
  dto_title :: string

datatype connection_status =
    Conn_Connecting
  | Conn_Open
  | Conn_Closed string
  | Conn_NeedsPassword

datatype sink_call = On_Transcript change_dto | On_Connection connection_status

definition u32_max :: nat where
  "u32_max = 2 ^ 32 - 1"

text \<open>
  The \<open>Debug\<close> form of a string, byte by byte; Rust also escapes code points beyond ASCII
  that are not printable, which this leaves as they are.
\<close>

definition hex_digit :: "nat \<Rightarrow> char" where
  "hex_digit d = (if d < 10 then digit d else char_of (87 + d))"

definition debug_char :: "char \<Rightarrow> string" where
  "debug_char c =
     (let n = (of_char c :: nat)
      in if c = CHR 0x22 then [CHR 0x5C, CHR 0x22]
         else if c = CHR 0x5C then [CHR 0x5C, CHR 0x5C]
         else if n = 9 then [CHR 0x5C, CHR ''t'']
         else if n = 10 then [CHR 0x5C, CHR ''n'']
         else if n = 13 then [CHR 0x5C, CHR ''r'']
         else if n = 0 then [CHR 0x5C, CHR ''0'']
         else if n < 16 then [CHR 0x5C, CHR ''u'', CHR ''{'', hex_digit n, CHR ''}'']
         else if n < 32 \<or> n = 127
         then [CHR 0x5C, CHR ''u'', CHR ''{'', hex_digit (n div 16), hex_digit (n mod 16), CHR ''}'']
         else [c])"

definition debug_string :: "string \<Rightarrow> string" where
  "debug_string s = [CHR 0x22] @ concat (map debug_char s) @ [CHR 0x22]"

fun status_kind_debug :: "status_kind \<Rightarrow> string" where
  "status_kind_debug StatusKind_Status = ''Status''"
| "status_kind_debug StatusKind_Lifecycle = ''Lifecycle''"
| "status_kind_debug StatusKind_Compacting = ''Compacting''"
| "status_kind_debug StatusKind_Compacted = ''Compacted''"
| "status_kind_debug StatusKind_Heartbeat = ''Heartbeat''"
| "status_kind_debug (StatusKind_Other s) = ''Other('' @ debug_string s @ '')''"

definition strs :: "string list \<Rightarrow> json" where
  "strs xs = JArr (map JStr xs)"

fun row_payload :: "row_kind \<Rightarrow> json" where
  "row_payload (User t) = JObj [(''kind'', JStr ''user''), (''text'', JStr t)]"
| "row_payload (Assistant t s u w) =
     JObj [(''kind'', JStr ''assistant''), (''text'', JStr t), (''streaming'', JBool s),
           (''usage'', JStr u), (''warning'', JStr w)]"
| "row_payload (Thinking t) = JObj [(''kind'', JStr ''thinking''), (''text'', JStr t)]"
| "row_payload (Tool c) =
     JObj [(''kind'', JStr ''tool''), (''tool_id'', JStr (tool_id c)), (''name'', JStr (tool_name c)),
           (''complete'', JBool (complete c)), (''context'', JStr (tool_context c)),
           (''args'', JStr (args_json c)), (''result'', JStr (result_json c)),
           (''duration_s'', JNum (FloatNum (duration_s c)))]"
| "row_payload (Approval c) =
     JObj [(''kind'', JStr ''approval''), (''request_id'', JStr (appr_request_id c)),
           (''command'', JStr (appr_command c)), (''description'', JStr (appr_description c)),
           (''choices'', strs (appr_choices c)), (''resolved'', JBool (appr_resolved c))]"
| "row_payload (Clarify c) =
     JObj [(''kind'', JStr ''clarify''), (''request_id'', JStr (clar_request_id c)),
           (''questions'', JArr (map (\<lambda>q.
              JObj [(''qid'', JStr (qid q)), (''question'', JStr (question q)),
                    (''choices'', strs (q_choices q)), (''multi_select'', JBool (multi_select q))])
              (clar_questions c))),
           (''resolved'', JBool (clar_resolved c))]"
| "row_payload (Status k t) =
     JObj [(''kind'', JStr ''status''), (''status'', JStr (status_kind_debug k)), (''text'', JStr t)]"
| "row_payload (ErrorRow m) = JObj [(''kind'', JStr ''error''), (''message'', JStr m)]"

definition row_json :: "serde \<Rightarrow> row option \<Rightarrow> string" where
  "row_json sj row =
     (case row of None \<Rightarrow> '''' | Some r \<Rightarrow> to_compact_string sj (row_payload (kind r)))"

definition row_at :: "row list \<Rightarrow> nat \<Rightarrow> row option" where
  "row_at rs i = (if i < length rs then Some (rs ! i) else None)"

definition clamp_u32 :: "nat \<Rightarrow> nat" where
  "clamp_u32 i = (if i \<le> u32_max then i else u32_max)"

fun change_to_dto :: "serde \<Rightarrow> string \<Rightarrow> transcript_change \<Rightarrow> row list \<Rightarrow> string \<Rightarrow> change_dto" where
  "change_to_dto sj key (RowAppended i) rs title =
     \<lparr>dto_key = key, dto_kind = Kind_RowAppended, dto_index = clamp_u32 i,
      dto_row_json = row_json sj (row_at rs i), dto_title = ''''\<rparr>"
| "change_to_dto sj key (RowUpdated i) rs title =
     \<lparr>dto_key = key, dto_kind = Kind_RowUpdated, dto_index = clamp_u32 i,
      dto_row_json = row_json sj (row_at rs i), dto_title = ''''\<rparr>"
| "change_to_dto sj key Reset rs title =
     \<lparr>dto_key = key, dto_kind = Kind_Reset, dto_index = u32_max, dto_row_json = '''', dto_title = ''''\<rparr>"
| "change_to_dto sj key HeaderUpdated rs title =
     \<lparr>dto_key = key, dto_kind = Kind_HeaderUpdated, dto_index = u32_max, dto_row_json = '''', dto_title = title\<rparr>"

section \<open>State\<close>

record live_session =
  live_sid :: string
  l_reducer :: reducer
  l_last_seen :: int
  l_epoch :: nat

record 'u core =
  endpoint :: "'u gateway_endpoint option"
  auth :: bool
  client :: "nat option"
  sid_index :: "string \<rightharpoonup> string"
  chats :: "string \<rightharpoonup> live_session"
  reg :: registry
  emitted_approvals :: "string \<rightharpoonup> string list"
  sink :: "nat option"
  history_epoch :: nat
  stop_flag :: bool
  registry_dirty :: bool
  supervising :: bool
  disk :: files
  sink_calls :: "(nat \<times> sink_call) list"
  closed_clients :: "(nat \<times> string) list"

text \<open>What the core was built with: the JSON and URL crates, the file system, the data directory.\<close>

record 'u core_env =
  ce_json :: serde
  ce_url :: "'u url_api"
  ce_io :: io_env
  ce_dir :: string

definition endpoint_file :: string where "endpoint_file = ''endpoint.json''"
definition sessions_file :: string where "sessions_file = ''sessions.json''"
definition local_close_reason :: string where "local_close_reason = ''user logout''"
definition default_cols :: int where "default_cols = 80"
definition default_list_limit :: int where "default_list_limit = 200"

section \<open>Persistence\<close>

definition sessions_path :: "'u core_env \<Rightarrow> string" where
  "sessions_path env = join_path (ce_dir env) sessions_file"

definition endpoint_path :: "'u core_env \<Rightarrow> string" where
  "endpoint_path env = join_path (ce_dir env) endpoint_file"

definition load_registry :: "'u core_env \<Rightarrow> files \<Rightarrow> core_error + registry" where
  "load_registry env fs =
     (let path = sessions_path env
      in if fs path = None then Inr registry_new
         else case fs_read (ce_io env) path fs of
           Inl e \<Rightarrow> Inl (CoreError_Io (''read '' @ path @ '': '' @ e))
         | Inr raw \<Rightarrow> registry_from_json (ce_json env) raw)"

definition save_registry :: "'u core_env \<Rightarrow> registry \<Rightarrow> files \<Rightarrow> (core_error + unit) \<times> files" where
  "save_registry env r fs =
     (let (res, states) =
        write_then_rename (ce_io env) (sessions_path env) (registry_to_json (ce_json env) r) fs
      in (res, last states))"

definition endpoint_to_value :: "'u core_env \<Rightarrow> 'u gateway_endpoint \<Rightarrow> json" where
  "endpoint_to_value env ep =
     JObj [(''base_url'', JStr (url_as_str (ce_url env) (base_url ep))),
           (''username'', JStr (ep_username ep)), (''display_name'', JStr (ep_display_name ep))]"

definition load_endpoint :: "'u core_env \<Rightarrow> files \<Rightarrow> 'u gateway_endpoint option" where
  "load_endpoint env fs =
     (case fs_read (ce_io env) (endpoint_path env) fs of
        Inl _ \<Rightarrow> None
      | Inr raw \<Rightarrow>
          (case from_str (ce_json env) raw of
             None \<Rightarrow> None
           | Some v \<Rightarrow>
               (case url_parse (ce_url env) (str_at v ''base_url'') of
                  Inl _ \<Rightarrow> None
                | Inr base \<Rightarrow>
                    Some (endpoint_new (ce_url env) base (str_at v ''username'') (str_at v ''display_name'')))))"

definition save_endpoint :: "'u core_env \<Rightarrow> 'u gateway_endpoint \<Rightarrow> files \<Rightarrow> (core_error + unit) \<times> files" where
  "save_endpoint env ep fs =
     (case mkdir_fault (ce_io env) (ce_dir env) of
        Some e \<Rightarrow> (Inl (CoreError_Io (''create '' @ ce_dir env @ '': '' @ e)), fs)
      | None \<Rightarrow>
          (case fs_write (ce_io env) (endpoint_path env)
                  (to_compact_string (ce_json env) (endpoint_to_value env ep)) fs of
             (Inl e, fs') \<Rightarrow> (Inl (CoreError_Io (''write endpoint: '' @ e)), fs')
           | (Inr _, fs') \<Rightarrow> (Inr (), fs')))"

text \<open>Saving the registry and ignoring the result, as most callers do.\<close>

definition persist_registry :: "'u core_env \<Rightarrow> 'u core \<Rightarrow> 'u core" where
  "persist_registry env w = w\<lparr>disk := snd (save_registry env (reg w) (disk w))\<rparr>"

definition flush_registry :: "'u core_env \<Rightarrow> 'u core \<Rightarrow> 'u core" where
  "flush_registry env w =
     (if \<not> registry_dirty w then w
      else case save_registry env (reg w) (disk w) of
        (Inl _, fs) \<Rightarrow> w\<lparr>disk := fs, registry_dirty := True\<rparr>
      | (Inr _, fs) \<Rightarrow> w\<lparr>disk := fs, registry_dirty := False\<rparr>)"

definition core_new :: "'u core_env \<Rightarrow> bool \<Rightarrow> files \<Rightarrow> 'u core" where
  "core_new env auth_ok fs =
     \<lparr>endpoint = load_endpoint env fs, auth = auth_ok, client = None, sid_index = Map.empty,
      chats = Map.empty,
      reg = (case load_registry env fs of Inl _ \<Rightarrow> registry_new | Inr r \<Rightarrow> r),
      emitted_approvals = Map.empty, sink = None, history_epoch = 0, stop_flag = False,
      registry_dirty = False, supervising = False, disk = fs, sink_calls = [], closed_clients = []\<rparr>"

section \<open>Fan-out\<close>

definition route_key :: "'u core \<Rightarrow> string \<Rightarrow> string option" where
  "route_key w sid =
     (if sid = '''' then None
      else case sid_index w sid of
        Some key \<Rightarrow> Some key
      | None \<Rightarrow> (if chats w sid \<noteq> None then Some sid else None))"

text \<open>The result is at most one delivery: the key, the changes and the new header title.\<close>

definition route_event ::
  "serde \<Rightarrow> event_params \<Rightarrow> 'u core \<Rightarrow> ('u core \<times> (string \<times> session_change list \<times> string) list) panics" where
  "route_event sj ev w =
     (case route_key w (ev_session_id ev) of
        None \<Rightarrow> Some (w, [])
      | Some key \<Rightarrow>
          (case chats w key of
             None \<Rightarrow> Some (w, [])
           | Some live \<Rightarrow>
               (case reducer_apply sj (l_reducer live) ev of
                  None \<Rightarrow> panic
                | Some (r, changes) \<Rightarrow>
                    (let seen = (case ev_seq ev of
                                   Some s \<Rightarrow> max (l_last_seen live) s
                                 | None \<Rightarrow> l_last_seen live)
                     in Some (w\<lparr>chats := (chats w)(key \<mapsto> live\<lparr>l_reducer := r, l_last_seen := seen\<rparr>)\<rparr>,
                              [(key, changes, h_title (header (r_state r)))])))))"

text \<open>Sending a batch of changes of one key to a sink, with the rows as they are.\<close>

definition emit :: "serde \<Rightarrow> nat \<Rightarrow> string \<Rightarrow> session_change list \<Rightarrow> row list \<Rightarrow> string \<Rightarrow> 'u core \<Rightarrow> 'u core" where
  "emit sj snk key changes rs title w =
     w\<lparr>sink_calls := sink_calls w @
         map (\<lambda>c. (snk, On_Transcript (change_to_dto sj key (sc_change c) rs title))) changes\<rparr>"

definition rows_of :: "'u core \<Rightarrow> string \<Rightarrow> row list" where
  "rows_of w key = (case chats w key of None \<Rightarrow> [] | Some live \<Rightarrow> r_rows (l_reducer live))"

definition has_header_change :: "session_change list \<Rightarrow> bool" where
  "has_header_change cs \<longleftrightarrow> (\<exists>c \<in> set cs. sc_change c = HeaderUpdated)"

text \<open>What \<open>deliver_event\<close> does to the registry for one delivery.\<close>

definition note_delivery :: "event_params \<Rightarrow> string \<Rightarrow> session_change list \<Rightarrow> string \<Rightarrow> registry \<Rightarrow> registry" where
  "note_delivery ev key changes title r =
     (let r1 = (case ev_seq ev of Some s \<Rightarrow> registry_touch key s '''' r | None \<Rightarrow> r)
      in if has_header_change changes then registry_modify key (\<lambda>rec. rec\<lparr>rec_title := title\<rparr>) r1 else r1)"

definition deliver_event :: "serde \<Rightarrow> event_params \<Rightarrow> nat \<Rightarrow> 'u core \<Rightarrow> 'u core panics" where
  "deliver_event sj ev snk w =
     (case route_event sj ev w of
        None \<Rightarrow> panic
      | Some (w', []) \<Rightarrow> Some w'
      | Some (w', (key, changes, title) # _) \<Rightarrow>
          Some (emit sj snk key changes (rows_of w' key) title
                 (w'\<lparr>reg := note_delivery ev key changes title (reg w'), registry_dirty := True\<rparr>)))"

definition signal_stop :: "'u core \<Rightarrow> 'u core" where
  "signal_stop w = w\<lparr>stop_flag := True\<rparr>"

section \<open>Rebuilding and re-pointing\<close>

definition rebuild_session ::
  "serde \<Rightarrow> string \<Rightarrow> json list \<Rightarrow> string option \<Rightarrow> 'u core \<Rightarrow> 'u core \<times> change_dto list" where
  "rebuild_session sj key messages replay_epoch w =
     (let epoch = history_epoch w + 1; w1 = w\<lparr>history_epoch := epoch\<rparr>
      in case chats w key of
           None \<Rightarrow> (w1, [])
         | Some live \<Rightarrow>
             (let (r, changes) = ingest_resume_messages (l_reducer live) key messages;
                  live' = live\<lparr>l_epoch := epoch, l_reducer := r, l_last_seen := 0\<rparr>;
                  set_rec = (\<lambda>rec. (case replay_epoch of
                                       None \<Rightarrow> rec\<lparr>last_seen_seq := 0\<rparr>
                                     | Some e \<Rightarrow> rec\<lparr>last_seen_seq := 0, rec_epoch := e\<rparr>))
              in (w1\<lparr>chats := (chats w)(key \<mapsto> live'), reg := registry_modify key set_rec (reg w)\<rparr>,
                  map (\<lambda>c. change_to_dto sj key (sc_change c) (r_rows r) '''') changes)))"

definition repoint_live_sid :: "string \<Rightarrow> string \<Rightarrow> 'u core \<Rightarrow> 'u core" where
  "repoint_live_sid key new_sid w =
     (case chats w key of
        None \<Rightarrow> w
      | Some live \<Rightarrow>
          if live_sid live = new_sid then w
          else w\<lparr>sid_index := ((sid_index w)(live_sid live := None))(new_sid \<mapsto> key),
                 chats := (chats w)(key \<mapsto> live\<lparr>live_sid := new_sid\<rparr>)\<rparr>)"

definition emit_dtos :: "nat \<Rightarrow> change_dto list \<Rightarrow> 'u core \<Rightarrow> 'u core" where
  "emit_dtos snk dtos w = w\<lparr>sink_calls := sink_calls w @ map (\<lambda>d. (snk, On_Transcript d)) dtos\<rparr>"

definition emit_status :: "nat \<Rightarrow> connection_status \<Rightarrow> 'u core \<Rightarrow> 'u core" where
  "emit_status snk s w = w\<lparr>sink_calls := sink_calls w @ [(snk, On_Connection s)]\<rparr>"

end
