(* ===== verification/Core_Ops.thy ===== *)
theory Core_Ops
  imports Core_State
begin

text \<open>
  The asynchronous operations of the core (\<open>hermes_core/src/core.rs\<close>), as state-passing
  actions: an action may fail with a \<open>CoreError\<close>, or panic. Each await of an RPC is a call of
  the \<^verbatim>\<open>rpc\<close> argument, which returns the answer together with the state of the core
  as it is when the operation goes on, so that everything other tasks did meanwhile is
  covered; the code holds no lock across an await.
\<close>

section \<open>Actions\<close>

type_synonym ('w, 'a) act = "'w \<Rightarrow> ((core_error + 'a) \<times> 'w) panics"

definition act_ok :: "'a \<Rightarrow> ('w, 'a) act" where
  "act_ok a w = Some (Inr a, w)"

definition act_fail :: "core_error \<Rightarrow> ('w, 'a) act" where
  "act_fail e w = Some (Inl e, w)"

definition act_bind :: "('w, 'a) act \<Rightarrow> ('a \<Rightarrow> ('w, 'b) act) \<Rightarrow> ('w, 'b) act" where
  "act_bind m f w =
     (case m w of
        None \<Rightarrow> None
      | Some (Inl e, w') \<Rightarrow> Some (Inl e, w')
      | Some (Inr a, w') \<Rightarrow> f a w')"

text \<open>Reading the state, changing it, and changing it with an operation that can panic.\<close>

definition act_get :: "('w \<Rightarrow> 'a) \<Rightarrow> ('w, 'a) act" where
  "act_get f w = Some (Inr (f w), w)"

definition act_modify :: "('w \<Rightarrow> 'w) \<Rightarrow> ('w, unit) act" where
  "act_modify f w = Some (Inr (), f w)"

definition act_checked :: "('w \<Rightarrow> 'w panics) \<Rightarrow> ('w, unit) act" where
  "act_checked f w = map_option (\<lambda>w'. (Inr (), w')) (f w)"

text \<open>An await: the error of the client becomes a core error (the \<open>?\<close> operator).\<close>

definition act_await :: "('w \<Rightarrow> (client_error + 'a) \<times> 'w) \<Rightarrow> ('w, 'a) act" where
  "act_await call w =
     (case call w of
        (Inl e, w') \<Rightarrow> Some (Inl (core_error_of_client_error e), w')
      | (Inr a, w') \<Rightarrow> Some (Inr a, w'))"

text \<open>An await whose failure is looked at instead of returned.\<close>

definition act_try :: "('w \<Rightarrow> (client_error + 'a) \<times> 'w) \<Rightarrow> ('w, client_error + 'a) act" where
  "act_try call w = (case call w of (res, w') \<Rightarrow> Some (Inr res, w'))"

definition act_of_option :: "core_error \<Rightarrow> 'a option \<Rightarrow> ('w, 'a) act" where
  "act_of_option e x = (case x of None \<Rightarrow> act_fail e | Some a \<Rightarrow> act_ok a)"

text \<open>A loop over a list, one action per element.\<close>

fun act_each :: "('a \<Rightarrow> ('w, unit) act) \<Rightarrow> 'a list \<Rightarrow> ('w, unit) act" where
  "act_each f [] = act_ok ()"
| "act_each f (x # xs) = act_bind (f x) (\<lambda>_. act_each f xs)"

section \<open>Common beginnings and ends\<close>

type_synonym 'u rpc = "nat \<Rightarrow> 'u core caller"

definition require_client :: "('u core, nat) act" where
  "require_client = act_bind (act_get client) (act_of_option CoreError_NotConnected)"

definition require_chat :: "string \<Rightarrow> ('u core, live_session) act" where
  "require_chat key = act_bind (act_get (\<lambda>w. chats w key)) (act_of_option CoreError_NotConnected)"

text \<open>The client and the session of \<open>key\<close>, under one lock.\<close>

definition client_and_chat :: "string \<Rightarrow> ('u core, nat \<times> live_session) act" where
  "client_and_chat key =
     act_bind require_client (\<lambda>c. act_bind (require_chat key) (\<lambda>live. act_ok (c, live)))"

text \<open>
  A change of the transcript of \<open>key\<close> through its reducer, delivered to the registered sink
  with the rows after it. An unknown key changes nothing.
\<close>

definition update_transcript ::
  "serde \<Rightarrow> string \<Rightarrow> (live_session \<Rightarrow> (reducer \<times> session_change list) panics) \<Rightarrow> 'u core \<Rightarrow> 'u core panics" where
  "update_transcript sj key f w =
     (case chats w key of
        None \<Rightarrow> Some w
      | Some live \<Rightarrow>
          (case f live of
             None \<Rightarrow> panic
           | Some (r, changes) \<Rightarrow>
               (let w' = w\<lparr>chats := (chats w)(key \<mapsto> live\<lparr>l_reducer := r\<rparr>)\<rparr>
                in case sink w of
                     None \<Rightarrow> Some w'
                   | Some snk \<Rightarrow> Some (emit sj snk key changes (r_rows r) '''' w'))))"

section \<open>Opening and closing tabs\<close>

text \<open>
  The locked part of \<open>open_session_inner\<close>, after the RPC: the state with the new session,
  then the delivery of its changes.
\<close>

definition fresh_reducer :: "string \<Rightarrow> json list \<Rightarrow> reducer \<times> session_change list" where
  "fresh_reducer key messages =
     (if messages = [] then (new_reducer, []) else ingest_resume_messages new_reducer key messages)"

definition install_state ::
  "'u core_env \<Rightarrow> string \<Rightarrow> string \<Rightarrow> reducer \<Rightarrow> string \<Rightarrow> int \<Rightarrow> 'u core \<Rightarrow> 'u core" where
  "install_state env key sid r profile_name cols w =
     (let epoch = history_epoch w + 1;
          live = \<lparr>live_sid = sid, l_reducer = r, l_last_seen = 0, l_epoch = epoch\<rparr>;
          prev = registry_get (reg w) key;
          rec = \<lparr>stored_id = key, last_seen_seq = 0,
                 rec_epoch = (case prev of None \<Rightarrow> '''' | Some p \<Rightarrow> rec_epoch p),
                 rec_cols = cols,
                 rec_title = (case prev of None \<Rightarrow> '''' | Some p \<Rightarrow> rec_title p),
                 rec_profile = (if profile_name = ''''
                                then (case prev of None \<Rightarrow> '''' | Some p \<Rightarrow> rec_profile p)
                                else profile_name)\<rparr>
      in persist_registry env
           (w\<lparr>history_epoch := epoch, chats := (chats w)(key \<mapsto> live),
              sid_index := (sid_index w)(sid \<mapsto> key),
              reg := set_active (Some key) (registry_upsert rec (reg w))\<rparr>))"

definition install_session ::
  "'u core_env \<Rightarrow> string \<Rightarrow> string \<Rightarrow> json list \<Rightarrow> string \<Rightarrow> int \<Rightarrow> 'u core \<Rightarrow> 'u core" where
  "install_session env key sid messages profile_name cols w =
     (let r = fst (fresh_reducer key messages);
          changes = snd (fresh_reducer key messages);
          w1 = install_state env key sid r profile_name cols w
      in case sink w of
           None \<Rightarrow> w1
         | Some snk \<Rightarrow> emit (ce_json env) snk key changes (r_rows r) '''' w1)"

definition open_session_inner ::
  "'u core_env \<Rightarrow> 'u rpc \<Rightarrow> string option \<Rightarrow> int \<Rightarrow> string option \<Rightarrow> string option \<Rightarrow> ('u core, string) act" where
  "open_session_inner env rpc sid cols0 profile title =
     act_bind require_client (\<lambda>c.
       let cols = (if cols0 \<le> 0 then default_cols else cols0);
           finish = (\<lambda>key live messages wire_profile.
             let profile_name = (if wire_profile = '''' then unwrap_or '''' profile else wire_profile)
             in act_bind (act_modify (install_session env key live messages profile_name cols))
                  (\<lambda>_. act_ok key))
       in case sid of
            None \<Rightarrow>
              act_bind (act_await (create_session (rpc c) cols profile title)) (\<lambda>created.
                finish (cs_stored_session_id created) (cs_session_id created) []
                  (cs_profile_name created))
          | Some i \<Rightarrow>
              act_bind (act_await (resume_session (rpc c) i profile)) (\<lambda>resumed.
                finish i (rs_session_id resumed) (rs_messages resumed) (rs_profile_name resumed)))"

definition open_session :: "'u core_env \<Rightarrow> 'u rpc \<Rightarrow> string option \<Rightarrow> int \<Rightarrow> ('u core, string) act" where
  "open_session env rpc sid cols = open_session_inner env rpc sid cols None None"

definition open_bot_chat :: "'u core_env \<Rightarrow> 'u rpc \<Rightarrow> string \<Rightarrow> int \<Rightarrow> ('u core, string) act" where
  "open_bot_chat env rpc profile cols =
     act_bind require_client (\<lambda>c.
       act_bind (act_await (list_sessions (rpc c) default_list_limit True (Some bot_chat_title) (Some profile)))
         (\<lambda>entries.
            case resolve_bot_chat (map (\<lambda>s. (se_title s, se_id s)) entries) of
              Resume_Chat i \<Rightarrow> open_session_inner env rpc (Some i) cols (Some profile) None
            | Create_Chat \<Rightarrow> open_session_inner env rpc None cols (Some profile) (Some bot_chat_title)))"

definition close_session :: "'u core_env \<Rightarrow> string \<Rightarrow> 'u core \<Rightarrow> 'u core" where
  "close_session env key w =
     (let w1 = (case chats w key of
                  None \<Rightarrow> w
                | Some live \<Rightarrow> w\<lparr>chats := (chats w)(key := None),
                                  sid_index := (sid_index w)(live_sid live := None)\<rparr>)
      in persist_registry env
           (w1\<lparr>emitted_approvals := (emitted_approvals w1)(key := None),
               reg := fst (registry_close key (reg w1))\<rparr>))"

definition clear_sessions :: "'u core_env \<Rightarrow> ('u core, unit) act" where
  "clear_sessions env w =
     (let w1 = w\<lparr>chats := Map.empty, sid_index := Map.empty, emitted_approvals := Map.empty,
                 reg := registry_new\<rparr>;
          (res, fs) = save_registry env (reg w1) (disk w1)
      in Some (res, w1\<lparr>disk := fs\<rparr>))"

definition close_client :: "string \<Rightarrow> 'u core \<Rightarrow> 'u core" where
  "close_client reason w =
     (case client w of
        None \<Rightarrow> w
      | Some c \<Rightarrow> w\<lparr>client := None, closed_clients := closed_clients w @ [(c, reason)]\<rparr>)"

definition forget_gateway :: "'u core_env \<Rightarrow> 'u core \<Rightarrow> 'u core" where
  "forget_gateway env w =
     (let w1 = close_client local_close_reason (signal_stop w)
      in w1\<lparr>disk := (disk w1)(endpoint_path env := None, sessions_path env := None),
            endpoint := None, reg := registry_new, chats := Map.empty, sid_index := Map.empty,
            emitted_approvals := Map.empty\<rparr>)"

definition disconnect :: "'u core_env \<Rightarrow> 'u core \<Rightarrow> 'u core" where
  "disconnect env w = flush_registry env (close_client local_close_reason (signal_stop w))"

text \<open>\<open>parse_qr\<close> and \<open>pair\<close>; the endpoint DTO is the endpoint with its URL as text.\<close>

definition endpoint_dto :: "'u core_env \<Rightarrow> 'u gateway_endpoint \<Rightarrow> string \<times> string \<times> string" where
  "endpoint_dto env ep = (url_as_str (ce_url env) (base_url ep), ep_username ep, ep_display_name ep)"

definition pair :: "'u core_env \<Rightarrow> string \<Rightarrow> ('u core, string \<times> string \<times> string) act" where
  "pair env payload w =
     (case parse_qr_payload (ce_url env) payload of
        Inl e \<Rightarrow> Some (Inl e, w)
      | Inr ep \<Rightarrow>
          Some (Inr (endpoint_dto env ep),
                w\<lparr>disk := snd (save_endpoint env ep (disk w)), endpoint := Some ep\<rparr>))"

definition set_session_title ::
  "'u core_env \<Rightarrow> 'u rpc \<Rightarrow> string \<Rightarrow> string \<Rightarrow> ('u core, unit) act" where
  "set_session_title env rpc key title =
     act_bind (act_get (\<lambda>w. (chats w key, sink w))) (\<lambda>(chat, snk).
       act_bind require_client (\<lambda>c.
         let sid = (case chat of None \<Rightarrow> key | Some live \<Rightarrow> live_sid live)
         in act_bind (act_await (session_title (rpc c) sid (Some title))) (\<lambda>_.
              case snk of
                None \<Rightarrow> act_ok ()
              | Some s \<Rightarrow>
                  act_checked (deliver_event (ce_json env)
                    \<lparr>event_type = ''session.title'', ev_session_id = sid, ev_seq = None,
                     ev_payload = JObj [(''title'', JStr title)]\<rparr> s))))"

section \<open>The tab strip\<close>

record session_summary =
  sm_key :: string
  sm_title :: string
  sm_running :: bool
  sm_header_json :: string
  sm_profile_name :: string

definition summary_of :: "serde \<Rightarrow> 'u core \<Rightarrow> session_record \<Rightarrow> session_summary" where
  "summary_of sj w rec =
     \<lparr>sm_key = stored_id rec, sm_title = rec_title rec,
      sm_running = (case chats w (stored_id rec) of
                      None \<Rightarrow> False | Some l \<Rightarrow> is_streaming (l_reducer l)),
      sm_header_json =
        (case chats w (stored_id rec) of
           None \<Rightarrow> ''''
         | Some l \<Rightarrow> to_compact_string sj
             (JObj [(''title'', JStr (h_title (header (r_state (l_reducer l))))),
                    (''model'', JStr (h_model (header (r_state (l_reducer l)))))])),
      sm_profile_name = rec_profile rec\<rparr>"

definition open_sessions :: "serde \<Rightarrow> 'u core \<Rightarrow> session_summary list" where
  "open_sessions sj w = map (summary_of sj w) (sessions (reg w))"

definition last_active_session :: "'u core \<Rightarrow> string option" where
  "last_active_session w =
     (case active_key (reg w) of
        None \<Rightarrow> None
      | Some k \<Rightarrow> map_option stored_id (registry_get (reg w) k))"

section \<open>Sending, answering, interrupting\<close>

text \<open>
  The part of \<open>send\<close> and \<open>submit_slash_message\<close> after the submit: the row is appended only
  when no rebuild of the session happened meanwhile.
\<close>

definition publish_user_row :: "serde \<Rightarrow> string \<Rightarrow> string \<Rightarrow> nat \<Rightarrow> 'u core \<Rightarrow> 'u core panics" where
  "publish_user_row sj key text epoch =
     update_transcript sj key
       (\<lambda>live. Some (if l_epoch live = epoch then append_user_row (l_reducer live) key text
                     else (l_reducer live, [])))"

definition accepted_submit :: "submit_status \<Rightarrow> bool" where
  "accepted_submit s \<longleftrightarrow> s = Streaming \<or> s = Redirected"

definition send :: "'u core_env \<Rightarrow> 'u rpc \<Rightarrow> string \<Rightarrow> string \<Rightarrow> ('u core, unit) act" where
  "send env rpc key text =
     act_bind (client_and_chat key) (\<lambda>(c, live).
       act_bind (act_await (api_submit (rpc c) (live_sid live) text)) (\<lambda>status.
         if \<not> accepted_submit status then act_fail CoreError_UnexpectedStatus
         else act_checked (publish_user_row (ce_json env) key text (l_epoch live))))"

definition interrupt :: "'u rpc \<Rightarrow> string \<Rightarrow> ('u core, unit) act" where
  "interrupt rpc key =
     act_bind (client_and_chat key) (\<lambda>(c, live).
       act_bind (act_await (api_interrupt (rpc c) (live_sid live))) (\<lambda>_. act_ok ()))"

definition respond_approval ::
  "'u core_env \<Rightarrow> 'u rpc \<Rightarrow> string \<Rightarrow> string \<Rightarrow> string \<Rightarrow> ('u core, unit) act" where
  "respond_approval env rpc key rid choice =
     act_bind (client_and_chat key) (\<lambda>(c, live).
       act_bind (act_await (api_respond_approval (rpc c) (live_sid live) rid choice)) (\<lambda>_.
         act_checked (update_transcript (ce_json env) key
           (\<lambda>l. resolve_approval (l_reducer l) key rid))))"

definition respond_clarify ::
  "'u core_env \<Rightarrow> 'u rpc \<Rightarrow> string \<Rightarrow> string \<Rightarrow> string \<Rightarrow> string option \<Rightarrow> ('u core, unit) act" where
  "respond_clarify env rpc key rid answer question_id =
     act_bind (client_and_chat key) (\<lambda>(c, live).
       act_bind (act_await (api_respond_clarify (rpc c) (live_sid live) rid answer question_id)) (\<lambda>_.
         act_checked (update_transcript (ce_json env) key
           (\<lambda>l. resolve_clarify (l_reducer l) key rid))))"

section \<open>The slash ladder\<close>

datatype slash_outcome =
    Slash_Output string
  | Slash_Prefill string
  | Slash_Submitted
  | Slash_Empty

definition submit_slash_message ::
  "'u core_env \<Rightarrow> 'u rpc \<Rightarrow> nat \<Rightarrow> string \<Rightarrow> string \<Rightarrow> string \<Rightarrow> string \<Rightarrow> ('u core, unit) act" where
  "submit_slash_message env rpc c key sid message row_text =
     act_bind (require_chat key) (\<lambda>live.
       act_bind (act_await (api_submit (rpc c) sid message)) (\<lambda>status.
         if \<not> accepted_submit status then act_fail CoreError_UnexpectedStatus
         else act_checked (publish_user_row (ce_json env) key row_text (l_epoch live))))"

definition alias_target :: "string \<Rightarrow> string" where
  "alias_target target = (if prefix ''/'' target then target else CHR ''/'' # target)"

text \<open>
  \<open>plan_after_slash_exec\<close> on the answer of \<open>slash.exec\<close>, with its error mapped by \<open>?\<close>.
\<close>

definition exec_plan :: "'u rpc \<Rightarrow> nat \<Rightarrow> string \<Rightarrow> string \<Rightarrow> ('u core, slash_plan) act" where
  "exec_plan rpc c sid command =
     act_bind (act_try (slash_exec (rpc c) sid command)) (\<lambda>res.
       case plan_after_slash_exec command res of
         Inl e \<Rightarrow> act_fail (core_error_of_client_error e)
       | Inr plan \<Rightarrow> act_ok plan)"

function run_slash_ladder ::
  "'u core_env \<Rightarrow> 'u rpc \<Rightarrow> string \<Rightarrow> string \<Rightarrow> nat \<Rightarrow> ('u core, slash_outcome) act" where
  "run_slash_ladder env rpc key command hop =
     act_bind (client_and_chat key) (\<lambda>(c, live).
       act_bind (exec_plan rpc c (live_sid live) command) (\<lambda>plan.
         case plan of
           Plan_Output text \<Rightarrow> act_ok (Slash_Output text)
         | Plan_Empty \<Rightarrow> act_ok Slash_Empty
         | Plan_Dispatch name arg \<Rightarrow>
             act_bind (act_await (command_dispatch (rpc c) (live_sid live) name arg)) (\<lambda>outcome.
               case plan_from_dispatch outcome of
                 Do_Output text \<Rightarrow> act_ok (Slash_Output text)
               | Do_Prefill text \<Rightarrow> act_ok (Slash_Prefill text)
               | Do_Unknown \<Rightarrow> act_ok (Slash_Output ''unknown dispatch type'')
               | Do_Submit message display \<Rightarrow>
                   act_bind (submit_slash_message env rpc c key (live_sid live) message
                       (if display = '''' then message else display))
                     (\<lambda>_. act_ok Slash_Submitted)
               | Do_Alias target \<Rightarrow>
                   if max_alias_hops \<le> hop
                   then act_fail (CoreError_Rpc alias_loop_code ''slash alias chain exceeded 8 hops'')
                   else run_slash_ladder env rpc key (alias_target target) (hop + 1))))"
  by pat_completeness auto
termination
  by (relation "measure (\<lambda>(env, rpc, key, command, hop). Suc max_alias_hops - hop)") auto

declare run_slash_ladder.simps [simp del]

definition run_slash :: "'u core_env \<Rightarrow> 'u rpc \<Rightarrow> string \<Rightarrow> string \<Rightarrow> ('u core, slash_outcome) act" where
  "run_slash env rpc key command = run_slash_ladder env rpc key command 0"

definition complete_slash :: "'u rpc \<Rightarrow> string \<Rightarrow> ('u core, slash_completions) act" where
  "complete_slash rpc text =
     act_bind require_client (\<lambda>c. act_await (api_complete_slash (rpc c) text))"

definition list_remote_sessions :: "'u rpc \<Rightarrow> ('u core, (string \<times> string \<times> string \<times> int) list) act" where
  "list_remote_sessions rpc =
     act_bind require_client (\<lambda>c.
       act_bind (act_await (list_sessions (rpc c) default_list_limit False None None)) (\<lambda>entries.
         act_ok (map (\<lambda>s. (se_id s, se_title s, se_preview s, se_message_count s)) entries)))"

end
