(* ===== verification/Core_Sync.thy ===== *)
theory Core_Sync
  imports Core_Ops
begin

text \<open>
  What the supervisor runs on a (re)connect and after a lag: resuming every tab, filling
  gaps from the watermarks, re-emitting unanswered approvals; and establishing a connection
  (\<open>hermes_core/src/core.rs\<close>).
\<close>

section \<open>Replay\<close>

definition replay_params :: "replayed_event \<Rightarrow> event_params" where
  "replay_params e =
     \<lparr>event_type = re_event_type e, ev_session_id = re_session_id e, ev_seq = Some (re_seq e),
      ev_payload = re_payload e\<rparr>"

definition replay_all :: "'u core_env \<Rightarrow> nat \<Rightarrow> replayed_event list \<Rightarrow> ('u core, unit) act" where
  "replay_all env snk evs =
     act_each (\<lambda>e. act_checked (deliver_event (ce_json env) (replay_params e) snk)) evs"

definition needs_rebuild :: "session_record \<Rightarrow> string \<Rightarrow> events_since \<Rightarrow> bool" where
  "needs_rebuild rec fresh_epoch repl \<longleftrightarrow>
     es_truncated repl \<or>
     (rec_epoch rec \<noteq> '''' \<and> rec_epoch rec \<noteq> fresh_epoch) \<or>
     (es_epoch repl \<noteq> '''' \<and> rec_epoch rec \<noteq> '''' \<and> es_epoch repl \<noteq> rec_epoch rec)"

definition rebuild_and_emit ::
  "'u core_env \<Rightarrow> nat \<Rightarrow> string \<Rightarrow> json list \<Rightarrow> string option \<Rightarrow> 'u core \<Rightarrow> 'u core" where
  "rebuild_and_emit env snk key messages epoch w =
     (let (w', dtos) = rebuild_session (ce_json env) key messages epoch w in emit_dtos snk dtos w')"

definition touch_tab :: "string \<Rightarrow> int \<Rightarrow> string \<Rightarrow> 'u core \<Rightarrow> 'u core" where
  "touch_tab key seq epoch w = w\<lparr>reg := registry_touch key seq epoch (reg w)\<rparr>"

text \<open>The body of the loop of \<open>resume_all\<close> once both RPCs answered.\<close>

definition apply_replay ::
  "'u core_env \<Rightarrow> nat \<Rightarrow> string \<Rightarrow> session_record \<Rightarrow> string \<Rightarrow> resumed_session \<Rightarrow> events_since
     \<Rightarrow> ('u core, unit) act" where
  "apply_replay env snk key rec fresh_epoch resumed repl =
     (if needs_rebuild rec fresh_epoch repl
      then act_modify (rebuild_and_emit env snk key (rs_messages resumed) (non_empty (Some (es_epoch repl))))
      else act_bind (replay_all env snk (es_events repl))
             (\<lambda>_. act_modify (touch_tab key (es_latest_seq repl) (es_epoch repl))))"

definition resume_one ::
  "'u core_env \<Rightarrow> 'u rpc \<Rightarrow> nat \<Rightarrow> string \<Rightarrow> nat \<Rightarrow> string \<Rightarrow> ('u core, unit) act" where
  "resume_one env rpc c fresh_epoch snk key =
     act_bind (act_get (\<lambda>w. registry_get (reg w) key)) (\<lambda>record.
       case record of
         None \<Rightarrow> act_ok ()
       | Some rec \<Rightarrow>
           act_bind (act_try (resume_session (rpc c) key (resume_profile rec))) (\<lambda>res.
             case res of
               Inl _ \<Rightarrow> act_ok ()
             | Inr resumed \<Rightarrow>
                 act_bind (act_modify (repoint_live_sid key (rs_session_id resumed))) (\<lambda>_.
                   act_bind (act_try (api_events_since (rpc c) key (last_seen_seq rec))) (\<lambda>res2.
                     case res2 of
                       Inl _ \<Rightarrow> act_ok ()
                     | Inr repl \<Rightarrow> apply_replay env snk key rec fresh_epoch resumed repl))))"

section \<open>Unanswered approvals\<close>

definition pending_cards :: "json \<Rightarrow> json list" where
  "pending_cards pending =
     (let v = (case get_key pending ''pending'' of
                 Some x \<Rightarrow> Some x | None \<Rightarrow> get_key pending ''approvals'')
      in unwrap_or [] (Option.bind v as_array))"

text \<open>One card under the lock: the new state and what to deliver.\<close>

definition reemit_card ::
  "serde \<Rightarrow> nat \<Rightarrow> string \<Rightarrow> json \<Rightarrow> 'u core \<Rightarrow> 'u core panics" where
  "reemit_card sj snk key crd w =
     (let rid = str_at crd ''request_id''
      in if rid = '''' then Some w
         else if rid \<in> set (unwrap_or [] (emitted_approvals w key)) then Some w
         else case chats w key of
           None \<Rightarrow> Some w
         | Some live \<Rightarrow>
             if has_unresolved_approval (l_reducer live) rid then Some w
             else (case apply_approval_card sj (l_reducer live) key rid crd of
                     None \<Rightarrow> panic
                   | Some (r, None) \<Rightarrow> Some (w\<lparr>chats := (chats w)(key \<mapsto> live\<lparr>l_reducer := r\<rparr>)\<rparr>)
                   | Some (r, Some changes) \<Rightarrow>
                       Some (emit sj snk key changes (r_rows r) ''''
                         (w\<lparr>chats := (chats w)(key \<mapsto> live\<lparr>l_reducer := r\<rparr>),
                            emitted_approvals := (emitted_approvals w)
                              (key \<mapsto> unwrap_or [] (emitted_approvals w key) @ [rid])\<rparr>))))"

definition reemit_cards :: "serde \<Rightarrow> nat \<Rightarrow> string \<Rightarrow> json list \<Rightarrow> ('u core, unit) act" where
  "reemit_cards sj snk key cards = act_each (\<lambda>c. act_checked (reemit_card sj snk key c)) cards"

definition reemit_key :: "'u core_env \<Rightarrow> 'u rpc \<Rightarrow> nat \<Rightarrow> nat \<Rightarrow> string \<Rightarrow> ('u core, unit) act" where
  "reemit_key env rpc c snk key =
     act_bind (act_get (\<lambda>w. chats w key)) (\<lambda>chat.
       case chat of
         None \<Rightarrow> act_ok ()
       | Some live \<Rightarrow>
           act_bind (act_try (pending_approvals (rpc c) (live_sid live))) (\<lambda>res.
             case res of
               Inl _ \<Rightarrow> act_ok ()
             | Inr pending \<Rightarrow> reemit_cards (ce_json env) snk key (pending_cards pending)))"

text \<open>
  The keys come in the order in which the hash map enumerates them, which is not specified:
  \<open>order\<close> is an argument.
\<close>

definition reemit_approvals ::
  "'u core_env \<Rightarrow> 'u rpc \<Rightarrow> ((string \<rightharpoonup> live_session) \<Rightarrow> string list) \<Rightarrow> nat \<Rightarrow> nat \<Rightarrow> ('u core, unit) act" where
  "reemit_approvals env rpc order c snk =
     act_bind (act_get (\<lambda>w. order (chats w))) (act_each (reemit_key env rpc c snk))"

definition resume_all ::
  "'u core_env \<Rightarrow> 'u rpc \<Rightarrow> ((string \<rightharpoonup> live_session) \<Rightarrow> string list) \<Rightarrow> nat \<Rightarrow> string \<Rightarrow> nat
     \<Rightarrow> ('u core, unit) act" where
  "resume_all env rpc order c fresh_epoch snk =
     act_bind (act_get (\<lambda>w. map stored_id (sessions (reg w)))) (\<lambda>keys.
       act_bind (act_each (resume_one env rpc c fresh_epoch snk) keys) (\<lambda>_.
         reemit_approvals env rpc order c snk))"

definition catch_up_one :: "'u core_env \<Rightarrow> 'u rpc \<Rightarrow> nat \<Rightarrow> nat \<Rightarrow> string \<times> int \<Rightarrow> ('u core, unit) act" where
  "catch_up_one env rpc c snk p =
     act_bind (act_try (api_events_since (rpc c) (fst p) (snd p))) (\<lambda>res.
       case res of
         Inl _ \<Rightarrow> act_ok ()
       | Inr repl \<Rightarrow> replay_all env snk (es_events repl))"

definition catch_up_all :: "'u core_env \<Rightarrow> 'u rpc \<Rightarrow> nat \<Rightarrow> nat \<Rightarrow> ('u core, unit) act" where
  "catch_up_all env rpc c snk =
     act_bind (act_get (\<lambda>w. map (\<lambda>r. (stored_id r, last_seen_seq r)) (sessions (reg w))))
       (act_each (catch_up_one env rpc c snk))"

section \<open>Establishing a connection\<close>

text \<open>
  The HTTP side (\<open>mint\<close>) and the WebSocket side (\<open>open_ws\<close>, which gives a client handle)
  are arguments that may change the state, as calls may.
\<close>

record 'u net =
  net_mint :: "string \<Rightarrow> 'u core \<Rightarrow> (core_error + ws_ticket) \<times> 'u core"
  net_open :: "string \<Rightarrow> 'u core \<Rightarrow> (client_error + nat) \<times> 'u core"
  net_login :: "string \<Rightarrow> string \<Rightarrow> string \<Rightarrow> 'u core \<Rightarrow> (core_error + unit) \<times> 'u core"
  net_profiles :: "string \<Rightarrow> 'u core \<Rightarrow> (core_error + profile_dto list) \<times> 'u core"
  net_auth_new :: "'u core \<Rightarrow> core_error + unit"

definition act_http :: "('w \<Rightarrow> (core_error + 'a) \<times> 'w) \<Rightarrow> ('w, 'a) act" where
  "act_http m w = Some (m w)"

definition require_endpoint :: "('u core, 'u gateway_endpoint) act" where
  "require_endpoint = act_bind (act_get endpoint) (act_of_option CoreError_NotConnected)"

definition require_auth :: "('u core, unit) act" where
  "require_auth =
     act_bind (act_get auth) (\<lambda>ok. if ok then act_ok () else act_fail CoreError_SessionExpired)"

definition establish :: "'u core_env \<Rightarrow> 'u net \<Rightarrow> ('u core, nat) act" where
  "establish env net =
     act_bind require_endpoint (\<lambda>ep.
       act_bind require_auth (\<lambda>_.
         act_bind (act_http (net_mint net (url_as_str (ce_url env) (base_url ep)))) (\<lambda>ticket.
           case ws_url (ce_url env) (base_url ep) (tk_ticket ticket) of
             None \<Rightarrow> (\<lambda>_. panic)
           | Some url \<Rightarrow> act_await (net_open net (url_as_str (ce_url env) url)))))"

text \<open>\<open>connect_inner\<close>: the result says whether a supervisor has to be spawned for the client.\<close>

definition connect_inner :: "'u core_env \<Rightarrow> 'u net \<Rightarrow> nat \<Rightarrow> ('u core, nat option) act" where
  "connect_inner env net snk =
     act_bind (act_modify (\<lambda>w. w\<lparr>sink := Some snk\<rparr>)) (\<lambda>_.
       act_bind (establish env net) (\<lambda>c.
         act_bind (act_modify (\<lambda>w. w\<lparr>client := Some c, stop_flag := False\<rparr>)) (\<lambda>_.
           act_bind (act_get supervising) (\<lambda>running.
             act_bind (act_modify (\<lambda>w. w\<lparr>supervising := True\<rparr>)) (\<lambda>_.
               act_ok (if running then None else Some c))))))"

text \<open>
  \<open>app_did_foreground\<close>: the result is the client and sink a supervisor has to be spawned
  for. A probe of a live connection does not change the state of the core.
\<close>

definition app_did_foreground :: "'u core_env \<Rightarrow> 'u net \<Rightarrow> ('u core, (nat \<times> nat) option) act" where
  "app_did_foreground env net =
     act_bind (act_get supervising) (\<lambda>running.
       if running then act_ok None
       else
         act_bind (act_modify (\<lambda>w. w\<lparr>supervising := True\<rparr>)) (\<lambda>_.
           act_bind (act_get sink) (\<lambda>snk.
             case snk of
               None \<Rightarrow> act_bind (act_modify (\<lambda>w. w\<lparr>supervising := False\<rparr>)) (\<lambda>_. act_ok None)
             | Some s \<Rightarrow>
                 (\<lambda>w. case establish env net w of
                    None \<Rightarrow> panic
                  | Some (Inl e, w') \<Rightarrow>
                      (let w'' = w'\<lparr>supervising := False\<rparr>
                       in if e = CoreError_SessionExpired
                          then Some (Inr None, emit_status s Conn_NeedsPassword w'')
                          else Some (Inl e, w''))
                  | Some (Inr c, w') \<Rightarrow>
                      Some (Inr (Some (c, s)), w'\<lparr>client := Some c, stop_flag := False\<rparr>)))))"

definition login :: "'u core_env \<Rightarrow> 'u net \<Rightarrow> string \<Rightarrow> ('u core, unit) act" where
  "login env net password =
     act_bind require_endpoint (\<lambda>ep.
       act_bind (act_get auth) (\<lambda>ok.
         act_bind
           (if ok then act_ok ()
            else (\<lambda>w. case net_auth_new net w of
                        Inl e \<Rightarrow> Some (Inl (CoreError_Io (''cookie jar: '' @ core_error_display e)), w)
                      | Inr _ \<Rightarrow> Some (Inr (), w\<lparr>auth := True\<rparr>)))
           (\<lambda>_. act_http (net_login net (url_as_str (ce_url env) (base_url ep)) (ep_username ep) password))))"

definition list_profiles :: "'u core_env \<Rightarrow> 'u net \<Rightarrow> ('u core, profile_dto list) act" where
  "list_profiles env net =
     act_bind require_endpoint (\<lambda>ep.
       act_bind require_auth (\<lambda>_.
         act_http (net_profiles net (url_as_str (ce_url env) (base_url ep)))))"

end
