(* ===== verification/Core_Facts.thy ===== *)
theory Core_Facts
  imports Core_Sync
begin

text \<open>
  The invariant of the core, its preservation by every operation whatever happens during
  the awaited calls, and the absence of panics.
\<close>

section \<open>Actions that keep an invariant and return\<close>

definition act_keeps :: "('w \<Rightarrow> bool) \<Rightarrow> ('w, 'a) act \<Rightarrow> bool" where
  "act_keeps I m \<longleftrightarrow> (\<forall>w. I w \<longrightarrow> (\<exists>res w'. m w = Some (res, w') \<and> I w'))"

named_theorems keeps_intros "an action keeps an invariant and does not panic"

lemma act_keepsD:
  assumes "act_keeps I m" and "I w"
  obtains res w' where "m w = Some (res, w')" "I w'"
  using assms unfolding act_keeps_def by blast

lemma keeps_returns: "act_keeps I m \<Longrightarrow> I w \<Longrightarrow> \<exists>res w'. m w = Some (res, w') \<and> I w'"
  by (rule act_keepsD) blast+

lemma keeps_ok [keeps_intros]: "act_keeps I (act_ok a)"
  by (simp add: act_keeps_def act_ok_def)

lemma keeps_fail [keeps_intros]: "act_keeps I (act_fail e)"
  by (simp add: act_keeps_def act_fail_def)

lemma keeps_get [keeps_intros]: "act_keeps I (act_get f)"
  by (simp add: act_keeps_def act_get_def)

lemma keeps_of_option [keeps_intros]: "act_keeps I (act_of_option e x)"
  by (cases x) (simp_all add: act_of_option_def keeps_ok keeps_fail)

lemma keeps_bind [keeps_intros]:
  assumes "act_keeps I m" and "\<And>a. act_keeps I (f a)"
  shows "act_keeps I (act_bind m f)"
  unfolding act_keeps_def
proof (intro allI impI)
  fix w assume "I w"
  with assms(1) obtain res w' where m: "m w = Some (res, w')" "I w'" by (rule act_keepsD)
  show "\<exists>res w'. act_bind m f w = Some (res, w') \<and> I w'"
  proof (cases res)
    case (Inl e)
    with m show ?thesis by (simp add: act_bind_def)
  next
    case (Inr a)
    from act_keepsD [OF assms(2) [of a] m(2)] obtain res2 w2 where "f a w' = Some (res2, w2)" "I w2" .
    with m Inr show ?thesis by (simp add: act_bind_def)
  qed
qed

lemma keeps_modify [keeps_intros]: "(\<And>w. I w \<Longrightarrow> I (f w)) \<Longrightarrow> act_keeps I (act_modify f)"
  by (simp add: act_keeps_def act_modify_def)

lemma keeps_checked [keeps_intros]:
  "(\<And>w. I w \<Longrightarrow> \<exists>w'. f w = Some w' \<and> I w') \<Longrightarrow> act_keeps I (act_checked f)"
  unfolding act_keeps_def act_checked_def by fastforce

lemma keeps_await [keeps_intros]: "(\<And>w. I w \<Longrightarrow> I (snd (call w))) \<Longrightarrow> act_keeps I (act_await call)"
  unfolding act_keeps_def act_await_def by (auto split: prod.split sum.split) (metis snd_conv)+

lemma keeps_try [keeps_intros]: "(\<And>w. I w \<Longrightarrow> I (snd (call w))) \<Longrightarrow> act_keeps I (act_try call)"
  unfolding act_keeps_def act_try_def by (auto split: prod.split) (metis snd_conv)

lemma keeps_http [keeps_intros]: "(\<And>w. I w \<Longrightarrow> I (snd (m w))) \<Longrightarrow> act_keeps I (act_http m)"
  unfolding act_keeps_def act_http_def by (metis prod.collapse)

lemma keeps_each [keeps_intros]: "(\<And>x. act_keeps I (f x)) \<Longrightarrow> act_keeps I (act_each f xs)"
  by (induction xs) (auto intro: keeps_intros)

text \<open>Calls that keep an invariant of the core: everything other tasks do keeps it.\<close>

definition rpc_keeps :: "('u core \<Rightarrow> bool) \<Rightarrow> 'u rpc \<Rightarrow> bool" where
  "rpc_keeps I rpc \<longleftrightarrow> (\<forall>c m p w. I w \<longrightarrow> I (snd (rpc c m p w)))"

lemma rpc_keepsD: "rpc_keeps I rpc \<Longrightarrow> I w \<Longrightarrow> I (snd (rpc c m p w))"
  by (simp add: rpc_keeps_def)

lemma api_world [simp]:
  "snd (create_session call cols profile title w) = snd (call ''session.create'' (create_params cols profile title) w)"
  "snd (list_sessions call limit hid title profile w) = snd (call ''session.list'' (list_params limit hid title profile) w)"
  "snd (resume_session call sid profile w) = snd (call ''session.resume'' (resume_params sid profile) w)"
  "snd (session_title call sid x w) =
     snd (call ''session.title'' (set_opt ''title'' x (JObj [(''session_id'', JStr sid)])) w)"
  "snd (api_submit call sid text w) =
     snd (call ''prompt.submit'' (JObj [(''session_id'', JStr sid), (''text'', JStr text)]) w)"
  "snd (api_respond_clarify call sid rid ans q w) =
     snd (call ''clarify.respond'' (set_opt ''question_id'' q
       (JObj [(''session_id'', JStr sid), (''request_id'', JStr rid), (''answer'', JStr ans)])) w)"
  "snd (command_dispatch call sid name arg w) =
     snd (call ''command.dispatch'' (JObj [(''session_id'', JStr sid), (''name'', JStr name), (''arg'', JStr arg)]) w)"
  "snd (api_complete_slash call text w) = snd (call ''complete.slash'' (JObj [(''text'', JStr text)]) w)"
  "snd (api_events_since call sid seen w) =
     snd (call ''session.events.since'' (JObj [(''session_id'', JStr sid), (''last_seen'', JNum (IntNum seen))]) w)"
  by (simp_all add: create_session_def list_sessions_def resume_session_def session_title_def
      api_submit_def api_respond_clarify_def command_dispatch_def api_complete_slash_def api_events_since_def)

section \<open>The invariant\<close>

definition core_wf :: "'u core \<Rightarrow> bool" where
  "core_wf w \<longleftrightarrow>
     (\<forall>key live. chats w key = Some live \<longrightarrow> reducer_wf (l_reducer live) \<and> l_epoch live \<le> history_epoch w)"

lemma core_wfD:
  assumes "core_wf w" and "chats w key = Some live"
  shows "reducer_wf (l_reducer live)" "l_epoch live \<le> history_epoch w"
  using assms unfolding core_wf_def by blast+

lemma core_wf_put:
  assumes "core_wf w" and "chats w key = Some live" and "reducer_wf r"
  shows "core_wf (w\<lparr>chats := (chats w)(key \<mapsto> live\<lparr>l_reducer := r\<rparr>)\<rparr>)"
    and "core_wf (w\<lparr>chats := (chats w)(key \<mapsto> live\<lparr>l_reducer := r, l_last_seen := n\<rparr>)\<rparr>)"
  using assms unfolding core_wf_def by auto

lemma core_wf_same:
  "core_wf w \<Longrightarrow> chats w' = chats w \<Longrightarrow> history_epoch w \<le> history_epoch w' \<Longrightarrow> core_wf w'"
  unfolding core_wf_def by fastforce

lemma core_wf_new: "core_wf (core_new env ok fs)"
  by (simp add: core_wf_def core_new_def)

lemma emit_frame [simp, frame_simps]:
  "chats (emit sj s key cs rs t w) = chats w" "history_epoch (emit sj s key cs rs t w) = history_epoch w"
  "reg (emit sj s key cs rs t w) = reg w" "sink (emit sj s key cs rs t w) = sink w"
  "sid_index (emit sj s key cs rs t w) = sid_index w" "client (emit sj s key cs rs t w) = client w"
  "emitted_approvals (emit sj s key cs rs t w) = emitted_approvals w"
  "disk (emit sj s key cs rs t w) = disk w" "endpoint (emit sj s key cs rs t w) = endpoint w"
  by (simp_all add: emit_def)

lemma emit_dtos_frame [simp, frame_simps]:
  "chats (emit_dtos s ds w) = chats w" "history_epoch (emit_dtos s ds w) = history_epoch w"
  "reg (emit_dtos s ds w) = reg w" "sink (emit_dtos s ds w) = sink w"
  by (simp_all add: emit_dtos_def)

lemma emit_status_frame [simp, frame_simps]:
  "chats (emit_status s st w) = chats w" "history_epoch (emit_status s st w) = history_epoch w"
  "reg (emit_status s st w) = reg w" "client (emit_status s st w) = client w"
  by (simp_all add: emit_status_def)

lemma persist_frame [simp, frame_simps]:
  "chats (persist_registry env w) = chats w" "history_epoch (persist_registry env w) = history_epoch w"
  "reg (persist_registry env w) = reg w" "sink (persist_registry env w) = sink w"
  "sink_calls (persist_registry env w) = sink_calls w"
  by (simp_all add: persist_registry_def)

lemma flush_frame [simp, frame_simps]:
  "chats (flush_registry env w) = chats w" "history_epoch (flush_registry env w) = history_epoch w"
  "reg (flush_registry env w) = reg w" "sink_calls (flush_registry env w) = sink_calls w"
  "client (flush_registry env w) = client w" "stop_flag (flush_registry env w) = stop_flag w"
  by (simp_all add: flush_registry_def split: prod.split sum.split)

section \<open>Synchronous operations\<close>

text \<open>What routing an event does, when the state is well formed.\<close>

lemma route_event_cases:
  assumes "core_wf w"
  obtains (none) "route_event sj ev w = Some (w, [])"
  | (routed) key live r changes where "route_key w (ev_session_id ev) = Some key" "chats w key = Some live"
      "reducer_apply sj (l_reducer live) ev = Some (r, changes)" "reducer_wf r"
      "route_event sj ev w =
         Some (w\<lparr>chats := (chats w)(key \<mapsto> live\<lparr>l_reducer := r,
                   l_last_seen := (case ev_seq ev of Some s \<Rightarrow> max (l_last_seen live) s
                                   | None \<Rightarrow> l_last_seen live)\<rparr>)\<rparr>,
               [(key, changes, h_title (header (r_state r)))])"
proof (cases "route_key w (ev_session_id ev)")
  case None
  with none show thesis by (simp add: route_event_def)
next
  case (Some key)
  show thesis
  proof (cases "chats w key")
    case None
    with none Some show thesis by (simp add: route_event_def)
  next
    case live: (Some live)
    obtain r changes where "reducer_apply sj (l_reducer live) ev = Some (r, changes)" "reducer_wf r"
      by (rule apply_keeps_wf [OF core_wfD(1) [OF assms live]])
    with routed Some live show thesis by (simp add: route_event_def Let_def)
  qed
qed

lemma deliver_event_wf:
  assumes "core_wf w"
  shows "\<exists>w'. deliver_event sj ev snk w = Some w' \<and> core_wf w'"
  using assms
proof (cases rule: route_event_cases [where sj = sj and ev = ev])
  case none
  with assms show ?thesis by (simp add: deliver_event_def)
next
  case (routed key live r changes)
  show ?thesis
    unfolding deliver_event_def routed(5)
    by (auto intro: core_wf_same [OF core_wf_put(2) [OF assms routed(2,4)]])
qed

text \<open>
  A delivery keeps every tab, its epoch and its live id, and the counter; a tab it is not
  routed to keeps everything.
\<close>

lemma deliver_event_frame:
  assumes "core_wf w" and "deliver_event sj ev snk w = Some w'"
  shows "history_epoch w' = history_epoch w" and "sid_index w' = sid_index w" and "sink w' = sink w"
    and "route_key w (ev_session_id ev) \<noteq> Some key \<Longrightarrow> chats w' key = chats w key"
    and "chats w key = Some l \<Longrightarrow> \<exists>l'. chats w' key = Some l' \<and> l_epoch l' = l_epoch l \<and> live_sid l' = live_sid l"
proof -
  have "history_epoch w' = history_epoch w \<and> sid_index w' = sid_index w \<and> sink w' = sink w \<and>
    (route_key w (ev_session_id ev) \<noteq> Some key \<longrightarrow> chats w' key = chats w key) \<and>
    (\<forall>l. chats w key = Some l \<longrightarrow>
      (\<exists>l'. chats w' key = Some l' \<and> l_epoch l' = l_epoch l \<and> live_sid l' = live_sid l))"
    using assms(1)
  proof (cases rule: route_event_cases [where sj = sj and ev = ev])
    case none
    with assms(2) show ?thesis by (simp add: deliver_event_def)
  next
    case (routed k live r changes)
    with assms(2) show ?thesis unfolding deliver_event_def by auto
  qed
  then show "history_epoch w' = history_epoch w" and "sid_index w' = sid_index w" and "sink w' = sink w"
    and "route_key w (ev_session_id ev) \<noteq> Some key \<Longrightarrow> chats w' key = chats w key"
    and "chats w key = Some l \<Longrightarrow> \<exists>l'. chats w' key = Some l' \<and> l_epoch l' = l_epoch l \<and> live_sid l' = live_sid l"
    by blast+
qed

lemma update_transcript_wf:
  assumes "core_wf w"
    and "\<And>live. chats w key = Some live \<Longrightarrow> reducer_wf (l_reducer live) \<Longrightarrow>
           \<exists>r cs. f live = Some (r, cs) \<and> reducer_wf r"
  shows "\<exists>w'. update_transcript sj key f w = Some w' \<and> core_wf w'"
proof (cases "chats w key")
  case None
  with assms show ?thesis by (simp add: update_transcript_def)
next
  case (Some live)
  from assms(2) [OF Some] core_wfD(1) [OF assms(1) Some] obtain r cs
    where f: "f live = Some (r, cs)" "reducer_wf r" by blast
  have "core_wf (w\<lparr>chats := (chats w)(key \<mapsto> live\<lparr>l_reducer := r\<rparr>)\<rparr>)"
    by (rule core_wf_put [OF assms(1) Some f(2)])
  with Some f show ?thesis
    by (cases "sink w") (auto simp: update_transcript_def intro: core_wf_same)
qed

lemma returns_ok_wf: "returns_ok r (plain res) \<Longrightarrow> \<exists>r' cs. res = Some (r', cs) \<and> reducer_wf r'"
  by (auto simp: returns_ok_def plain_def handled_ok_def)

lemma resolve_wf:
  assumes "reducer_wf r"
  shows "\<exists>r' cs. resolve_approval r key rid = Some (r', cs) \<and> reducer_wf r'"
    and "\<exists>r' cs. resolve_clarify r key rid = Some (r', cs) \<and> reducer_wf r'"
  using returns_ok_resolve_approval [OF assms] returns_ok_resolve_clarify [OF assms] returns_ok_wf by blast+

lemma append_user_row_wf: "reducer_wf r \<Longrightarrow> reducer_wf (fst (append_user_row r key text))"
  by (simp add: append_user_row_def wf_push)

lemma ingest_wf: "reducer_wf (fst (ingest_resume_messages r key msgs))"
  by (metis fst_conv ingest_resume_messages_result)

lemma publish_user_row_wf:
  "core_wf w \<Longrightarrow> \<exists>w'. publish_user_row sj key text epoch w = Some w' \<and> core_wf w'"
  unfolding publish_user_row_def
  by (rule update_transcript_wf) (auto simp: append_user_row_def wf_push)

lemma install_state_frame [simp, frame_simps]:
  "chats (install_state env key sid r pn cols w) =
     (chats w)(key \<mapsto> \<lparr>live_sid = sid, l_reducer = r, l_last_seen = 0, l_epoch = Suc (history_epoch w)\<rparr>)"
  "history_epoch (install_state env key sid r pn cols w) = Suc (history_epoch w)"
  "sink_calls (install_state env key sid r pn cols w) = sink_calls w"
  "sink (install_state env key sid r pn cols w) = sink w"
  "sid_index (install_state env key sid r pn cols w) = (sid_index w)(sid \<mapsto> key)"
  by (simp_all add: install_state_def Let_def) (simp add: persist_registry_def)

lemma fresh_reducer_wf: "reducer_wf (fst (fresh_reducer key msgs))"
  by (simp add: fresh_reducer_def wf_new ingest_wf)

lemma install_chats:
  "chats (install_session env key sid msgs pn cols w) =
     (chats w)(key \<mapsto> \<lparr>live_sid = sid, l_reducer = fst (fresh_reducer key msgs),
                       l_last_seen = 0, l_epoch = Suc (history_epoch w)\<rparr>)"
  "history_epoch (install_session env key sid msgs pn cols w) = Suc (history_epoch w)"
  "sink (install_session env key sid msgs pn cols w) = sink w"
  by (cases "sink w"; simp add: install_session_def Let_def)+

lemma install_session_wf: "core_wf w \<Longrightarrow> core_wf (install_session env key sid msgs pn cols w)"
  unfolding core_wf_def install_chats by (auto simp: fresh_reducer_wf le_SucI)

lemma close_session_wf: "core_wf w \<Longrightarrow> core_wf (close_session env key w)"
  by (cases "chats w key") (auto simp: close_session_def Let_def core_wf_def)

lemma repoint_wf: "core_wf w \<Longrightarrow> core_wf (repoint_live_sid key sid w)"
  by (auto simp: repoint_live_sid_def core_wf_def split: option.split)

lemma rebuild_session_wf: "core_wf w \<Longrightarrow> core_wf (fst (rebuild_session sj key msgs ep w))"
  using ingest_wf [where key = key and msgs = msgs]
  by (auto simp: rebuild_session_def Let_def core_wf_def split_beta le_SucI split: option.split)

lemma rebuild_and_emit_wf: "core_wf w \<Longrightarrow> core_wf (rebuild_and_emit env snk key msgs ep w)"
  using rebuild_session_wf [of w "ce_json env" key msgs ep]
  by (auto simp: rebuild_and_emit_def split_beta intro: core_wf_same)

lemma touch_tab_wf: "core_wf w \<Longrightarrow> core_wf (touch_tab key seq ep w)"
  by (simp add: touch_tab_def core_wf_def)

lemma apply_approval_card_wf:
  assumes "reducer_wf r"
  shows "\<exists>r' cs. apply_approval_card sj r key rid c = Some (r', cs) \<and> reducer_wf r'"
proof -
  obtain r' cs where "reducer_apply sj r (approval_card_event key rid c) = Some (r', cs)" "reducer_wf r'"
    by (rule apply_keeps_wf [OF assms])
  with assms show ?thesis by (auto simp: apply_approval_card_def)
qed

lemma reemit_card_wf:
  assumes "core_wf w"
  shows "\<exists>w'. reemit_card sj snk key c w = Some w' \<and> core_wf w'"
proof (cases "str_at c ''request_id'' = '''' \<or>
    str_at c ''request_id'' \<in> set (unwrap_or [] (emitted_approvals w key)) \<or> chats w key = None")
  case True
  with assms show ?thesis by (auto simp: reemit_card_def Let_def)
next
  case False
  then obtain live where live: "chats w key = Some live" by blast
  obtain r cs where r: "apply_approval_card sj (l_reducer live) key (str_at c ''request_id'') c = Some (r, cs)"
    "reducer_wf r"
    using apply_approval_card_wf [OF core_wfD(1) [OF assms live]] by blast
  have "core_wf (w\<lparr>chats := (chats w)(key \<mapsto> live\<lparr>l_reducer := r\<rparr>)\<rparr>)"
    by (rule core_wf_put [OF assms live r(2)])
  with False live r assms show ?thesis
    by (cases cs) (auto simp: reemit_card_def Let_def intro: core_wf_same)
qed

section \<open>Every operation keeps the invariant and returns\<close>

lemma keeps_require [keeps_intros]:
  "act_keeps I require_client" "act_keeps I (require_chat key)" "act_keeps I (client_and_chat key)"
  "act_keeps I require_endpoint" "act_keeps I require_auth"
  unfolding require_client_def require_chat_def client_and_chat_def require_endpoint_def require_auth_def
  by (auto intro!: keeps_intros)

lemma keeps_open_session_inner:
  assumes "rpc_keeps core_wf rpc"
  shows "act_keeps core_wf (open_session_inner env rpc sid cols profile title)"
  unfolding open_session_inner_def Let_def
  by (cases sid) (auto intro!: keeps_intros install_session_wf rpc_keepsD [OF assms])

lemma keeps_open_bot_chat:
  assumes "rpc_keeps core_wf rpc"
  shows "act_keeps core_wf (open_bot_chat env rpc profile cols)"
  unfolding open_bot_chat_def
  by (auto intro!: keeps_intros keeps_open_session_inner [OF assms] rpc_keepsD [OF assms]
      split: bot_chat_resolution.split)

lemma keeps_send:
  assumes "rpc_keeps core_wf rpc"
  shows "act_keeps core_wf (send env rpc key text)"
  unfolding send_def
  by (auto intro!: keeps_intros publish_user_row_wf rpc_keepsD [OF assms])

lemma keeps_interrupt:
  assumes "rpc_keeps core_wf rpc"
  shows "act_keeps core_wf (interrupt rpc key)"
  unfolding interrupt_def api_interrupt_def
  by (auto intro!: keeps_intros rpc_keepsD [OF assms])

lemma keeps_respond_approval:
  assumes "rpc_keeps core_wf rpc"
  shows "act_keeps core_wf (respond_approval env rpc key rid choice)"
  unfolding respond_approval_def api_respond_approval_def
  by (auto intro!: keeps_intros update_transcript_wf resolve_wf rpc_keepsD [OF assms])

lemma keeps_respond_clarify:
  assumes "rpc_keeps core_wf rpc"
  shows "act_keeps core_wf (respond_clarify env rpc key rid ans q)"
  unfolding respond_clarify_def
  by (auto intro!: keeps_intros update_transcript_wf resolve_wf rpc_keepsD [OF assms])

lemma keeps_set_session_title:
  assumes "rpc_keeps core_wf rpc"
  shows "act_keeps core_wf (set_session_title env rpc key title)"
  unfolding set_session_title_def Let_def
  by (auto intro!: keeps_intros deliver_event_wf rpc_keepsD [OF assms] split: option.split)

lemma keeps_exec_plan:
  assumes "rpc_keeps core_wf rpc"
  shows "act_keeps core_wf (exec_plan rpc c sid command)"
  unfolding exec_plan_def slash_exec_def
  by (auto intro!: keeps_intros rpc_keepsD [OF assms] split: sum.split)

lemma keeps_submit_slash:
  assumes "rpc_keeps core_wf rpc"
  shows "act_keeps core_wf (submit_slash_message env rpc c key sid msg row)"
  unfolding submit_slash_message_def
  by (auto intro!: keeps_intros publish_user_row_wf rpc_keepsD [OF assms])

lemma keeps_run_slash_ladder:
  assumes "rpc_keeps core_wf rpc"
  shows "act_keeps core_wf (run_slash_ladder env rpc key command hop)"
proof (induction "Suc max_alias_hops - hop" arbitrary: command hop rule: less_induct)
  case less
  have rec: "act_keeps core_wf (run_slash_ladder env rpc key target (Suc hop))"
    if "\<not> max_alias_hops \<le> hop" for target
    by (rule less) (use that in simp)
  show ?case
    unfolding run_slash_ladder.simps [of env rpc key command hop]
    by (auto intro!: keeps_intros keeps_exec_plan [OF assms] keeps_submit_slash [OF assms] rec
        rpc_keepsD [OF assms] split: slash_plan.split slash_dispatch.split)
qed

lemma keeps_replay_all: "act_keeps core_wf (replay_all env snk evs)"
  unfolding replay_all_def by (auto intro!: keeps_intros deliver_event_wf)

lemma keeps_resume_one:
  assumes "rpc_keeps core_wf rpc"
  shows "act_keeps core_wf (resume_one env rpc c fresh snk key)"
  unfolding resume_one_def apply_replay_def
  by (auto intro!: keeps_intros keeps_replay_all rebuild_and_emit_wf touch_tab_wf repoint_wf
      rpc_keepsD [OF assms] split: option.split sum.split)

lemma keeps_reemit_key:
  assumes "rpc_keeps core_wf rpc"
  shows "act_keeps core_wf (reemit_key env rpc c snk key)"
  unfolding reemit_key_def reemit_cards_def pending_approvals_def
  by (auto intro!: keeps_intros reemit_card_wf rpc_keepsD [OF assms] split: option.split sum.split)

lemma keeps_resume_all:
  assumes "rpc_keeps core_wf rpc"
  shows "act_keeps core_wf (resume_all env rpc order c fresh snk)"
  unfolding resume_all_def reemit_approvals_def
  by (auto intro!: keeps_intros keeps_resume_one [OF assms] keeps_reemit_key [OF assms])

lemma keeps_catch_up_all:
  assumes "rpc_keeps core_wf rpc"
  shows "act_keeps core_wf (catch_up_all env rpc c snk)"
  unfolding catch_up_all_def catch_up_one_def
  by (auto intro!: keeps_intros keeps_replay_all rpc_keepsD [OF assms] split: sum.split)

end
