(* ===== verification/Core_Steps.thy ===== *)
theory Core_Steps
  imports Core_Facts
begin

text \<open>
  The core as a concurrent system: its tasks interleave at the sections they run under the
  state lock. A step relation has one rule per such section that touches transcripts or the
  routing; every asynchronous operation is a sequence of these steps and of the steps of
  other tasks. The platform's row lists are reconstructed from the calls of the sink.
\<close>

section \<open>The observer at the sink\<close>

definition ui_apply :: "string \<Rightarrow> change_dto \<Rightarrow> string list \<Rightarrow> string list" where
  "ui_apply key d ui =
     (if dto_key d \<noteq> key then ui
      else case dto_kind d of
        Kind_RowAppended \<Rightarrow> put_at '''' (dto_index d) (dto_row_json d) ui
      | Kind_RowUpdated \<Rightarrow> put_at '''' (dto_index d) (dto_row_json d) ui
      | Kind_Reset \<Rightarrow> []
      | Kind_HeaderUpdated \<Rightarrow> ui)"

definition ui_call :: "nat \<Rightarrow> string \<Rightarrow> nat \<times> sink_call \<Rightarrow> string list \<Rightarrow> string list" where
  "ui_call snk key c ui =
     (case c of (s, On_Transcript d) \<Rightarrow> (if s = snk then ui_apply key d ui else ui) | _ \<Rightarrow> ui)"

text \<open>The row list of tab \<open>key\<close> in the app behind sink \<open>snk\<close>.\<close>

definition sink_rows :: "nat \<Rightarrow> string \<Rightarrow> (nat \<times> sink_call) list \<Rightarrow> string list" where
  "sink_rows snk key calls = fold (ui_call snk key) calls []"

definition shown :: "serde \<Rightarrow> reducer \<Rightarrow> string list" where
  "shown sj r = rendered (\<lambda>row. row_json sj (Some row)) r"

definition in_step :: "serde \<Rightarrow> nat \<Rightarrow> 'u core \<Rightarrow> bool" where
  "in_step sj snk w \<longleftrightarrow>
     (\<forall>key live. chats w key = Some live \<longrightarrow> sink_rows snk key (sink_calls w) = shown sj (l_reducer live))"

text \<open>The index of a DTO is 32 bits wide; beyond that the mirror cannot be kept.\<close>

definition small :: "'u core \<Rightarrow> bool" where
  "small w \<longleftrightarrow> (\<forall>key live. chats w key = Some live \<longrightarrow> length (r_rows (l_reducer live)) \<le> u32_max)"

lemma shown_slot: "slot_at '''' (shown sj r) i = row_json sj (row_at (r_rows r) i)"
  by (simp add: shown_def rendered_def slot_at_def row_at_def row_json_def)

lemma ui_apply_dto:
  assumes "in_range (length (shown sj r)) c" and "length (r_rows r) \<le> u32_max"
  shows "ui_apply key (change_to_dto sj key c (r_rows r) t) ui = observe '''' (shown sj r) c ui"
  using assms
  by (cases c) (simp_all add: ui_apply_def shown_slot clamp_u32_def, simp_all add: shown_def rendered_def)

lemma fold_ui_dtos:
  assumes "\<forall>c \<in> set cs. in_range (length (shown sj r)) c" and "length (r_rows r) \<le> u32_max"
  shows "fold (ui_call snk key) (map (\<lambda>c. (snk, On_Transcript (change_to_dto sj key c (r_rows r) t))) cs) ui
         = replay '''' (shown sj r) cs ui"
  using assms by (induction cs arbitrary: ui) (simp_all add: ui_call_def ui_apply_dto)

lemma dto_key [simp]: "dto_key (change_to_dto sj key c rs t) = key"
  by (cases c) simp_all

lemma fold_ui_other:
  assumes "k \<noteq> key"
  shows "fold (ui_call snk k) (map (\<lambda>c. (s, On_Transcript (change_to_dto sj key (g c) rs t))) cs) ui = ui"
  using assms by (induction cs arbitrary: ui) (simp_all add: ui_call_def ui_apply_def)

lemma sink_rows_append: "sink_rows snk key (cs @ ds) = fold (ui_call snk key) ds (sink_rows snk key cs)"
  by (simp add: sink_rows_def)

lemma emit_other:
  "k \<noteq> key \<Longrightarrow> sink_rows snk k (sink_calls (emit sj s key cs rs t w)) = sink_rows snk k (sink_calls w)"
  by (simp add: emit_def sink_rows_append fold_ui_other)

lemma emit_tracks:
  assumes "tracks '''' (sink_rows snk key (sink_calls w)) (unwrap_changes cs) (shown sj r)"
    and "length (r_rows r) \<le> u32_max"
  shows "sink_rows snk key (sink_calls (emit sj snk key cs (r_rows r) t w)) = shown sj r"
proof -
  have "sink_rows snk key (sink_calls (emit sj snk key cs (r_rows r) t w)) =
      fold (ui_call snk key)
        (map (\<lambda>c. (snk, On_Transcript (change_to_dto sj key c (r_rows r) t))) (unwrap_changes cs))
        (sink_rows snk key (sink_calls w))"
    by (simp add: emit_def sink_rows_append unwrap_changes_def comp_def)
  also have "\<dots> = replay '''' (shown sj r) (unwrap_changes cs) (sink_rows snk key (sink_calls w))"
    by (rule fold_ui_dtos) (use assms in \<open>simp_all add: tracks_def\<close>)
  finally show ?thesis using assms(1) by (simp add: tracks_def)
qed

section \<open>Atomic sections\<close>

text \<open>
  \<open>reducer_op\<close> on the transcript of \<open>key\<close>, delivered to the sink: what \<open>send\<close>,
  \<open>respond_approval\<close>, \<open>respond_clarify\<close>, \<open>deliver_event\<close>, the rebuild and the approval
  re-emission do to a tab.
\<close>

definition transcript_section ::
  "serde \<Rightarrow> nat \<Rightarrow> string \<Rightarrow> 'u core \<Rightarrow> 'u core \<Rightarrow> bool" where
  "transcript_section sj snk key w w' \<longleftrightarrow>
     (\<exists>live live' cs t v opn.
        chats w key = Some live \<and>
        reducer_step sj (l_reducer live) opn = Some (l_reducer live', unwrap_changes cs) \<and>
        chats v = (chats w)(key \<mapsto> live') \<and> sink_calls v = sink_calls w \<and>
        w' = emit sj snk key cs (r_rows (l_reducer live')) t v \<and>
        sink w' = sink w \<and>
        (l_epoch live' = l_epoch live \<and> history_epoch w' = history_epoch w
           \<and> (\<forall>k. opn \<noteq> Op_Reset k) \<and> (\<forall>k ms. opn \<noteq> Op_Ingest k ms)
         \<or> l_epoch live' = Suc (history_epoch w) \<and> history_epoch w' = Suc (history_epoch w)))"

inductive core_step :: "'u core_env \<Rightarrow> nat \<Rightarrow> 'u core \<Rightarrow> 'u core \<Rightarrow> bool" for env snk where
  transcript: "transcript_section (ce_json env) snk key w w' \<Longrightarrow> core_step env snk w w'"
| install: "sink w = Some snk \<Longrightarrow> msgs \<noteq> [] \<or> sink_rows snk key (sink_calls w) = [] \<Longrightarrow>
    core_step env snk w (install_session env key sid msgs pn cols w)"
| close: "core_step env snk w (close_session env key w)"
| bookkeeping: "chats w' = chats w \<Longrightarrow> history_epoch w \<le> history_epoch w' \<Longrightarrow>
    sink_calls w' = sink_calls w \<or> (\<exists>s st. sink_calls w' = sink_calls w @ [(s, On_Connection st)]) \<Longrightarrow>
    sink w' = sink w \<Longrightarrow> core_step env snk w w'"
| repoint: "core_step env snk w (repoint_live_sid key sid w)"
| forget: "chats w' = Map.empty \<Longrightarrow> sink_calls w' = sink_calls w \<Longrightarrow> sink w' = sink w \<Longrightarrow>
    history_epoch w \<le> history_epoch w' \<Longrightarrow> core_step env snk w w'"

lemma reducer_step_shown:
  assumes "reducer_wf r" and "reducer_step sj r opn = Some (r', cs)"
  shows "reducer_wf r'" "tracks '''' (shown sj r) cs (shown sj r')"
  using reducer_stream.step_inv [OF assms] reducer_stream.step_tracks [OF assms]
  by (simp_all add: shown_def)

lemma transcript_section_wf:
  assumes "transcript_section sj snk key w w'" and "core_wf w"
  shows "core_wf w'"
proof -
  from assms(1) obtain live live' cs t v opn where
    s: "chats w key = Some live" "reducer_step sj (l_reducer live) opn = Some (l_reducer live', unwrap_changes cs)"
      "chats v = (chats w)(key \<mapsto> live')" "w' = emit sj snk key cs (r_rows (l_reducer live')) t v"
      "(l_epoch live' = l_epoch live \<and> history_epoch w' = history_epoch w) \<or>
       (l_epoch live' = Suc (history_epoch w) \<and> history_epoch w' = Suc (history_epoch w))"
    unfolding transcript_section_def by blast
  have "reducer_wf (l_reducer live')"
    by (rule reducer_step_shown(1) [OF core_wfD(1) [OF assms(2) s(1)] s(2)])
  moreover have "l_epoch live' \<le> history_epoch w'"
    using s(5) core_wfD(2) [OF assms(2) s(1)] by auto
  moreover have "history_epoch w \<le> history_epoch w'" using s(5) by auto
  ultimately show ?thesis
    using assms(2) s(3,4) unfolding core_wf_def by (auto split: if_splits) (meson le_trans)
qed

lemma core_step_wf: "core_step env snk w w' \<Longrightarrow> core_wf w \<Longrightarrow> core_wf w'"
proof (induction rule: core_step.induct)
  case (forget w' w)
  then show ?case by (simp add: core_wf_def)
qed (auto intro: transcript_section_wf install_session_wf close_session_wf repoint_wf core_wf_same)

lemma transcript_section_in_step:
  assumes "transcript_section sj snk key w w'" and "core_wf w" and "in_step sj snk w" and "small w'"
  shows "in_step sj snk w'"
  unfolding in_step_def
proof (intro allI impI)
  fix k l assume l: "chats w' k = Some l"
  from assms(1) obtain live live' cs t v opn where
    s: "chats w key = Some live" "reducer_step sj (l_reducer live) opn = Some (l_reducer live', unwrap_changes cs)"
      "chats v = (chats w)(key \<mapsto> live')" "sink_calls v = sink_calls w"
      "w' = emit sj snk key cs (r_rows (l_reducer live')) t v"
    unfolding transcript_section_def by blast
  show "sink_rows snk k (sink_calls w') = shown sj (l_reducer l)"
  proof (cases "k = key")
    case False
    then have "chats w k = Some l" using l s(3,5) by simp
    with assms(3) False s(4,5) show ?thesis by (simp add: emit_other in_step_def)
  next
    case True
    then have ll: "l = live'" using l s(3,5) by simp
    have "tracks '''' (sink_rows snk key (sink_calls v)) (unwrap_changes cs) (shown sj (l_reducer live'))"
      using reducer_step_shown(2) [OF core_wfD(1) [OF assms(2) s(1)] s(2)] assms(3) s(1,4)
      by (simp add: in_step_def)
    moreover have "length (r_rows (l_reducer live')) \<le> u32_max"
      using assms(4) s(3,5) unfolding small_def by (metis emit_frame(1) fun_upd_same)
    ultimately show ?thesis using True ll s(5) by (simp add: emit_tracks)
  qed
qed

lemma fresh_reducer_tracks:
  assumes "msgs \<noteq> [] \<or> ui = []"
  shows "tracks '''' ui (unwrap_changes (snd (fresh_reducer key msgs))) (shown sj (fst (fresh_reducer key msgs)))"
proof (cases "msgs = []")
  case True
  with assms show ?thesis
    by (simp add: fresh_reducer_def shown_def rendered_def unwrap_changes_def tracks_Nil)
next
  case False
  obtain r' where "ingest_resume_messages new_reducer key msgs =
      (r', wrap key (Reset # map RowAppended [0..<length (filter is_object msgs)]))"
    "r_rows r' = history_rows 0 msgs"
    by (rule ingest_resume_messages_result)
  with False show ?thesis by (simp add: fresh_reducer_def tracks_rebuild shown_def rendered_def)
qed

lemma install_in_step:
  assumes "sink w = Some snk" and "msgs \<noteq> [] \<or> sink_rows snk key (sink_calls w) = []"
    and "in_step (ce_json env) snk w" and "small (install_session env key sid msgs pn cols w)"
  shows "in_step (ce_json env) snk (install_session env key sid msgs pn cols w)"
  unfolding in_step_def
proof (intro allI impI)
  let ?w' = "install_session env key sid msgs pn cols w"
  define r where "r = fst (fresh_reducer key msgs)"
  define v where "v = install_state env key sid r pn cols w"
  have w': "?w' = emit (ce_json env) snk key (snd (fresh_reducer key msgs)) (r_rows r) '''' v"
    using assms(1) by (simp add: install_session_def Let_def r_def v_def)
  have calls: "sink_calls v = sink_calls w" by (simp add: v_def)
  fix k l assume l: "chats ?w' k = Some l"
  show "sink_rows snk k (sink_calls ?w') = shown (ce_json env) (l_reducer l)"
  proof (cases "k = key")
    case False
    then have "chats w k = Some l" using l by (simp add: install_chats)
    with assms(3) False w' calls show ?thesis by (simp add: emit_other in_step_def)
  next
    case True
    then have lr: "l_reducer l = r" using l by (auto simp: install_chats r_def)
    have "tracks '''' (sink_rows snk key (sink_calls v)) (unwrap_changes (snd (fresh_reducer key msgs)))
        (shown (ce_json env) r)"
      unfolding r_def by (rule fresh_reducer_tracks) (use assms(2) calls in simp)
    moreover have "length (r_rows r) \<le> u32_max"
      using assms(4) l lr unfolding small_def by blast
    ultimately show ?thesis using True lr w' by (simp add: emit_tracks)
  qed
qed

lemma in_step_bookkeeping:
  assumes "chats w' = chats w"
    and "sink_calls w' = sink_calls w \<or> (\<exists>s st. sink_calls w' = sink_calls w @ [(s, On_Connection st)])"
    and "in_step sj snk w"
  shows "in_step sj snk w'"
proof -
  have "sink_rows snk k (sink_calls w') = sink_rows snk k (sink_calls w)" for k
    using assms(2) by (auto simp: sink_rows_append ui_call_def)
  with assms(1,3) show ?thesis by (simp add: in_step_def)
qed

lemma core_step_in_step:
  "core_step env snk w w' \<Longrightarrow> core_wf w \<Longrightarrow> in_step (ce_json env) snk w \<Longrightarrow> small w' \<Longrightarrow>
   in_step (ce_json env) snk w'"
proof (induction rule: core_step.induct)
  case (transcript key w w')
  then show ?case by (blast intro: transcript_section_in_step)
next
  case (install w msgs key sid pn cols)
  then show ?case by (blast intro: install_in_step)
next
  case (close w key)
  then show ?case
    by (cases "chats w key") (auto simp: close_session_def Let_def in_step_def split: if_splits)
next
  case (bookkeeping w' w)
  then show ?case by (blast intro: in_step_bookkeeping)
next
  case (repoint w key sid)
  then show ?case
    by (auto simp: repoint_live_sid_def in_step_def split: option.split)
next
  case (forget w' w)
  then show ?case by (simp add: in_step_def)
qed

text \<open>Runs whose transcripts stay within 32-bit indices.\<close>

definition bounded_step :: "'u core_env \<Rightarrow> nat \<Rightarrow> 'u core \<Rightarrow> 'u core \<Rightarrow> bool" where
  "bounded_step env snk w w' \<longleftrightarrow> core_step env snk w w' \<and> small w'"

lemma bounded_steps_keep:
  assumes "(bounded_step env snk)\<^sup>*\<^sup>* w w'" and "core_wf w" and "in_step (ce_json env) snk w"
  shows "core_wf w' \<and> in_step (ce_json env) snk w'"
  using assms(1)
proof (induction rule: rtranclp_induct)
  case base
  with assms show ?case by simp
next
  case (step y z)
  then show ?case
    unfolding bounded_step_def by (blast intro: core_step_wf core_step_in_step)
qed

section \<open>The sections of the code are steps\<close>

text \<open>The states in which the core runs once a sink is registered.\<close>

definition running :: "nat \<Rightarrow> 'u core \<Rightarrow> bool" where
  "running snk w \<longleftrightarrow> core_wf w \<and> sink w = Some snk"

lemma step_stutter: "core_step env snk w w"
  by (rule core_step.bookkeeping) simp_all

lemma section_same_epoch:
  assumes "chats w key = Some live" and "reducer_step sj (l_reducer live) opn = Some (r, unwrap_changes cs)"
    and "\<forall>k. opn \<noteq> Op_Reset k" "\<forall>k ms. opn \<noteq> Op_Ingest k ms"
    and "chats v = (chats w)(key \<mapsto> live\<lparr>l_reducer := r, l_last_seen := n\<rparr>)" and "sink_calls v = sink_calls w"
    and "sink v = sink w" "history_epoch v = history_epoch w"
  shows "transcript_section sj snk key w (emit sj snk key cs (r_rows r) t v)"
  unfolding transcript_section_def
  by (intro exI [of _ live] exI [of _ "live\<lparr>l_reducer := r, l_last_seen := n\<rparr>"] exI [of _ cs]
      exI [of _ t] exI [of _ v] exI [of _ opn] conjI disjI1) (use assms in simp_all)

lemma plain_Some: "res = Some (r, cs) \<Longrightarrow> plain res = Some (r, unwrap_changes cs)"
  by (simp add: plain_def)

lemma deliver_event_step:
  assumes "core_wf w" and "deliver_event (ce_json env) ev snk w = Some w'"
  shows "core_step env snk w w'"
  using assms(1)
proof (cases rule: route_event_cases [where sj = "ce_json env" and ev = ev])
  case none
  with assms(2) show ?thesis by (simp add: deliver_event_def step_stutter)
next
  case (routed key live r changes)
  let ?n = "case ev_seq ev of Some s \<Rightarrow> max (l_last_seen live) s | None \<Rightarrow> l_last_seen live"
  let ?t = "h_title (header (r_state r))"
  define v where "v = w\<lparr>chats := (chats w)(key \<mapsto> live\<lparr>l_reducer := r, l_last_seen := ?n\<rparr>),
      reg := note_delivery ev key changes ?t (reg w), registry_dirty := True\<rparr>"
  have "transcript_section (ce_json env) snk key w (emit (ce_json env) snk key changes (r_rows r) ?t v)"
    by (rule section_same_epoch [OF routed(2), where opn = "Op_Apply ev" and n = ?n])
      (simp_all add: plain_Some [OF routed(3)] v_def)
  moreover have "w' = emit (ce_json env) snk key changes (r_rows r) ?t v"
    using assms(2) unfolding deliver_event_def routed(5) by (simp add: v_def rows_of_def)
  ultimately show ?thesis by (auto intro: core_step.transcript)
qed

lemma update_transcript_step:
  assumes "sink w = Some snk" and "update_transcript (ce_json env) key f w = Some w'"
    and "\<And>live r cs. chats w key = Some live \<Longrightarrow> f live = Some (r, cs) \<Longrightarrow>
       (r = l_reducer live \<and> cs = []) \<or>
       (\<exists>opn. reducer_step (ce_json env) (l_reducer live) opn = Some (r, unwrap_changes cs) \<and>
              (\<forall>k. opn \<noteq> Op_Reset k) \<and> (\<forall>k ms. opn \<noteq> Op_Ingest k ms))"
  shows "core_step env snk w w'"
proof (cases "chats w key")
  case None
  with assms(2) show ?thesis by (simp add: update_transcript_def step_stutter)
next
  case (Some live)
  with assms(1,2) obtain r cs where f: "f live = Some (r, cs)"
    and w': "w' = emit (ce_json env) snk key cs (r_rows r) ''''
               (w\<lparr>chats := (chats w)(key \<mapsto> live\<lparr>l_reducer := r\<rparr>)\<rparr>)"
    by (auto simp: update_transcript_def Let_def split: option.splits)
  from assms(3) [OF Some f] show ?thesis
  proof (elim disjE exE conjE)
    assume "r = l_reducer live" "cs = []"
    then have "w' = w" using Some w' by (simp add: emit_def fun_upd_idem)
    then show ?thesis by (simp add: step_stutter)
  next
    fix opn assume opn: "reducer_step (ce_json env) (l_reducer live) opn = Some (r, unwrap_changes cs)"
      "\<forall>k. opn \<noteq> Op_Reset k" "\<forall>k ms. opn \<noteq> Op_Ingest k ms"
    have "transcript_section (ce_json env) snk key w w'"
      unfolding w'
      by (rule section_same_epoch [OF Some opn, where n = "l_last_seen live"]) simp_all
    then show ?thesis by (rule core_step.transcript)
  qed
qed

lemma publish_user_row_step:
  assumes "sink w = Some snk" and "publish_user_row (ce_json env) key text epoch w = Some w'"
  shows "core_step env snk w w'"
  using assms(2) unfolding publish_user_row_def
proof (rule update_transcript_step [OF assms(1)])
  fix live r cs
  assume "Some (if l_epoch live = epoch then append_user_row (l_reducer live) key text
                else (l_reducer live, [])) = Some (r, cs)"
  then show "(r = l_reducer live \<and> cs = []) \<or>
       (\<exists>opn. reducer_step (ce_json env) (l_reducer live) opn = Some (r, unwrap_changes cs) \<and>
              (\<forall>k. opn \<noteq> Op_Reset k) \<and> (\<forall>k ms. opn \<noteq> Op_Ingest k ms))"
    by (cases "l_epoch live = epoch")
      (auto intro!: exI [of _ "Op_Append_User key text"] simp: append_user_row_def)
qed

lemma resolve_steps:
  assumes "sink w = Some snk"
  shows "update_transcript (ce_json env) key (\<lambda>l. resolve_approval (l_reducer l) k rid) w = Some w' \<Longrightarrow>
         core_step env snk w w'"
    and "update_transcript (ce_json env) key (\<lambda>l. resolve_clarify (l_reducer l) k rid) w = Some w' \<Longrightarrow>
         core_step env snk w w'"
proof -
  show "core_step env snk w w'"
    if "update_transcript (ce_json env) key (\<lambda>l. resolve_approval (l_reducer l) k rid) w = Some w'"
    by (rule update_transcript_step [OF assms that])
      (auto intro!: exI [of _ "Op_Resolve_Approval k rid"] simp: plain_Some)
  show "core_step env snk w w'"
    if "update_transcript (ce_json env) key (\<lambda>l. resolve_clarify (l_reducer l) k rid) w = Some w'"
    by (rule update_transcript_step [OF assms that])
      (auto intro!: exI [of _ "Op_Resolve_Clarify k rid"] simp: plain_Some)
qed

lemma rebuild_and_emit_step: "core_step env snk w (rebuild_and_emit env snk key msgs ep w)"
proof (cases "chats w key")
  case None
  then show ?thesis
    by (intro core_step.bookkeeping)
      (simp_all add: rebuild_and_emit_def rebuild_session_def Let_def emit_dtos_def)
next
  case (Some live)
  define r where "r = fst (ingest_resume_messages (l_reducer live) key msgs)"
  define cs where "cs = snd (ingest_resume_messages (l_reducer live) key msgs)"
  define live' where "live' = live\<lparr>l_epoch := Suc (history_epoch w), l_reducer := r, l_last_seen := 0\<rparr>"
  define v where "v = fst (rebuild_session (ce_json env) key msgs ep w)"
  have v: "chats v = (chats w)(key \<mapsto> live')" "sink_calls v = sink_calls w" "sink v = sink w"
    "history_epoch v = Suc (history_epoch w)"
    using Some by (simp_all add: v_def rebuild_session_def Let_def split_beta live'_def r_def)
  have w': "rebuild_and_emit env snk key msgs ep w = emit (ce_json env) snk key cs (r_rows (l_reducer live')) '''' v"
    using Some
    by (simp add: rebuild_and_emit_def v_def rebuild_session_def Let_def split_beta emit_dtos_def emit_def
        live'_def r_def cs_def comp_def)
  have "transcript_section (ce_json env) snk key w (rebuild_and_emit env snk key msgs ep w)"
    unfolding transcript_section_def
    by (intro exI [of _ live] exI [of _ live'] exI [of _ cs] exI [of _ "''''"] exI [of _ v]
        exI [of _ "Op_Ingest key msgs"] conjI disjI2)
      (use Some v w' in \<open>simp_all add: plain_def live'_def r_def cs_def split_beta\<close>)
  then show ?thesis by (rule core_step.transcript)
qed

lemma reemit_card_step:
  assumes "core_wf w" and "reemit_card (ce_json env) snk key c w = Some w'"
  shows "core_step env snk w w'"
proof (cases "w' = w")
  case True
  then show ?thesis by (simp add: step_stutter)
next
  case False
  define rid where "rid = str_at c ''request_id''"
  from assms(2) False obtain live where live: "chats w key = Some live"
    and ne: "rid \<noteq> ''''" "rid \<notin> set (unwrap_or [] (emitted_approvals w key))"
      "\<not> has_unresolved_approval (l_reducer live) rid"
    by (auto simp: reemit_card_def Let_def rid_def split: if_splits option.splits)
  obtain r changes where a: "reducer_apply (ce_json env) (l_reducer live) (approval_card_event key rid c) = Some (r, changes)"
    by (rule apply_keeps_wf [OF core_wfD(1) [OF assms(1) live]])
  have opn: "reducer_step (ce_json env) (l_reducer live) (Op_Approval_Card key rid c) = Some (r, unwrap_changes changes)"
    using ne(1) a by (simp add: apply_approval_card_def plain_def)
  show ?thesis
  proof (cases "changes = []")
    case True
    then have "w' = emit (ce_json env) snk key changes (r_rows r) ''''
        (w\<lparr>chats := (chats w)(key \<mapsto> live\<lparr>l_reducer := r\<rparr>)\<rparr>)"
      using assms(2) live ne a by (simp add: reemit_card_def apply_approval_card_def emit_def flip: rid_def)
    moreover have "transcript_section (ce_json env) snk key w (emit (ce_json env) snk key changes (r_rows r) ''''
        (w\<lparr>chats := (chats w)(key \<mapsto> live\<lparr>l_reducer := r\<rparr>)\<rparr>))"
      by (rule section_same_epoch [OF live opn, where n = "l_last_seen live"]) simp_all
    ultimately show ?thesis by (auto intro: core_step.transcript)
  next
    case False
    define v where "v = w\<lparr>chats := (chats w)(key \<mapsto> live\<lparr>l_reducer := r\<rparr>),
        emitted_approvals := (emitted_approvals w)(key \<mapsto> unwrap_or [] (emitted_approvals w key) @ [rid])\<rparr>"
    have "w' = emit (ce_json env) snk key changes (r_rows r) '''' v"
      using assms(2) live ne a False
      by (simp add: reemit_card_def apply_approval_card_def v_def flip: rid_def)
    moreover have "transcript_section (ce_json env) snk key w (emit (ce_json env) snk key changes (r_rows r) '''' v)"
      by (rule section_same_epoch [OF live opn, where n = "l_last_seen live"]) (simp_all add: v_def)
    ultimately show ?thesis by (auto intro: core_step.transcript)
  qed
qed

lemma core_step_sink: "core_step env snk w w' \<Longrightarrow> sink w' = sink w"
proof (induction rule: core_step.induct)
  case (transcript key w w')
  then show ?case unfolding transcript_section_def by blast
next
  case (close w key)
  then show ?case by (auto simp: close_session_def Let_def split: option.split)
qed (simp_all add: install_chats repoint_live_sid_def split: option.split)

lemma running_step: "core_step env snk w w' \<Longrightarrow> running snk w \<Longrightarrow> running snk w'"
  unfolding running_def using core_step_wf core_step_sink by metis

lemma running_steps: "(core_step env snk)\<^sup>*\<^sup>* w w' \<Longrightarrow> running snk w \<Longrightarrow> running snk w'"
  by (induction rule: rtranclp_induct) (auto intro: running_step)

end
