(* ===== verification/Core_Runs.thy ===== *)
theory Core_Runs
  imports Core_Steps
begin

text \<open>
  The asynchronous operations are sequences of atomic sections, whatever sections of other
  tasks run while they await an answer; and what such sequences guarantee.
\<close>

section \<open>Operations as runs\<close>

definition act_within :: "'u core_env \<Rightarrow> nat \<Rightarrow> ('u core, 'a) act \<Rightarrow> bool" where
  "act_within env snk m \<longleftrightarrow>
     (\<forall>w res w'. running snk w \<longrightarrow> m w = Some (res, w') \<longrightarrow> (core_step env snk)\<^sup>*\<^sup>* w w')"

text \<open>While a call is in flight the other tasks run sections of their own.\<close>

definition rpc_within :: "'u core_env \<Rightarrow> nat \<Rightarrow> 'u rpc \<Rightarrow> bool" where
  "rpc_within env snk rpc \<longleftrightarrow>
     (\<forall>c m p w. running snk w \<longrightarrow> (core_step env snk)\<^sup>*\<^sup>* w (snd (rpc c m p w)))"

named_theorems within_intros "an action is a run of atomic sections"

lemma act_withinD:
  "act_within env snk m \<Longrightarrow> running snk w \<Longrightarrow> m w = Some (res, w') \<Longrightarrow> (core_step env snk)\<^sup>*\<^sup>* w w'"
  unfolding act_within_def by blast

lemma returns_within:
  assumes "act_keeps core_wf m" and "act_within env snk m" and "running snk w"
  shows "\<exists>res w'. m w = Some (res, w') \<and> (core_step env snk)\<^sup>*\<^sup>* w w'"
  using keeps_returns [OF assms(1)] act_withinD [OF assms(2,3)] assms(3) unfolding running_def by blast

lemma rpc_withinD:
  "rpc_within env snk rpc \<Longrightarrow> running snk w \<Longrightarrow> (core_step env snk)\<^sup>*\<^sup>* w (snd (rpc c m p w))"
  unfolding rpc_within_def by blast

lemma within_ok [within_intros]: "act_within env snk (act_ok a)"
  by (simp add: act_within_def act_ok_def)

lemma within_fail [within_intros]: "act_within env snk (act_fail e)"
  by (simp add: act_within_def act_fail_def)

lemma within_get [within_intros]: "act_within env snk (act_get f)"
  by (simp add: act_within_def act_get_def)

lemma within_of_option [within_intros]: "act_within env snk (act_of_option e x)"
  by (cases x) (simp_all add: act_of_option_def within_ok within_fail)

lemma within_bind [within_intros]:
  assumes "act_within env snk m" and "\<And>a. act_within env snk (f a)"
  shows "act_within env snk (act_bind m f)"
  unfolding act_within_def
proof (intro allI impI)
  fix w res w' assume w: "running snk w" and b: "act_bind m f w = Some (res, w')"
  then obtain res1 w1 where m: "m w = Some (res1, w1)"
    by (auto simp: act_bind_def split: option.splits)
  have 1: "(core_step env snk)\<^sup>*\<^sup>* w w1" by (rule act_withinD [OF assms(1) w m])
  show "(core_step env snk)\<^sup>*\<^sup>* w w'"
  proof (cases res1)
    case (Inl e)
    with b m 1 show ?thesis by (simp add: act_bind_def)
  next
    case (Inr a)
    with b m have "f a w1 = Some (res, w')" by (simp add: act_bind_def)
    from act_withinD [OF assms(2) running_steps [OF 1 w] this] 1 show ?thesis
      by (rule rtranclp_trans [rotated])
  qed
qed

lemma within_modify [within_intros]:
  "(\<And>w. running snk w \<Longrightarrow> core_step env snk w (f w)) \<Longrightarrow> act_within env snk (act_modify f)"
  by (auto simp: act_within_def act_modify_def)

lemma within_checked [within_intros]:
  "(\<And>w w'. running snk w \<Longrightarrow> f w = Some w' \<Longrightarrow> core_step env snk w w') \<Longrightarrow> act_within env snk (act_checked f)"
  by (auto simp: act_within_def act_checked_def)

lemma within_await [within_intros]:
  "(\<And>w. running snk w \<Longrightarrow> (core_step env snk)\<^sup>*\<^sup>* w (snd (call w))) \<Longrightarrow> act_within env snk (act_await call)"
  unfolding act_within_def act_await_def by (auto split: prod.splits sum.splits) (metis snd_conv)+

lemma within_try [within_intros]:
  "(\<And>w. running snk w \<Longrightarrow> (core_step env snk)\<^sup>*\<^sup>* w (snd (call w))) \<Longrightarrow> act_within env snk (act_try call)"
  unfolding act_within_def act_try_def by (auto split: prod.splits) (metis snd_conv)

lemma within_each [within_intros]: "(\<And>x. act_within env snk (f x)) \<Longrightarrow> act_within env snk (act_each f xs)"
  by (induction xs) (auto intro: within_intros)

lemma within_require [within_intros]:
  "act_within env snk require_client" "act_within env snk (require_chat key)"
  "act_within env snk (client_and_chat key)"
  unfolding require_client_def require_chat_def client_and_chat_def by (auto intro!: within_intros)

lemma within_deliver [within_intros]: "act_within env snk (act_checked (deliver_event (ce_json env) ev snk))"
  by (rule within_checked) (auto simp: running_def intro: deliver_event_step)

lemma within_publish [within_intros]: "act_within env snk (act_checked (publish_user_row (ce_json env) key text ep))"
  by (rule within_checked) (auto simp: running_def intro: publish_user_row_step)

lemma within_resolve [within_intros]:
  "act_within env snk (act_checked (update_transcript (ce_json env) key (\<lambda>l. resolve_approval (l_reducer l) k rid)))"
  "act_within env snk (act_checked (update_transcript (ce_json env) key (\<lambda>l. resolve_clarify (l_reducer l) k rid)))"
  by (rule within_checked; auto simp: running_def intro: resolve_steps)+

lemma within_send: "rpc_within env snk rpc \<Longrightarrow> act_within env snk (send env rpc key text)"
  unfolding send_def by (auto intro!: within_intros dest: rpc_withinD)

lemma within_respond:
  assumes "rpc_within env snk rpc"
  shows "act_within env snk (respond_approval env rpc key rid choice)"
    "act_within env snk (respond_clarify env rpc key rid ans q)"
  unfolding respond_approval_def respond_clarify_def api_respond_approval_def
  using rpc_withinD [OF assms] by (auto intro!: within_intros)

lemma within_interrupt: "rpc_within env snk rpc \<Longrightarrow> act_within env snk (interrupt rpc key)"
  unfolding interrupt_def api_interrupt_def by (auto intro!: within_intros dest: rpc_withinD)

lemma within_submit_slash:
  "rpc_within env snk rpc \<Longrightarrow> act_within env snk (submit_slash_message env rpc c key sid msg row)"
  unfolding submit_slash_message_def by (auto intro!: within_intros dest: rpc_withinD)

lemma within_exec_plan: "rpc_within env snk rpc \<Longrightarrow> act_within env snk (exec_plan rpc c sid command)"
  unfolding exec_plan_def slash_exec_def
  by (auto intro!: within_intros dest: rpc_withinD split: sum.split)

lemma within_run_slash:
  assumes "rpc_within env snk rpc"
  shows "act_within env snk (run_slash_ladder env rpc key command hop)"
proof (induction "Suc max_alias_hops - hop" arbitrary: command hop rule: less_induct)
  case less
  have rec: "act_within env snk (run_slash_ladder env rpc key target (Suc hop))"
    if "\<not> max_alias_hops \<le> hop" for target
    by (rule less) (use that in simp)
  show ?case
    unfolding run_slash_ladder.simps [of env rpc key command hop]
    using rpc_withinD [OF assms]
    by (auto intro!: within_intros within_exec_plan [OF assms] within_submit_slash [OF assms] rec
        split: slash_plan.split slash_dispatch.split)
qed

lemma within_replay_all: "act_within env snk (replay_all env snk evs)"
  unfolding replay_all_def by (auto intro!: within_intros)

lemma step_touch: "core_step env snk w (touch_tab key seq ep w)"
  by (rule core_step.bookkeeping) (simp_all add: touch_tab_def)

lemma within_apply_replay: "act_within env snk (apply_replay env snk key rec fresh resumed rp)"
  unfolding apply_replay_def
  by (auto intro!: within_intros within_replay_all rebuild_and_emit_step step_touch)

lemma within_resume_one:
  assumes "rpc_within env snk rpc"
  shows "act_within env snk (resume_one env rpc c fresh snk key)"
  unfolding resume_one_def
  using rpc_withinD [OF assms]
  by (auto intro!: within_intros within_apply_replay core_step.repoint split: option.split sum.split)

lemma within_reemit_key:
  assumes "rpc_within env snk rpc"
  shows "act_within env snk (reemit_key env rpc c snk key)"
  unfolding reemit_key_def reemit_cards_def pending_approvals_def
  using rpc_withinD [OF assms]
  by (auto intro!: within_intros within_checked reemit_card_step simp: running_def
      split: option.split sum.split)

lemma within_resume_all:
  assumes "rpc_within env snk rpc"
  shows "act_within env snk (resume_all env rpc order c fresh snk)"
  unfolding resume_all_def reemit_approvals_def
  by (auto intro!: within_intros within_resume_one [OF assms] within_reemit_key [OF assms])

lemma within_catch_up_all:
  assumes "rpc_within env snk rpc"
  shows "act_within env snk (catch_up_all env rpc c snk)"
  unfolding catch_up_all_def catch_up_one_def
  using rpc_withinD [OF assms]
  by (auto intro!: within_intros within_replay_all split: sum.split)

section \<open>The history epoch tells a rebuild from an evolution\<close>

text \<open>
  From one state to a later one, a tab either carries a newer epoch or has only evolved: its
  rows grew and its settled rows are in place.
\<close>

definition evolved :: "row list \<Rightarrow> row list \<Rightarrow> bool" where
  "evolved rs rs' \<longleftrightarrow>
     length rs \<le> length rs' \<and> (\<forall>i < length rs. settled (kind (rs ! i)) \<longrightarrow> rs' ! i = rs ! i)"

lemma evolved_refl: "evolved rs rs"
  by (simp add: evolved_def)

lemma evolved_trans: "evolved xs ys \<Longrightarrow> evolved ys zs \<Longrightarrow> evolved xs zs"
  unfolding evolved_def by (metis order.strict_trans2 le_trans)

lemma row_effect_evolved: "row_effect a rs rs' \<Longrightarrow> evolved rs rs'"
  unfolding evolved_def using row_effect_length row_effect_settled by blast

lemma plain_SomeD: "plain res = Some (r, cs) \<Longrightarrow> \<exists>ds. res = Some (r, ds)"
  by (auto simp: plain_def)

lemma reducer_step_evolved:
  assumes wf: "reducer_wf r" and s: "reducer_step sj r opn = Some (r', cs)"
    and "\<forall>k. opn \<noteq> Op_Reset k" "\<forall>k ms. opn \<noteq> Op_Ingest k ms"
  shows "evolved (r_rows r) (r_rows r')"
proof (cases opn)
  case (Op_Apply ev)
  with s show ?thesis by (auto dest!: plain_SomeD intro: row_effect_evolved apply_effect [OF wf])
next
  case (Op_Resolve_Approval k rid)
  with s show ?thesis by (auto dest!: plain_SomeD intro: row_effect_evolved resolve_approval_effect)
next
  case (Op_Resolve_Clarify k rid)
  with s show ?thesis by (auto dest!: plain_SomeD intro: row_effect_evolved resolve_clarify_effect)
next
  case (Op_Append_User k t)
  with s have "r_rows r' = r_rows r @ [\<lparr>index = length (r_rows r), kind = User t\<rparr>]"
    by (auto simp: append_user_row_def plain_def)
  then show ?thesis by (simp add: evolved_def nth_append)
next
  case (Op_Approval_Card k rid p)
  show ?thesis
  proof (cases "rid = ''''")
    case True
    with s Op_Approval_Card show ?thesis
      by (simp add: apply_approval_card_def evolved_refl)
  next
    case False
    with s Op_Approval_Card obtain ds where "reducer_apply sj r (approval_card_event k rid p) = Some (r', ds)"
      by (auto simp: apply_approval_card_def plain_def)
    then show ?thesis by (auto intro: row_effect_evolved apply_effect [OF wf])
  qed
qed (use assms(3,4) in blast)+

definition same_history :: "nat \<Rightarrow> live_session \<Rightarrow> live_session \<Rightarrow> bool" where
  "same_history h l l' \<longleftrightarrow>
     h < l_epoch l' \<or> (l_epoch l' = l_epoch l \<and> evolved (r_rows (l_reducer l)) (r_rows (l_reducer l')))"

lemma same_history_refl: "same_history h l l"
  by (simp add: same_history_def evolved_refl)

lemma same_history_trans:
  "same_history h l l1 \<Longrightarrow> l_epoch l1 \<le> h1 \<Longrightarrow> h \<le> h1 \<Longrightarrow> same_history h1 l1 l2 \<Longrightarrow> same_history h l l2"
  unfolding same_history_def using evolved_trans by fastforce

lemma core_step_history:
  assumes "core_step env snk w w'" and "core_wf w"
  shows "history_epoch w \<le> history_epoch w' \<and>
     (\<forall>key l'. chats w' key = Some l' \<longrightarrow>
        history_epoch w < l_epoch l' \<or>
        (\<exists>l. chats w key = Some l \<and> same_history (history_epoch w) l l'))"
  using assms
proof (induction rule: core_step.induct)
  case (transcript key w w')
  from transcript(1) obtain live live' cs t v opn where
    s: "chats w key = Some live" "reducer_step (ce_json env) (l_reducer live) opn = Some (l_reducer live', unwrap_changes cs)"
      "chats v = (chats w)(key \<mapsto> live')" "w' = emit (ce_json env) snk key cs (r_rows (l_reducer live')) t v"
      "l_epoch live' = l_epoch live \<and> history_epoch w' = history_epoch w
           \<and> (\<forall>k. opn \<noteq> Op_Reset k) \<and> (\<forall>k ms. opn \<noteq> Op_Ingest k ms)
         \<or> l_epoch live' = Suc (history_epoch w) \<and> history_epoch w' = Suc (history_epoch w)"
    unfolding transcript_section_def by blast
  have live': "history_epoch w < l_epoch live' \<or> same_history (history_epoch w) live live'"
    using s(5) reducer_step_evolved [OF core_wfD(1) [OF transcript(2) s(1)] s(2)]
    by (auto simp: same_history_def)
  have c: "chats w' = (chats w)(key \<mapsto> live')" using s(3,4) by simp
  show ?case
  proof (intro conjI allI impI)
    show "history_epoch w \<le> history_epoch w'" using s(5) by auto
  next
    fix k l' assume "chats w' k = Some l'"
    with c live' s(1) show "history_epoch w < l_epoch l' \<or>
        (\<exists>l. chats w k = Some l \<and> same_history (history_epoch w) l l')"
      by (cases "k = key") (auto simp: same_history_refl)
  qed
next
  case (install w msgs key sid pn cols)
  then show ?case by (auto simp: install_chats same_history_refl)
next
  case (close w key)
  then show ?case
    by (auto simp: close_session_def Let_def same_history_refl split: option.splits if_splits)
next
  case (bookkeeping w' w)
  then show ?case by (auto simp: same_history_refl)
next
  case (repoint w key sid)
  have "same_history h l (l\<lparr>live_sid := s\<rparr>)" for h l s
    by (simp add: same_history_def evolved_refl)
  then show ?case
    by (auto simp: repoint_live_sid_def same_history_refl split: option.splits if_splits)
next
  case (forget w' w)
  then show ?case by simp
qed

lemma core_steps_history:
  assumes "(core_step env snk)\<^sup>*\<^sup>* w w'" and "core_wf w"
  shows "core_wf w' \<and> history_epoch w \<le> history_epoch w' \<and>
     (\<forall>key l'. chats w' key = Some l' \<longrightarrow>
        history_epoch w < l_epoch l' \<or>
        (\<exists>l. chats w key = Some l \<and> same_history (history_epoch w) l l'))"
  using assms(1)
proof (induction rule: rtranclp_induct)
  case base
  with assms(2) show ?case by (auto simp: same_history_refl)
next
  case (step y z)
  then have y: "core_wf y" and le: "history_epoch w \<le> history_epoch y" by blast+
  note yz = core_step_history [OF step(2) y]
  show ?case
  proof (intro conjI allI impI)
    show "core_wf z" by (rule core_step_wf [OF step(2) y])
    show "history_epoch w \<le> history_epoch z" using le yz by simp
  next
    fix key l' assume l': "chats z key = Some l'"
    show "history_epoch w < l_epoch l' \<or> (\<exists>l. chats w key = Some l \<and> same_history (history_epoch w) l l')"
    proof (cases "history_epoch y < l_epoch l'")
      case True
      with le show ?thesis by simp
    next
      case False
      with yz l' obtain l1 where l1: "chats y key = Some l1" "same_history (history_epoch y) l1 l'" by blast
      with False have ep: "l_epoch l' = l_epoch l1" by (simp add: same_history_def)
      from step(3) l1(1) have "history_epoch w < l_epoch l1 \<or>
          (\<exists>l. chats w key = Some l \<and> same_history (history_epoch w) l l1)" by blast
      then show ?thesis
        using ep same_history_trans [OF _ core_wfD(2) [OF y l1(1)] le l1(2)] by auto
    qed
  qed
qed

end
