(* ===== verification/Ws_Client.thy ===== *)
theory Ws_Client
  imports Frames
begin

text \<open>
  The gateway WebSocket client, \<open>hermes_core/src/rpc/client.rs\<close>: the state that the facade,
  the reader, the writer and the heartbeat share, and the sections each of them runs on it.

  \<^item> The \<open>oneshot\<close> of a call is its id: \<open>ws_pending\<close> holds the ids with a registered sender,
    \<open>ws_answers\<close> what each caller's future resolved to.
  \<^item> The broadcast channel is the list of what was ever sent on it; a receiver is a position
    in that list, and one that is more than 1024 behind lags.
  \<^item> \<open>ws_outbound\<close> is the queue of the writer, \<open>ws_wire\<close> what it put on the socket; both
    tasks are a flag that says whether they still run.
  \<^item> Times are milliseconds; \<open>now\<close> is the wall clock of the moment. The call counter is a
    natural number (64 bits in the code).
  \<^item> \<open>ws_ready\<close> is the position of the subscription of \<open>connect\<close> while it waits for
    \<open>gateway.ready\<close>, and \<open>None\<close> once it returned.
\<close>

section \<open>State\<close>

record client_config =
  cfg_ping_interval :: nat
  cfg_deadline :: nat
  cfg_call_timeout :: nat
  cfg_probe_timeout :: nat
  cfg_ready_timeout :: nat

definition client_config_default :: client_config where
  "client_config_default =
     \<lparr>cfg_ping_interval = 15000, cfg_deadline = 45000, cfg_call_timeout = 120000,
      cfg_probe_timeout = 3000, cfg_ready_timeout = 15000\<rparr>"

definition ungraceful_close_reason :: string where
  "ungraceful_close_reason = ''heartbeat timeout''"

datatype connection_state =
    State_Idle
  | State_Connecting
  | State_Open
  | State_Closed string

datatype outbound = Out_Line string | Out_CloseNow string

record ws =
  ws_config :: client_config
  ws_pending :: "string set"
  ws_answers :: "string \<rightharpoonup> client_error + json"
  ws_last_inbound :: nat
  ws_published :: "event_params list"
  ws_first_rx :: "nat option"
  ws_last_seq :: "string \<rightharpoonup> int"
  ws_replay_epoch :: string
  ws_skin :: json
  ws_conn :: connection_state
  ws_outbound :: "outbound list"
  ws_wire :: "outbound list"
  ws_writer :: bool
  ws_reader :: bool
  ws_next_id :: nat
  ws_heartbeat :: "nat option"
  ws_ready :: "nat option"

text \<open>The state \<open>connect\<close> builds once the handshake succeeded, both tasks spawned.\<close>

definition ws_connecting :: "client_config \<Rightarrow> nat \<Rightarrow> ws" where
  "ws_connecting cfg now =
     \<lparr>ws_config = cfg, ws_pending = {}, ws_answers = Map.empty, ws_last_inbound = now,
      ws_published = [], ws_first_rx = None, ws_last_seq = Map.empty, ws_replay_epoch = '''',
      ws_skin = JNull, ws_conn = State_Connecting, ws_outbound = [], ws_wire = [],
      ws_writer = True, ws_reader = True, ws_next_id = 1, ws_heartbeat = None, ws_ready = Some 0\<rparr>"

section \<open>Shared sections\<close>

definition mark_open :: "ws \<Rightarrow> ws" where
  "mark_open s = s\<lparr>ws_conn := State_Open\<rparr>"

text \<open>The result says whether this closer was the first.\<close>

definition close_terminal :: "string \<Rightarrow> ws \<Rightarrow> bool \<times> ws" where
  "close_terminal reason s =
     (case ws_conn s of
        State_Closed _ \<Rightarrow> (False, s)
      | _ \<Rightarrow> (True, s\<lparr>ws_conn := State_Closed reason\<rparr>))"

definition fail_pending :: "client_error \<Rightarrow> ws \<Rightarrow> ws" where
  "fail_pending err s =
     s\<lparr>ws_pending := {},
       ws_answers := (\<lambda>i. if i \<in> ws_pending s then Some (Inl err) else ws_answers s i)\<rparr>"

text \<open>Sending on the writer's queue: without effect once the writer dropped its end.\<close>

definition enqueue :: "outbound \<Rightarrow> ws \<Rightarrow> ws" where
  "enqueue m s = (if ws_writer s then s\<lparr>ws_outbound := ws_outbound s @ [m]\<rparr> else s)"

definition shutdown :: "string \<Rightarrow> ws \<Rightarrow> ws" where
  "shutdown reason s =
     enqueue (Out_CloseNow reason)
       (fail_pending (ClientError_Closed reason) (snd (close_terminal reason s)))"

section \<open>Calls\<close>

text \<open>The first section of a call: a closed connection fails it at once.\<close>

definition call_check :: "ws \<Rightarrow> client_error option" where
  "call_check s =
     (case ws_conn s of State_Closed reason \<Rightarrow> Some (ClientError_Closed reason) | _ \<Rightarrow> None)"

text \<open>The second: a fresh id, the registration and the queued line.\<close>

definition call_id :: "nat \<Rightarrow> string" where
  "call_id n = CHR ''r'' # show_nat n"

definition call_line :: "serde \<Rightarrow> string \<Rightarrow> string \<Rightarrow> json \<Rightarrow> string" where
  "call_line sj i meth params =
     to_compact_string sj (request_to_value
       \<lparr>req_jsonrpc = ''2.0'', req_id = i, req_method = meth, req_params = params\<rparr>)"

definition call_issue :: "serde \<Rightarrow> string \<Rightarrow> json \<Rightarrow> ws \<Rightarrow> (client_error + string) \<times> ws" where
  "call_issue sj meth params s =
     (let i = call_id (ws_next_id s);
          s1 = s\<lparr>ws_next_id := Suc (ws_next_id s)\<rparr>
      in if ws_writer s
         then (Inr i, enqueue (Out_Line (call_line sj i meth params)) (s1\<lparr>ws_pending := insert i (ws_pending s)\<rparr>))
         else (Inl (ClientError_Closed ''writer task gone''), s1))"

text \<open>A call whose time is up: it is no longer waited for, and a late reply finds nobody.\<close>

definition call_timeout :: "string \<Rightarrow> nat \<Rightarrow> ws \<Rightarrow> ws" where
  "call_timeout i ms s =
     (if i \<in> ws_pending s
      then s\<lparr>ws_pending := ws_pending s - {i}, ws_answers := (ws_answers s)(i \<mapsto> Inl (ClientError_Timeout ms))\<rparr>
      else s)"

section \<open>The reader\<close>

definition record_seq :: "event_params \<Rightarrow> ws \<Rightarrow> ws" where
  "record_seq ev s =
     (case ev_seq ev of
        None \<Rightarrow> s
      | Some seq \<Rightarrow>
          if ev_session_id ev = '''' then s
          else (let slot = unwrap_or 0 (ws_last_seq s (ev_session_id ev))
                in s\<lparr>ws_last_seq := (ws_last_seq s)(ev_session_id ev \<mapsto> (if seq > slot then seq else slot))\<rparr>))"

definition last_seq :: "string \<Rightarrow> ws \<Rightarrow> int" where
  "last_seq sid s = unwrap_or 0 (ws_last_seq s sid)"

definition settle :: "string \<Rightarrow> client_error + json \<Rightarrow> ws \<Rightarrow> ws" where
  "settle i res s =
     (if i \<in> ws_pending s
      then s\<lparr>ws_pending := ws_pending s - {i}, ws_answers := (ws_answers s)(i \<mapsto> res)\<rparr>
      else s)"

definition read_line :: "serde \<Rightarrow> string \<Rightarrow> ws \<Rightarrow> ws" where
  "read_line sj line s =
     (case decode sj line of
        Some (Decoded_Result i v) \<Rightarrow> settle i (Inr v) s
      | Some (Decoded_Error i e) \<Rightarrow> settle i (Inl (ClientError_Rpc (err_code e) (err_message e))) s
      | Some (Decoded_Event ev) \<Rightarrow> (record_seq ev s)\<lparr>ws_published := ws_published s @ [ev]\<rparr>
      | Some Decoded_Ignored \<Rightarrow> s
      | None \<Rightarrow> s)"

datatype ws_message =
    Msg_Text string
  | Msg_Close "(nat \<times> string) option"
  | Msg_Ping
  | Msg_Pong
  | Msg_Binary
  | Msg_Frame
  | Msg_Error
  | Msg_Eof

definition server_close_reason :: "(nat \<times> string) option \<Rightarrow> string" where
  "server_close_reason frame =
     (case frame of
        Some (code, reason) \<Rightarrow>
          (if reason = '''' then ''closed by server (code '' @ show_nat code @ '')'' else reason)
      | None \<Rightarrow> ''closed by server'')"

text \<open>After the loop of the reader: the last words of the connection, the writer aborted.\<close>

definition reader_end :: "string \<Rightarrow> ws \<Rightarrow> ws" where
  "reader_end reason s =
     (fail_pending (ClientError_Closed reason) (snd (close_terminal reason s)))
       \<lparr>ws_writer := False, ws_outbound := [], ws_reader := False\<rparr>"

fun reader_step :: "serde \<Rightarrow> nat \<Rightarrow> ws_message \<Rightarrow> ws \<Rightarrow> ws" where
  "reader_step sj now (Msg_Text t) s = fold (read_line sj) (split_lines t) (s\<lparr>ws_last_inbound := now\<rparr>)"
| "reader_step sj now (Msg_Close frame) s = reader_end (server_close_reason frame) s"
| "reader_step sj now Msg_Ping s = s\<lparr>ws_last_inbound := now\<rparr>"
| "reader_step sj now Msg_Pong s = s\<lparr>ws_last_inbound := now\<rparr>"
| "reader_step sj now Msg_Binary s = s\<lparr>ws_last_inbound := now\<rparr>"
| "reader_step sj now Msg_Frame s = s\<lparr>ws_last_inbound := now\<rparr>"
| "reader_step sj now Msg_Error s = reader_end ungraceful_close_reason s"
| "reader_step sj now Msg_Eof s = reader_end ungraceful_close_reason s"

section \<open>The writer and the heartbeat\<close>

definition writer_gone :: "ws \<Rightarrow> ws" where
  "writer_gone s = s\<lparr>ws_writer := False, ws_outbound := []\<rparr>"

text \<open>One round of the writer; \<open>sent\<close> says whether the socket took the message.\<close>

definition writer_step :: "bool \<Rightarrow> ws \<Rightarrow> ws" where
  "writer_step sent s =
     (case ws_outbound s of
        [] \<Rightarrow> s
      | Out_Line line # rest \<Rightarrow>
          if sent then s\<lparr>ws_outbound := rest, ws_wire := ws_wire s @ [Out_Line line]\<rparr>
          else (let (first, s1) = close_terminal ungraceful_close_reason s
                in writer_gone
                     (if first then fail_pending (ClientError_Closed ungraceful_close_reason) s1 else s1))
      | Out_CloseNow reason # rest \<Rightarrow>
          writer_gone (if sent then s\<lparr>ws_wire := ws_wire s @ [Out_CloseNow reason]\<rparr> else s))"

definition heartbeat_line :: "serde \<Rightarrow> nat \<Rightarrow> string option" where
  "heartbeat_line sj n =
     to_string sj (request_to_value
       \<lparr>req_jsonrpc = ''2.0'', req_id = ''heartbeat-'' @ show_nat n, req_method = ''gateway.ping'',
        req_params = JNull\<rparr>)"

definition spawn_heartbeat :: "ws \<Rightarrow> ws" where
  "spawn_heartbeat s = s\<lparr>ws_heartbeat := (if cfg_ping_interval (ws_config s) = 0 then None else Some 0)\<rparr>"

text \<open>One round of the heartbeat, whether its interval passed or it was woken.\<close>

definition heartbeat_tick :: "serde \<Rightarrow> nat \<Rightarrow> ws \<Rightarrow> ws" where
  "heartbeat_tick sj now s =
     (case ws_heartbeat s of
        None \<Rightarrow> s
      | Some n \<Rightarrow>
          (case ws_conn s of
             State_Closed _ \<Rightarrow> s\<lparr>ws_heartbeat := None\<rparr>
           | _ \<Rightarrow>
               if now - ws_last_inbound s \<ge> cfg_deadline (ws_config s)
               then (shutdown ungraceful_close_reason s)\<lparr>ws_heartbeat := None\<rparr>
               else (let s1 = s\<lparr>ws_heartbeat := Some (Suc n)\<rparr>
                     in case heartbeat_line sj (Suc n) of
                          None \<Rightarrow> s1
                        | Some line \<Rightarrow> enqueue (Out_Line line) s1)))"

section \<open>Connecting and subscribing\<close>

definition broadcast_capacity :: nat where
  "broadcast_capacity = 1024"

datatype received = Recv_Event event_params | Recv_Lagged nat | Recv_Wait

text \<open>What a receiver at position \<open>c\<close> gets, and its new position.\<close>

definition broadcast_recv :: "ws \<Rightarrow> nat \<Rightarrow> received \<times> nat" where
  "broadcast_recv s c =
     (let n = length (ws_published s)
      in if n - c > broadcast_capacity then (Recv_Lagged (n - broadcast_capacity - c), n - broadcast_capacity)
         else if c < n then (Recv_Event (ws_published s ! c), Suc c)
         else (Recv_Wait, c))"

text \<open>One round of the loop in which \<open>connect\<close> waits for \<open>gateway.ready\<close>.\<close>

definition connect_poll :: "nat \<Rightarrow> ws \<Rightarrow> ws" where
  "connect_poll c s =
     (case broadcast_recv s c of
        (Recv_Event ev, c') \<Rightarrow>
          if event_type ev = ''gateway.ready''
          then spawn_heartbeat
                 ((mark_open
                    (s\<lparr>ws_replay_epoch := str_at (ev_payload ev) ''replay_epoch'',
                       ws_skin := unwrap_or JNull (get_key (ev_payload ev) ''skin'')\<rparr>))
                  \<lparr>ws_first_rx := Some c', ws_ready := None\<rparr>)
          else s\<lparr>ws_ready := Some c'\<rparr>
      | (Recv_Lagged _, c') \<Rightarrow> s\<lparr>ws_ready := Some c'\<rparr>
      | (Recv_Wait, c') \<Rightarrow> s)"

definition connect_give_up :: "ws \<Rightarrow> ws" where
  "connect_give_up s = (shutdown ''gateway.ready not received'' s)\<lparr>ws_ready := None\<rparr>"

text \<open>\<open>events()\<close>: the position of the new subscription.\<close>

definition subscribe :: "ws \<Rightarrow> nat \<times> ws" where
  "subscribe s =
     (case ws_first_rx s of
        Some c \<Rightarrow> (c, s\<lparr>ws_first_rx := None\<rparr>)
      | None \<Rightarrow> (length (ws_published s), s))"

section \<open>The URL\<close>

definition to_ws_url :: "string \<Rightarrow> client_error + string" where
  "to_ws_url url =
     (if prefix ''ws://'' url \<or> prefix ''wss://'' url then Inr url
      else case (case strip_prefix ''https://'' url of
                   Some rest \<Rightarrow> Some (rest, ''wss'')
                 | None \<Rightarrow> map_option (\<lambda>rest. (rest, ''ws'')) (strip_prefix ''http://'' url)) of
             None \<Rightarrow> Inl (ClientError_Transport (''unsupported url scheme: '' @ url))
           | Some (rest, scheme) \<Rightarrow>
               (let authority = takeWhile (\<lambda>c. c \<noteq> CHR ''/'') rest;
                    path_and_query = dropWhile (\<lambda>c. c \<noteq> CHR ''/'') rest;
                    p = takeWhile (\<lambda>c. c \<noteq> CHR ''?'') path_and_query;
                    q = dropWhile (\<lambda>c. c \<noteq> CHR ''?'') path_and_query;
                    path = (if q \<noteq> '''' then (if p = '''' then ''/api/ws'' @ q else path_and_query)
                            else if path_and_query = '''' then ''/api/ws'' else path_and_query)
                in Inr (scheme @ ''://'' @ authority @ path)))"

end
