(* ===== verification/Supervisor.thy ===== *)
theory Supervisor
  imports Core_Runs Ws_Client
begin

text \<open>
  The supervisor task, \<open>supervise_inner\<close> of \<open>hermes_core/src/core.rs\<close>: one function per
  section of its loops, over the state of the core, and a step relation in which the other
  tasks run between them.

  \<^item> A phase says where the task is: about to serve a client, in the event loop, before the
    ladder, before an attempt, asleep for the delay of an attempt, or gone.
  \<^item> The connection state a client has when the supervisor subscribes, its replay epoch, the
    branch the \<open>select!\<close> takes, the jitter and whether the sleep was interrupted are inputs.
  \<^item> The attempt counter is a natural number (32 bits in the code).
\<close>

section \<open>Sections\<close>

datatype sup_phase =
    Sup_Begin nat
  | Sup_Loop nat
  | Sup_Down
  | Sup_Attempt
  | Sup_Sleep nat
  | Sup_Done

record 'u sup =
  sup_phase :: sup_phase
  sup_attempt :: nat
  sup_core :: "'u core"

definition sup_start :: "nat \<Rightarrow> 'u core \<Rightarrow> 'u sup" where
  "sup_start c w = \<lparr>sup_phase = Sup_Begin c, sup_attempt = 0, sup_core = w\<rparr>"

text \<open>
  Subscription, the first status and the resume phase. A connection that is already closed
  goes straight to the ladder, or ends the supervisor when it was closed on purpose.
\<close>

definition sup_begin ::
  "'u core_env \<Rightarrow> 'u rpc \<Rightarrow> ((string \<rightharpoonup> live_session) \<Rightarrow> string list) \<Rightarrow> nat \<Rightarrow> connection_state \<Rightarrow> string
     \<Rightarrow> nat \<Rightarrow> 'u sup \<Rightarrow> 'u sup panics" where
  "sup_begin env rpc order snk st epoch c s =
     (let w1 = emit_status snk Conn_Connecting (sup_core s);
          resumed = (\<lambda>n w. map_option (\<lambda>(_, w'). \<lparr>sup_phase = Sup_Loop c, sup_attempt = n, sup_core = w'\<rparr>)
                       (resume_all env rpc order c epoch snk w))
      in case st of
           State_Open \<Rightarrow> resumed 0 (emit_status snk Conn_Open w1)
         | State_Closed reason \<Rightarrow>
             (let w2 = emit_status snk (Conn_Closed reason) w1
              in if reason = local_close_reason
                 then Some (s\<lparr>sup_phase := Sup_Done, sup_core := flush_registry env w2\<rparr>)
                 else Some (s\<lparr>sup_phase := Sup_Down, sup_core := w2\<rparr>))
         | State_Idle \<Rightarrow> resumed (sup_attempt s) w1
         | State_Connecting \<Rightarrow> resumed (sup_attempt s) w1)"

datatype loop_input =
    In_Tick
  | In_Event event_params
  | In_Lagged
  | In_Events_Gone
  | In_State connection_state
  | In_State_Gone

definition sup_loop ::
  "'u core_env \<Rightarrow> 'u rpc \<Rightarrow> nat \<Rightarrow> nat \<Rightarrow> loop_input \<Rightarrow> 'u sup \<Rightarrow> 'u sup panics" where
  "sup_loop env rpc snk c inp s =
     (case inp of
        In_Tick \<Rightarrow> Some (s\<lparr>sup_core := flush_registry env (sup_core s)\<rparr>)
      | In_Event ev \<Rightarrow>
          map_option (\<lambda>w. s\<lparr>sup_core := w\<rparr>) (deliver_event (ce_json env) ev snk (sup_core s))
      | In_Lagged \<Rightarrow>
          map_option (\<lambda>(_, w). s\<lparr>sup_core := w\<rparr>) (catch_up_all env rpc c snk (sup_core s))
      | In_Events_Gone \<Rightarrow> Some (s\<lparr>sup_phase := Sup_Down\<rparr>)
      | In_State_Gone \<Rightarrow> Some (s\<lparr>sup_phase := Sup_Down\<rparr>)
      | In_State State_Open \<Rightarrow>
          Some (s\<lparr>sup_attempt := 0, sup_core := emit_status snk Conn_Open (sup_core s)\<rparr>)
      | In_State (State_Closed reason) \<Rightarrow>
          (let w = emit_status snk (Conn_Closed reason) (sup_core s)
           in if reason = local_close_reason
              then Some (s\<lparr>sup_phase := Sup_Done, sup_core := flush_registry env w\<rparr>)
              else Some (s\<lparr>sup_phase := Sup_Down, sup_core := w\<rparr>))
      | In_State _ \<Rightarrow> Some s)"

text \<open>The socket is down: flush, and leave when told to stop.\<close>

definition sup_down :: "'u core_env \<Rightarrow> 'u sup \<Rightarrow> 'u sup" where
  "sup_down env s =
     s\<lparr>sup_phase := (if stop_flag (sup_core s) then Sup_Done else Sup_Attempt),
       sup_core := flush_registry env (sup_core s)\<rparr>"

definition sup_attempt_step :: "nat \<Rightarrow> rat \<Rightarrow> 'u sup \<Rightarrow> 'u sup" where
  "sup_attempt_step snk jitter s =
     s\<lparr>sup_phase := Sup_Sleep (jittered_delay (sup_attempt s) jitter), sup_attempt := Suc (sup_attempt s),
       sup_core := emit_status snk Conn_Connecting (sup_core s)\<rparr>"

text \<open>The sleep was interrupted by \<open>signal_stop\<close>.\<close>

definition sup_interrupted :: "'u core_env \<Rightarrow> 'u sup \<Rightarrow> 'u sup" where
  "sup_interrupted env s = s\<lparr>sup_phase := Sup_Done, sup_core := flush_registry env (sup_core s)\<rparr>"

text \<open>The sleep ended: what the attempt to establish a connection leads to.\<close>

definition sup_establish :: "'u core_env \<Rightarrow> 'u net \<Rightarrow> nat \<Rightarrow> 'u sup \<Rightarrow> 'u sup panics" where
  "sup_establish env net snk s =
     map_option (\<lambda>(res, w).
       case res of
         Inr c \<Rightarrow> \<lparr>sup_phase = Sup_Begin c, sup_attempt = 0, sup_core = w\<lparr>client := Some c\<rparr>\<rparr>
       | Inl e \<Rightarrow>
           if e = CoreError_SessionExpired
           then s\<lparr>sup_phase := Sup_Done, sup_core := emit_status snk Conn_NeedsPassword (flush_registry env w)\<rparr>
           else s\<lparr>sup_phase := Sup_Attempt, sup_core := w\<rparr>)
       (establish env net (sup_core s))"

lemma sup_establish_cases:
  assumes "sup_establish env net snk s = Some s'"
  obtains (up) c w where "establish env net (sup_core s) = Some (Inr c, w)"
      "s' = \<lparr>sup_phase = Sup_Begin c, sup_attempt = 0, sup_core = w\<lparr>client := Some c\<rparr>\<rparr>"
  | (expired) w where "establish env net (sup_core s) = Some (Inl CoreError_SessionExpired, w)"
      "s' = s\<lparr>sup_phase := Sup_Done, sup_core := emit_status snk Conn_NeedsPassword (flush_registry env w)\<rparr>"
  | (retry) e w where "establish env net (sup_core s) = Some (Inl e, w)" "e \<noteq> CoreError_SessionExpired"
      "s' = s\<lparr>sup_phase := Sup_Attempt, sup_core := w\<rparr>"
proof -
  obtain res w where e: "establish env net (sup_core s) = Some (res, w)"
    using assms by (auto simp: sup_establish_def)
  show thesis
  proof (cases res)
    case (Inl x)
    with e assms expired retry show thesis
      by (cases "x = CoreError_SessionExpired") (simp_all add: sup_establish_def)
  next
    case (Inr c)
    with e assms up show thesis by (simp add: sup_establish_def)
  qed
qed

text \<open>The end of \<open>supervise\<close>.\<close>

definition sup_exit :: "'u core \<Rightarrow> 'u core" where
  "sup_exit w = w\<lparr>supervising := False\<rparr>"

section \<open>Steps\<close>

text \<open>Between two sections the other tasks change the core by sections of their own.\<close>

inductive sup_step ::
  "'u core_env \<Rightarrow> 'u rpc \<Rightarrow> ((string \<rightharpoonup> live_session) \<Rightarrow> string list) \<Rightarrow> 'u net \<Rightarrow> nat \<Rightarrow> 'u sup \<Rightarrow> 'u sup \<Rightarrow> bool"
  for env rpc order net snk where
  begins: "sup_phase s = Sup_Begin c \<Longrightarrow> sup_begin env rpc order snk st epoch c s = Some s' \<Longrightarrow>
    sup_step env rpc order net snk s s'"
| loops: "sup_phase s = Sup_Loop c \<Longrightarrow> sup_loop env rpc snk c inp s = Some s' \<Longrightarrow>
    sup_step env rpc order net snk s s'"
| down: "sup_phase s = Sup_Down \<Longrightarrow> sup_step env rpc order net snk s (sup_down env s)"
| attempts: "sup_phase s = Sup_Attempt \<Longrightarrow> sup_step env rpc order net snk s (sup_attempt_step snk jitter s)"
| interrupted: "sup_phase s = Sup_Sleep d \<Longrightarrow> stop_flag (sup_core s) \<Longrightarrow>
    sup_step env rpc order net snk s (sup_interrupted env s)"
| establishes: "sup_phase s = Sup_Sleep d \<Longrightarrow> sup_establish env net snk s = Some s' \<Longrightarrow>
    sup_step env rpc order net snk s s'"
| others: "core_step env snk (sup_core s) w \<Longrightarrow> sup_step env rpc order net snk s (s\<lparr>sup_core := w\<rparr>)"

section \<open>Every section of the supervisor is a run of sections of the core\<close>

definition net_within :: "'u core_env \<Rightarrow> nat \<Rightarrow> 'u net \<Rightarrow> bool" where
  "net_within env snk net \<longleftrightarrow>
     (\<forall>u w. running snk w \<longrightarrow> (core_step env snk)\<^sup>*\<^sup>* w (snd (net_mint net u w)) \<and>
                             (core_step env snk)\<^sup>*\<^sup>* w (snd (net_open net u w)))"

lemma status_step: "core_step env snk w (emit_status s st w)"
  by (rule core_step.bookkeeping) (auto simp: emit_status_def)

lemma flush_step: "core_step env snk w (flush_registry env w)"
  by (rule core_step.bookkeeping) (auto simp: flush_registry_def split: prod.split sum.split)

lemma client_step: "core_step env snk w (w\<lparr>client := c\<rparr>)"
  by (rule core_step.bookkeeping) simp_all

lemma within_http [within_intros]:
  "(\<And>w. running snk w \<Longrightarrow> (core_step env snk)\<^sup>*\<^sup>* w (snd (m w))) \<Longrightarrow> act_within env snk (act_http m)"
  unfolding act_within_def act_http_def by (metis option.inject snd_conv)

lemma within_establish:
  assumes "net_within env snk net"
  shows "act_within env snk (establish env net)"
proof -
  have panics: "act_within env snk (\<lambda>_. None :: ((core_error + nat) \<times> 'a core) option)"
    by (simp add: act_within_def)
  have m: "running snk w \<Longrightarrow> (core_step env snk)\<^sup>*\<^sup>* w (snd (net_mint net u w))"
    "running snk w \<Longrightarrow> (core_step env snk)\<^sup>*\<^sup>* w (snd (net_open net u w))" for u w
    using assms unfolding net_within_def by blast+
  show ?thesis
    unfolding establish_def require_endpoint_def require_auth_def
    by (auto intro!: within_intros m panics split: option.split)
qed

lemma core_run_intros:
  "(core_step env snk)\<^sup>*\<^sup>* w w1 \<Longrightarrow> (core_step env snk)\<^sup>*\<^sup>* w (emit_status s st w1)"
  "(core_step env snk)\<^sup>*\<^sup>* w w1 \<Longrightarrow> (core_step env snk)\<^sup>*\<^sup>* w (flush_registry env w1)"
  "(core_step env snk)\<^sup>*\<^sup>* w w1 \<Longrightarrow> (core_step env snk)\<^sup>*\<^sup>* w (w1\<lparr>client := c\<rparr>)"
  "(core_step env snk)\<^sup>*\<^sup>* w w"
  by (auto intro: rtranclp.rtrancl_into_rtrancl status_step flush_step client_step)

text \<open>An action that starts where a run ended continues it.\<close>

lemma core_run_act:
  assumes "act_within env snk m" and "m w1 = Some (res, w2)"
    and "running snk w" and "(core_step env snk)\<^sup>*\<^sup>* w w1"
  shows "(core_step env snk)\<^sup>*\<^sup>* w w2"
  by (rule rtranclp_trans [OF assms(4) act_withinD [OF assms(1) running_steps [OF assms(4,3)] assms(2)]])

lemma sup_begin_core:
  assumes "rpc_within env snk rpc" and "running snk (sup_core s)"
    and "sup_begin env rpc order snk st epoch c s = Some s'"
  shows "(core_step env snk)\<^sup>*\<^sup>* (sup_core s) (sup_core s')"
  using assms(3)
  by (auto simp: sup_begin_def Let_def split: connection_state.splits if_splits
      intro!: core_run_intros
      elim!: core_run_act [OF within_resume_all [OF assms(1)] _ assms(2)])

lemma sup_loop_core:
  assumes "rpc_within env snk rpc" and "running snk (sup_core s)" and "sup_loop env rpc snk c inp s = Some s'"
  shows "(core_step env snk)\<^sup>*\<^sup>* (sup_core s) (sup_core s')"
proof -
  have d: "(core_step env snk)\<^sup>*\<^sup>* (sup_core s) w" if "deliver_event (ce_json env) ev snk (sup_core s) = Some w" for ev w
    using deliver_event_step that assms(2) unfolding running_def by blast
  have l: "(core_step env snk)\<^sup>*\<^sup>* (sup_core s) w" if "catch_up_all env rpc c snk (sup_core s) = Some (res, w)" for res w
    by (rule act_withinD [OF within_catch_up_all [OF assms(1)] assms(2) that])
  show ?thesis
    using assms(3)
    by (cases inp) (auto simp: sup_loop_def Let_def split: connection_state.splits if_splits
        intro!: core_run_intros intro: d l)
qed

lemma sup_establish_core:
  assumes "net_within env snk net" and "running snk (sup_core s)" and "sup_establish env net snk s = Some s'"
  shows "(core_step env snk)\<^sup>*\<^sup>* (sup_core s) (sup_core s')"
proof -
  have run: "(core_step env snk)\<^sup>*\<^sup>* (sup_core s) w" if "establish env net (sup_core s) = Some (res, w)" for res w
    by (rule act_withinD [OF within_establish [OF assms(1)] assms(2) that])
  from assms(3) show ?thesis
    by (cases rule: sup_establish_cases) (auto intro!: core_run_intros(1-3) dest: run)
qed

lemma sup_step_core:
  "sup_step env rpc order net snk s s' \<Longrightarrow> rpc_within env snk rpc \<Longrightarrow> net_within env snk net \<Longrightarrow>
   running snk (sup_core s) \<Longrightarrow> (core_step env snk)\<^sup>*\<^sup>* (sup_core s) (sup_core s')"
proof (induction rule: sup_step.induct)
  case (begins s c st epoch s')
  then show ?case by (blast intro: sup_begin_core)
next
  case (loops s c inp s')
  then show ?case by (blast intro: sup_loop_core)
next
  case (establishes s d s')
  then show ?case by (blast intro: sup_establish_core)
qed (auto simp: sup_down_def sup_attempt_step_def sup_interrupted_def intro: flush_step status_step r_into_rtranclp)

lemma sup_run_core:
  assumes "(sup_step env rpc order net snk)\<^sup>*\<^sup>* s s'" and "rpc_within env snk rpc" and "net_within env snk net"
    and "running snk (sup_core s)"
  shows "(core_step env snk)\<^sup>*\<^sup>* (sup_core s) (sup_core s') \<and> running snk (sup_core s')"
  using assms(1)
proof (induction rule: rtranclp_induct)
  case base
  with assms(4) show ?case by simp
next
  case (step y z)
  then have yz: "(core_step env snk)\<^sup>*\<^sup>* (sup_core y) (sup_core z)"
    using sup_step_core [OF _ assms(2,3)] by blast
  with step.IH show ?case using running_steps by (meson rtranclp_trans)
qed

lemma sup_begin_returns:
  assumes "rpc_keeps core_wf rpc" and "core_wf (sup_core s)"
  shows "\<exists>s'. sup_begin env rpc order snk st epoch c s = Some s'"
proof -
  have wf: "core_wf (emit_status snk a w)" if "core_wf w" for a w
    by (rule core_wf_same [OF that]) simp_all
  have ret: "\<exists>res w'. resume_all env rpc order c epoch snk w = Some (res, w')" if "core_wf w" for w
    using keeps_returns [OF keeps_resume_all [OF assms(1)] that] by blast
  show ?thesis
    by (cases st) (auto simp: sup_begin_def Let_def intro!: ret wf assms(2))
qed

lemma sup_loop_returns:
  assumes "rpc_keeps core_wf rpc" and "core_wf (sup_core s)"
  shows "\<exists>s'. sup_loop env rpc snk c inp s = Some s'"
proof -
  have l: "\<exists>res w. catch_up_all env rpc c snk (sup_core s) = Some (res, w)"
    using keeps_returns [OF keeps_catch_up_all [OF assms(1)] assms(2)] by blast
  have d: "\<exists>w. deliver_event (ce_json env) ev snk (sup_core s) = Some w" for ev
    using deliver_event_wf [OF assms(2)] by blast
  show ?thesis
    by (cases inp) (auto simp: sup_loop_def Let_def l d split: connection_state.split)
qed

end
