(* ===== verification/Core_Props.thy ===== *)
theory Core_Props
  imports Core_Runs
begin

text \<open>Properties of the core across its tasks.\<close>

section \<open>Concrete worlds for the witnesses\<close>

definition plain_env :: "plain_url core_env" where
  "plain_env = \<lparr>ce_json = sample_serde, ce_url = plain_api, ce_io = no_faults, ce_dir = ''/d''\<rparr>"

text \<open>A core with a client, a sink and one tab.\<close>

definition one_tab :: "plain_url core" where
  "one_tab = (core_new plain_env True Map.empty)
     \<lparr>client := Some 7, sink := Some 1, history_epoch := 1,
      chats := [''k'' \<mapsto> \<lparr>live_sid = ''s'', l_reducer = new_reducer, l_last_seen = 0, l_epoch = 1\<rparr>],
      sid_index := [''s'' \<mapsto> ''k'']\<rparr>"

text \<open>A gateway that answers every call alike and leaves the state alone.\<close>

definition quiet_rpc :: "json \<Rightarrow> plain_url rpc" where
  "quiet_rpc v c m p w = (Inr v, w)"

lemma one_tab_wf: "core_wf one_tab"
  by (simp add: core_wf_def one_tab_def wf_new)

lemma one_tab_running: "running 1 one_tab"
  by (simp add: running_def one_tab_wf) (simp add: one_tab_def)

lemma one_tab_in_step: "in_step sj 1 one_tab"
  by (simp add: in_step_def one_tab_def sink_rows_def core_new_def shown_def rendered_def)

lemma quiet_rpc_keeps: "rpc_keeps I (quiet_rpc v)"
  by (simp add: rpc_keeps_def quiet_rpc_def)

lemma quiet_rpc_within: "rpc_within env snk (quiet_rpc v)"
  by (simp add: rpc_within_def quiet_rpc_def)

section \<open>No operation panics\<close>



section \<open>The app's rows mirror the transcripts\<close>


definition opened :: "plain_url core" where
  "opened = install_session plain_env ''k'' ''s'' [JObj [(''role'', JStr ''user''), (''text'', JStr ''hi'')]] '''' 80
     ((core_new plain_env True Map.empty)\<lparr>sink := Some 1\<rparr>)"




section \<open>The submit/resume race\<close>


text \<open>A tab with one user row, and an error event for it.\<close>

definition one_row_tab :: "plain_url core" where
  "one_row_tab = one_tab\<lparr>chats :=
     [''k'' \<mapsto> \<lparr>live_sid = ''s'', l_reducer = user_reducer, l_last_seen = 0, l_epoch = 1\<rparr>]\<rparr>"

lemma one_row_tab_wf: "core_wf one_row_tab"
  by (simp add: core_wf_def one_row_tab_def one_tab_def wf_user_reducer)


end
