(* ===== verification/Core_Behaviour.thy ===== *)
theory Core_Behaviour
  imports Core_Props
begin

text \<open>
  What single operations of the core do, on every branch: routing of an event, sending,
  slash commands, unanswered approvals, opening a tab, and restarting over the saved files.
\<close>

section \<open>An event reaches its tab only\<close>

lemma registry_get_note:
  "k \<noteq> key \<Longrightarrow> registry_get (note_delivery ev key cs t r) k = registry_get r k"
  by (simp add: note_delivery_def Let_def registry_get_modify get_touch split: option.split)

text \<open>
  C10: delivering an event never panics; it changes the transcript, the watermark and the
  registry record of the tab its session id routes to, and of no other; every callback
  carries that tab's key; the transcript becomes what the reducer makes of the event, and
  the callbacks are exactly the reducer's changes, in order. An event that routes to no open
  tab changes nothing and calls nothing back.
\<close>

theorem event_reaches_its_tab_only:
  assumes "core_wf w"
  shows "\<exists>w' ds. deliver_event sj ev snk w = Some w' \<and>
    sink_calls w' = sink_calls w @ map (\<lambda>d. (snk, On_Transcript d)) ds \<and>
    (\<forall>d \<in> set ds. route_key w (ev_session_id ev) = Some (dto_key d)) \<and>
    (\<forall>key. route_key w (ev_session_id ev) \<noteq> Some key \<longrightarrow>
       chats w' key = chats w key \<and> registry_get (reg w') key = registry_get (reg w) key) \<and>
    (\<forall>key live. route_key w (ev_session_id ev) = Some key \<and> chats w key = Some live \<longrightarrow>
       (\<exists>r cs. reducer_apply sj (l_reducer live) ev = Some (r, cs) \<and>
          chats w' key = Some (live\<lparr>l_reducer := r,
            l_last_seen := (case ev_seq ev of Some s \<Rightarrow> max (l_last_seen live) s | None \<Rightarrow> l_last_seen live)\<rparr>) \<and>
          ds = map (\<lambda>c. change_to_dto sj key (sc_change c) (r_rows r) (h_title (header (r_state r)))) cs)) \<and>
    ((\<forall>key. route_key w (ev_session_id ev) = Some key \<longrightarrow> chats w key = None) \<longrightarrow> w' = w \<and> ds = [])"
  using assms
proof (cases rule: route_event_cases [where sj = sj and ev = ev])
  case none
  have "\<And>key live. route_key w (ev_session_id ev) = Some key \<Longrightarrow> chats w key = Some live \<Longrightarrow> False"
    using none by (auto simp: route_event_def Let_def split: option.splits)
  then show ?thesis
    using none by (intro exI [of _ w] exI [of _ "[]"]) (auto simp: deliver_event_def)
next
  case (routed key live r changes)
  define ds where "ds = map (\<lambda>c. change_to_dto sj key (sc_change c) (r_rows r) (h_title (header (r_state r)))) changes"
  have d: "\<exists>w'. deliver_event sj ev snk w = Some w' \<and>
      chats w' = (chats w)(key \<mapsto> live\<lparr>l_reducer := r,
        l_last_seen := (case ev_seq ev of Some s \<Rightarrow> max (l_last_seen live) s | None \<Rightarrow> l_last_seen live)\<rparr>) \<and>
      reg w' = note_delivery ev key changes (h_title (header (r_state r))) (reg w) \<and>
      sink_calls w' = sink_calls w @ map (\<lambda>d. (snk, On_Transcript d)) ds"
    unfolding deliver_event_def routed(5) by (simp add: rows_of_def ds_def comp_def) (simp add: emit_def)
  then obtain w' where w': "deliver_event sj ev snk w = Some w'"
      "chats w' = (chats w)(key \<mapsto> live\<lparr>l_reducer := r,
        l_last_seen := (case ev_seq ev of Some s \<Rightarrow> max (l_last_seen live) s | None \<Rightarrow> l_last_seen live)\<rparr>)"
      "reg w' = note_delivery ev key changes (h_title (header (r_state r))) (reg w)"
      "sink_calls w' = sink_calls w @ map (\<lambda>d. (snk, On_Transcript d)) ds" by blast
  show ?thesis
    by (intro exI [of _ w'] exI [of _ ds])
      (use routed(1-3) w' in \<open>auto simp: ds_def registry_get_note\<close>)
qed

lemma event_reaches_its_tab_only_witness:
  "\<exists>w'. deliver_event sample_serde (sample_event ''error'' []) 1 one_tab = Some w' \<and>
     length (sink_calls w') = 1 \<and> chats w' ''other'' = None"
proof -
  have r: "route_key one_tab ''k'' = Some ''k''"
    "chats one_tab ''k'' = Some \<lparr>live_sid = ''s'', l_reducer = new_reducer, l_last_seen = 0, l_epoch = 1\<rparr>"
    "chats one_tab ''other'' = None" "sink_calls one_tab = []"
    by (simp_all add: route_key_def one_tab_def core_new_def)
  have l: "\<And>r cs. reducer_apply sample_serde new_reducer (sample_event ''error'' []) = Some (r, cs) \<Longrightarrow> length cs = 1"
    by (simp add: reducer_apply_def sample_event_def dispatch_def on_error_def wrap_def)
  from event_reaches_its_tab_only [OF one_tab_wf, where sj = sample_serde and ev = "sample_event ''error'' []" and snk = 1]
  show ?thesis using r l by (fastforce simp: sample_event_def)
qed

section \<open>Sending\<close>

lemmas act_simps = act_bind_def act_get_def act_await_def act_try_def act_of_option_def act_ok_def act_fail_def
  act_checked_def act_modify_def

lemma client_and_chat_simp:
  "client w = Some c \<Longrightarrow> chats w key = Some live \<Longrightarrow> client_and_chat key w = Some (Inr (c, live), w)"
  by (simp add: client_and_chat_def require_client_def require_chat_def act_simps)

text \<open>The user row of \<open>text\<close>, appended and delivered.\<close>

definition with_user_row :: "serde \<Rightarrow> string \<Rightarrow> string \<Rightarrow> live_session \<Rightarrow> 'u core \<Rightarrow> 'u core" where
  "with_user_row sj key text l w =
     (let n = length (r_rows (l_reducer l));
          row = JObj [(''kind'', JStr ''user''), (''text'', JStr text)]
      in w\<lparr>chats := (chats w)(key \<mapsto> l\<lparr>l_reducer := push_row (User text) (l_reducer l)\<rparr>),
           sink_calls := sink_calls w @
             (case sink w of None \<Rightarrow> []
              | Some s \<Rightarrow> [(s, On_Transcript \<lparr>dto_key = key, dto_kind = Kind_RowAppended,
                  dto_index = clamp_u32 n, dto_row_json = to_compact_string sj row, dto_title = ''''\<rparr>)])\<rparr>)"

lemma publish_user_row_cases:
  "publish_user_row sj key text epoch w = Some
     (case chats w key of None \<Rightarrow> w
      | Some l \<Rightarrow> if l_epoch l = epoch then with_user_row sj key text l w else w)"
proof (cases "chats w key")
  case (Some l)
  have nochange: "w\<lparr>chats := (chats w)(key \<mapsto> l\<lparr>l_reducer := l_reducer l\<rparr>)\<rparr> = w"
    using Some by (simp add: fun_upd_idem)
  show ?thesis
  proof (cases "l_epoch l = epoch")
    case True
    with Some show ?thesis
      by (simp add: publish_user_row_def update_transcript_def append_user_row_def with_user_row_def Let_def
          emit_def wrap_def row_at_def row_json_def push_row_def split: option.split)
  next
    case False
    with Some nochange show ?thesis
      by (simp add: publish_user_row_def update_transcript_def Let_def emit_def split: option.split)
  qed
qed (simp add: publish_user_row_def update_transcript_def)

text \<open>
  C8: \<open>send\<close> fails and publishes nothing when the RPC fails or answers an unknown status; when
  the gateway accepts the message it appends and delivers exactly one user row, unless the
  transcript was rebuilt or closed while the call was in flight: then the history already has
  the row, and nothing is published.
\<close>

theorem send_outcome:
  assumes "client w = Some c" and "chats w key = Some live"
    and "rpc c ''prompt.submit'' (JObj [(''session_id'', JStr (live_sid live)), (''text'', JStr text)]) w = (ans, w1)"
  shows "send env rpc key text w = Some
    (case ans of
       Inl e \<Rightarrow> (Inl (core_error_of_client_error e), w1)
     | Inr v \<Rightarrow>
         if submit_status_parse v \<notin> {Streaming, Redirected} then (Inl CoreError_UnexpectedStatus, w1)
         else (Inr (), case chats w1 key of None \<Rightarrow> w1
                       | Some l \<Rightarrow> if l_epoch l = l_epoch live
                                   then with_user_row (ce_json env) key text l w1 else w1))"
  using assms(3) unfolding send_def
  by (cases ans)
    (simp_all add: act_bind_def client_and_chat_simp [OF assms(1,2)] act_await_def api_submit_def
      call_and_parse_def accepted_submit_def act_fail_def act_checked_def publish_user_row_cases
      split: option.split)

lemma send_outcome_witness:
  "send plain_env (quiet_rpc (JObj [(''status'', JStr ''lost'')])) ''k'' ''hi'' one_tab =
     Some (Inl CoreError_UnexpectedStatus, one_tab) \<and>
   (\<exists>w'. send plain_env (quiet_rpc (JObj [(''status'', JStr ''streaming'')])) ''k'' ''hi'' one_tab = Some (Inr (), w') \<and>
     length (sink_calls w') = 1)"
proof -
  let ?l = "\<lparr>live_sid = ''s'', l_reducer = new_reducer, l_last_seen = 0, l_epoch = 1\<rparr>"
  have w: "client one_tab = Some 7" "chats one_tab ''k'' = Some ?l" "sink one_tab = Some 1" "sink_calls one_tab = []"
    by (simp_all add: one_tab_def core_new_def)
  have q: "\<And>v m p. quiet_rpc v 7 m p one_tab = (Inr v, one_tab)" by (simp add: quiet_rpc_def)
  have p: "submit_status_parse (JObj [(''status'', JStr ''lost'')]) \<notin> {Streaming, Redirected}"
    "submit_status_parse (JObj [(''status'', JStr ''streaming'')]) = Streaming" by code_simp+
  have s: "send plain_env (quiet_rpc v) ''k'' ''hi'' one_tab = Some
      (if submit_status_parse v \<notin> {Streaming, Redirected} then (Inl CoreError_UnexpectedStatus, one_tab)
       else (Inr (), with_user_row sample_serde ''k'' ''hi'' ?l one_tab))" for v
    using send_outcome [of one_tab 7 "''k''" ?l "quiet_rpc v" "''hi''" "Inr v" one_tab plain_env] w(1,2) q
    by (simp add: plain_env_def)
  show ?thesis using p w by (simp add: s with_user_row_def Let_def)
qed


section \<open>Slash commands\<close>

text \<open>
  a slash command falls back to \<open>command.dispatch\<close> only when \<open>slash.exec\<close> is rejected with
  code 4018: a successful answer is shown as it is, 4004 means there is nothing to show, and
  any other failure is returned to the caller; in these cases no second call is made.
\<close>

lemma slash_exec_decides:
  assumes "client w = Some c" and "chats w key = Some live"
    and "rpc c ''slash.exec'' (JObj [(''session_id'', JStr (live_sid live)), (''command'', JStr command)]) w = (ans, w1)"
    and "\<And>d. ans \<noteq> Inl (ClientError_Rpc 4018 d)"
  shows "run_slash env rpc key command w = Some
    (case ans of
       Inr v \<Rightarrow>
         (Inr (Slash_Output (if str_at v ''warning'' = '''' then str_at v ''output''
            else ''warning: '' @ str_at v ''warning'' @ [nl] @ str_at v ''output'')), w1)
     | Inl e \<Rightarrow> (if \<exists>d. e = ClientError_Rpc 4004 d then Inr Slash_Empty else Inl (core_error_of_client_error e), w1))"
  using assms(3,4)
  by (auto simp: run_slash_def run_slash_ladder.simps act_bind_def client_and_chat_simp [OF assms(1,2)]
      exec_plan_def act_try_def slash_exec_def plan_after_slash_exec_def act_ok_def act_fail_def Let_def
      split: sum.split client_error.split)

lemma slash_exec_decides_witness:
  "run_slash plain_env (quiet_rpc (JObj [(''output'', JStr ''done'')])) ''k'' ''/help'' one_tab =
     Some (Inr (Slash_Output ''done''), one_tab)"
proof -
  let ?l = "\<lparr>live_sid = ''s'', l_reducer = new_reducer, l_last_seen = 0, l_epoch = 1\<rparr>"
  let ?v = "JObj [(''output'', JStr ''done'')]"
  have w: "client one_tab = Some 7" "chats one_tab ''k'' = Some ?l"
    by (simp_all add: one_tab_def core_new_def)
  have s: "str_at ?v ''warning'' = ''''" "str_at ?v ''output'' = ''done''" by code_simp+
  have "run_slash plain_env (quiet_rpc ?v) ''k'' ''/help'' one_tab = Some (case Inr ?v of
       Inr v \<Rightarrow>
         (Inr (Slash_Output (if str_at v ''warning'' = '''' then str_at v ''output''
            else ''warning: '' @ str_at v ''warning'' @ [nl] @ str_at v ''output'')), one_tab)
     | Inl e \<Rightarrow> (if \<exists>d. e = ClientError_Rpc 4004 d then Inr Slash_Empty else Inl (core_error_of_client_error e), one_tab))"
    by (rule slash_exec_decides [OF w]) (simp_all add: quiet_rpc_def)
  with s show ?thesis by simp
qed

lemma alias_ladder:
  assumes exec: "\<And>p v. rpc c ''slash.exec'' p v = (Inl (ClientError_Rpc 4018 d), v)"
    and disp: "\<And>p v. rpc c ''command.dispatch'' p v = (Inr (JObj [(''type'', JStr ''alias''), (''target'', JStr t)]), tick v)"
    and tick: "\<And>v. client (tick v) = client v \<and> chats (tick v) key = chats v key"
    and "client w = Some c" and "chats w key = Some live" and "hop \<le> max_alias_hops"
  shows "run_slash_ladder env rpc key command hop w =
     Some (Inl (CoreError_Rpc 4091 ''slash alias chain exceeded 8 hops''), (tick ^^ (Suc max_alias_hops - hop)) w)"
  using assms(4-6)
proof (induction "max_alias_hops - hop" arbitrary: hop command w)
  case 0
  have o: "dispatch_outcome_from_value (JObj [(''type'', JStr ''alias''), (''target'', JStr t)]) = Outcome_Alias t"
    by (simp add: dispatch_outcome_from_value_def)
  show ?case
    using 0 o by (subst run_slash_ladder.simps)
      (auto simp: act_bind_def client_and_chat_simp exec_plan_def act_try_def slash_exec_def exec
        plan_after_slash_exec_def act_ok_def act_fail_def act_await_def command_dispatch_def call_and_parse_def
        disp alias_loop_code_def split: prod.split)
next
  case (Suc n)
  have o: "dispatch_outcome_from_value (JObj [(''type'', JStr ''alias''), (''target'', JStr t)]) = Outcome_Alias t"
    by (simp add: dispatch_outcome_from_value_def)
  have h: "\<not> max_alias_hops \<le> hop" "n = max_alias_hops - Suc hop" using Suc.hyps(2) by simp_all
  have "run_slash_ladder env rpc key command hop w = run_slash_ladder env rpc key (alias_target t) (Suc hop) (tick w)"
    using Suc.prems h(1) o by (subst run_slash_ladder.simps)
      (auto simp: act_bind_def client_and_chat_simp exec_plan_def act_try_def slash_exec_def exec
        plan_after_slash_exec_def act_ok_def act_fail_def act_await_def command_dispatch_def call_and_parse_def
        disp split: prod.split)
  also have "\<dots> = Some (Inl (CoreError_Rpc 4091 ''slash alias chain exceeded 8 hops''),
      (tick ^^ (Suc max_alias_hops - Suc hop)) (tick w))"
    by (rule Suc.hyps(1) [OF h(2)]) (use Suc.prems h(1) tick in simp_all)
  also have "(tick ^^ (Suc max_alias_hops - Suc hop)) (tick w) = (tick ^^ (Suc max_alias_hops - hop)) w"
    using h(1) by (simp add: Suc_diff_le funpow_swap1)
  finally show ?case .
qed


text \<open>
  C33: a gateway that answers every dispatch with an alias cannot keep the client busy: after
  the command and eight aliases the ladder stops with error 4091, having dispatched nine
  times.
\<close>

theorem alias_loop_is_cut:
  assumes "\<And>p v. rpc c ''slash.exec'' p v = (Inl (ClientError_Rpc 4018 d), v)"
    and "\<And>p v. rpc c ''command.dispatch'' p v = (Inr (JObj [(''type'', JStr ''alias''), (''target'', JStr t)]), tick v)"
    and "\<And>v. client (tick v) = client v \<and> chats (tick v) key = chats v key"
    and "client w = Some c" and "chats w key = Some live"
  shows "run_slash env rpc key command w =
     Some (Inl (CoreError_Rpc 4091 ''slash alias chain exceeded 8 hops''), (tick ^^ 9) w)"
proof -
  have "run_slash_ladder env rpc key command 0 w =
      Some (Inl (CoreError_Rpc 4091 ''slash alias chain exceeded 8 hops''), (tick ^^ (Suc max_alias_hops - 0)) w)"
    by (rule alias_ladder [where c = c and t = t and d = d and tick = tick]) (use assms in simp_all)
  then show ?thesis by (simp add: run_slash_def max_alias_hops_def)
qed

text \<open>A gateway with one alias for everything, which counts its dispatches.\<close>

definition looping_rpc :: "plain_url rpc" where
  "looping_rpc c m p w =
     (if m = ''slash.exec'' then (Inl (ClientError_Rpc 4018 ''skill''), w)
      else (Inr (JObj [(''type'', JStr ''alias''), (''target'', JStr ''x'')]),
            w\<lparr>history_epoch := Suc (history_epoch w)\<rparr>))"

lemma alias_loop_is_cut_witness:
  "run_slash plain_env looping_rpc ''k'' ''/x'' one_tab =
     Some (Inl (CoreError_Rpc 4091 ''slash alias chain exceeded 8 hops''),
           ((\<lambda>w. w\<lparr>history_epoch := Suc (history_epoch w)\<rparr>) ^^ 9) one_tab)"
  by (rule alias_loop_is_cut [where c = 7 and t = "''x''" and d = "''skill''" and
      live = "\<lparr>live_sid = ''s'', l_reducer = new_reducer, l_last_seen = 0, l_epoch = 1\<rparr>"])
    (simp_all add: looping_rpc_def one_tab_def)

section \<open>Unanswered approvals\<close>

definition card_skipped :: "string \<Rightarrow> string \<Rightarrow> 'u core \<Rightarrow> bool" where
  "card_skipped key rid w \<longleftrightarrow>
     rid = '''' \<or> key = '''' \<or> rid \<in> set (unwrap_or [] (emitted_approvals w key)) \<or>
     (case chats w key of None \<Rightarrow> True | Some live \<Rightarrow> has_unresolved_approval (l_reducer live) rid)"

lemma reemit_skipped:
  assumes "card_skipped key (str_at c ''request_id'') w"
  shows "reemit_card sj snk key c w = Some w"
  using assms
  by (auto simp: card_skipped_def reemit_card_def Let_def apply_approval_card_def reducer_apply_def
      approval_card_event_def fun_upd_idem split: option.splits)

lemma reemit_new:
  assumes "\<not> card_skipped key (str_at c ''request_id'') w"
  shows "\<exists>w' d. reemit_card sj snk key c w = Some w' \<and> card_skipped key (str_at c ''request_id'') w' \<and>
    sink_calls w' = sink_calls w @ [(snk, On_Transcript d)] \<and> (\<forall>k. k \<noteq> key \<longrightarrow> chats w' k = chats w k)"
proof -
  define rid where "rid = str_at c ''request_id''"
  from assms obtain live where l: "chats w key = Some live" "\<not> has_unresolved_approval (l_reducer live) rid"
    and n: "rid \<noteq> ''''" "key \<noteq> ''''" "rid \<notin> set (unwrap_or [] (emitted_approvals w key))"
    by (auto simp: card_skipped_def rid_def split: option.splits)
  have p: "str_at (set_key ''request_id'' (JStr rid) c) ''request_id'' = rid"
    using n(1) by (cases c) (auto simp: rid_def str_at_def set_key_def get_key_def)
  obtain a where a: "apply_approval_card sj (l_reducer live) key rid c =
      Some (push_row (Approval a) (l_reducer live),
            Some (wrap key [RowAppended (length (r_rows (l_reducer live)))]))"
    using n p
    by (auto simp: apply_approval_card_def reducer_apply_def approval_card_event_def dispatch_def
        on_approval_request_def Let_def wrap_def)
  show ?thesis
    using l n a
    by (simp add: reemit_card_def flip: rid_def) (simp add: card_skipped_def emit_def wrap_def)
qed

text \<open>
  An unanswered approval that the gateway reports after a reconnect gets one card: adding
  it calls the app back at most once, and when the same request is reported again (same id,
  same tab, whatever else it says) nothing changes.
\<close>

lemma approval_reemitted_once:
  assumes "str_at crd2 ''request_id'' = str_at crd ''request_id''"
  shows "\<exists>w'. reemit_card sj snk key crd w = Some w' \<and> reemit_card sj snk key crd2 w' = Some w' \<and>
    length (sink_calls w') \<le> Suc (length (sink_calls w)) \<and> (\<forall>k. k \<noteq> key \<longrightarrow> chats w' k = chats w k)"
proof (cases "card_skipped key (str_at crd ''request_id'') w")
  case True
  with assms show ?thesis by (simp add: reemit_skipped)
next
  case False
  from reemit_new [OF False, of sj snk] assms show ?thesis
    by (metis reemit_skipped length_append_singleton order_refl)
qed

lemma approval_reemitted_once_witness:
  "\<exists>w'. reemit_card sample_serde 1 ''k'' (JObj [(''request_id'', JStr ''a'')]) one_tab = Some w' \<and>
     reemit_card sample_serde 1 ''k'' (JObj [(''request_id'', JStr ''a''), (''command'', JStr ''ls'')]) w' = Some w'"
  using approval_reemitted_once [of "JObj [(''request_id'', JStr ''a''), (''command'', JStr ''ls'')]"
      "JObj [(''request_id'', JStr ''a'')]" sample_serde 1 "''k''" one_tab]
  by (auto simp: str_at_def get_key_def)

section \<open>Opening and resuming a tab\<close>

lemma ingest_rows: "r_rows (fst (ingest_resume_messages r key msgs)) = history_rows 0 msgs"
  by (rule ingest_resume_messages_result [of r key msgs]) simp

lemma fresh_reducer_rows: "r_rows (fst (fresh_reducer key msgs)) = history_rows 0 msgs"
proof (cases "msgs = []")
  case False
  then show ?thesis unfolding fresh_reducer_def by (simp add: ingest_rows)
qed (simp add: fresh_reducer_def)

lemma install_session_frame:
  "sid_index (install_session env key sid msgs pn cols w) = (sid_index w)(sid \<mapsto> key)"
  "active_key (reg (install_session env key sid msgs pn cols w)) = Some key"
  by (cases "sink w"; simp add: install_session_def Let_def; simp add: install_state_def Let_def set_active_def)+

text \<open>
  C34: opening a saved session installs a tab whose rows are exactly the history the gateway
  returned, under the durable key, with the live id routed to it and an epoch no earlier
  transcript has; it becomes the active tab and no other tab changes.
\<close>

theorem open_session_shows_history:
  assumes "client w = Some c"
    and "rpc c ''session.resume'' (resume_params i None) w = (Inr v, w1)"
  shows "\<exists>w' live. open_session env rpc (Some i) cols w = Some (Inr i, w') \<and> chats w' i = Some live \<and>
    r_rows (l_reducer live) = history_rows 0 (array_at v ''messages'') \<and>
    live_sid live = str_at v ''session_id'' \<and>
    (str_at v ''session_id'' \<noteq> '''' \<longrightarrow> route_key w' (str_at v ''session_id'') = Some i) \<and>
    l_epoch live = Suc (history_epoch w1) \<and> history_epoch w' = Suc (history_epoch w1) \<and>
    active_key (reg w') = Some i \<and> (\<forall>k. k \<noteq> i \<longrightarrow> chats w' k = chats w1 k)"
  using assms(2)
  by (auto simp: open_session_def open_session_inner_def require_client_def act_simps assms(1)
      resume_session_def call_and_parse_def resumed_from_value_def Let_def install_chats fresh_reducer_rows
      install_session_frame route_key_def)

lemma open_session_shows_history_witness:
  "\<exists>w'. open_session plain_env (quiet_rpc (JObj [(''session_id'', JStr ''live'')])) (Some ''dur'') 80 one_tab =
     Some (Inr ''dur'', w') \<and> route_key w' ''live'' = Some ''dur''"
proof -
  have s: "str_at (JObj [(''session_id'', JStr ''live'')]) ''session_id'' = ''live''" by code_simp
  show ?thesis
    using open_session_shows_history [of one_tab 7 "quiet_rpc (JObj [(''session_id'', JStr ''live'')])" "''dur''"
        "JObj [(''session_id'', JStr ''live'')]" one_tab plain_env 80] s
    by (auto simp: quiet_rpc_def one_tab_def)
qed

text \<open>
  C11: after a reconnect, a tab whose gap the gateway cannot replay (its buffer was truncated,
  or it restarted and the replay epoch changed) is rebuilt from the history of the resume: its
  rows are exactly that history, under a new epoch, and no other tab changes.
\<close>

theorem lost_gap_rebuilds_tab:
  assumes "registry_get (reg w) key = Some rec"
    and "rpc c ''session.resume'' (resume_params key (resume_profile rec)) w = (Inr v1, w1)"
    and "rpc c ''session.events.since'' (JObj [(''session_id'', JStr key), (''last_seen'', JNum (IntNum (last_seen_seq rec)))])
           (repoint_live_sid key (str_at v1 ''session_id'') w1) = (Inr v2, w2)"
    and "chats w2 key = Some live"
    and "bool_at v2 ''truncated'' \<or> (rec_epoch rec \<noteq> '''' \<and>
           (rec_epoch rec \<noteq> fresh \<or> (str_at v2 ''epoch'' \<noteq> '''' \<and> str_at v2 ''epoch'' \<noteq> rec_epoch rec)))"
  shows "\<exists>w' live'. resume_one env rpc c fresh snk key w = Some (Inr (), w') \<and> chats w' key = Some live' \<and>
    r_rows (l_reducer live') = history_rows 0 (array_at v1 ''messages'') \<and>
    l_epoch live' = Suc (history_epoch w2) \<and> (\<forall>k. k \<noteq> key \<longrightarrow> chats w' k = chats w2 k)"
proof -
  have n: "needs_rebuild rec fresh (events_since_from_value v2)"
    using assms(5) by (auto simp: needs_rebuild_def events_since_from_value_def)
  have "resume_one env rpc c fresh snk key w =
      Some (Inr (), rebuild_and_emit env snk key (array_at v1 ''messages'')
        (non_empty (Some (es_epoch (events_since_from_value v2)))) w2)"
    using assms(1-3) n
    by (simp add: resume_one_def act_simps resume_session_def call_and_parse_def api_events_since_def
        resumed_from_value_def apply_replay_def)
  then show ?thesis
    using assms(4)
    by (simp add: rebuild_and_emit_def rebuild_session_def Let_def split_beta ingest_rows emit_dtos_def)
qed


text \<open>A stored tab with a row, and an answer for a gateway whose buffer was truncated.\<close>

definition stored_tab :: "plain_url core" where
  "stored_tab = one_row_tab\<lparr>reg := \<lparr>active_key = None, sessions = [sample_record ''k'']\<rparr>\<rparr>"

definition truncated_answer :: json where
  "truncated_answer = JObj [(''session_id'', JStr ''s''), (''truncated'', JBool True), (''messages'', JArr [])]"

lemma lost_gap_rebuilds_tab_witness:
  "\<exists>w' live'. resume_one plain_env (quiet_rpc truncated_answer) 7 ''e'' 1 ''k'' stored_tab = Some (Inr (), w') \<and>
     chats w' ''k'' = Some live' \<and> r_rows (l_reducer live') = [] \<and> l_epoch live' = 2"
proof -
  let ?l = "\<lparr>live_sid = ''s'', l_reducer = user_reducer, l_last_seen = 0, l_epoch = 1\<rparr>"
  have a: "str_at truncated_answer ''session_id'' = ''s''" "bool_at truncated_answer ''truncated''"
    "array_at truncated_answer ''messages'' = []" by code_simp+
  have w: "registry_get (reg stored_tab) ''k'' = Some (sample_record ''k'')" "chats stored_tab ''k'' = Some ?l"
    "history_epoch stored_tab = 1" "repoint_live_sid ''k'' ''s'' stored_tab = stored_tab"
    by (simp_all add: stored_tab_def registry_get_def sample_record_def one_row_tab_def one_tab_def
        repoint_live_sid_def)
  from lost_gap_rebuilds_tab [where rpc = "quiet_rpc truncated_answer" and ?v1.0 = truncated_answer and
      ?v2.0 = truncated_answer and ?w1.0 = stored_tab and ?w2.0 = stored_tab and env = plain_env and snk = 1 and
      fresh = "''e''" and c = 7, OF w(1) _ _ w(2)] a w
  show ?thesis by (simp add: quiet_rpc_def) (metis numeral_2_eq_2)
qed

section \<open>Restarting over the saved files\<close>

lemma save_states:
  "save_registry env r fs = (fst (write_then_rename (ce_io env) (sessions_path env) (registry_to_json (ce_json env) r) fs),
     last (snd (write_then_rename (ce_io env) (sessions_path env) (registry_to_json (ce_json env) r) fs)))"
  by (simp add: save_registry_def split_beta)

lemma paths_apart: "endpoint_path env \<noteq> sessions_path env" "endpoint_path env \<noteq> tmp_path (sessions_path env)"
  by (simp_all add: endpoint_path_def sessions_path_def join_path_def tmp_path_def endpoint_file_def sessions_file_def)

lemma load_registry_cong:
  "st (sessions_path env) = fs (sessions_path env) \<Longrightarrow> load_registry env st = load_registry env fs"
  by (simp add: load_registry_def fs_read_def Let_def split: option.split)

lemma load_endpoint_cong:
  "st (endpoint_path env) = fs (endpoint_path env) \<Longrightarrow> load_endpoint env st = load_endpoint env fs"
  by (simp add: load_endpoint_def fs_read_def split: option.split)

text \<open>
  C35: the tab list survives a restart: a crash at any moment of a save leaves files from which
  a new core starts either with the tabs as they were saved before or with the new ones, and
  with the same gateway; after a successful save it starts with the new ones, tab for tab.
\<close>

theorem restart_keeps_tabs:
  assumes "storable r" and "to_string (ce_json env) (registry_to_value r) = Some doc"
    and "from_str (ce_json env) doc = Some (registry_to_value r)" and "read_fault (ce_io env) (sessions_path env) = None"
    and "st \<in> set (snd (write_then_rename (ce_io env) (sessions_path env) (registry_to_json (ce_json env) r) fs))"
  shows "reg (core_new env ok st) \<in> {reg (core_new env ok fs), r} \<and>
    endpoint (core_new env ok st) = endpoint (core_new env ok fs) \<and>
    (fst (save_registry env r fs) = Inr () \<longrightarrow> reg (core_new env ok (snd (save_registry env r fs))) = r)"
proof -
  let ?doc = "registry_to_json (ce_json env) r"
  obtain res sts where wr: "write_then_rename (ce_io env) (sessions_path env) ?doc fs = (res, sts)"
    by (cases "write_then_rename (ce_io env) (sessions_path env) ?doc fs")
  note facts = write_then_rename_states [OF wr]
  have new: "load_registry env st' = Inr r" if "st' (sessions_path env) = Some ?doc" for st'
    using registry_round_trip [OF assms(1-3)] that assms(4)
    by (simp add: load_registry_def fs_read_def Let_def)
  have "st (sessions_path env) = fs (sessions_path env) \<or> st (sessions_path env) = Some ?doc"
    using facts(1) assms(5) wr by simp
  then have 1: "load_registry env st = load_registry env fs \<or> load_registry env st = Inr r"
    using new load_registry_cong by blast
  have 2: "load_endpoint env st = load_endpoint env fs"
    by (rule load_endpoint_cong, rule facts(4) [OF paths_apart]) (use assms(5) wr in simp)
  have "last sts (sessions_path env) = Some ?doc" if "res = Inr ()"
    using facts(3) that by simp
  then have 3: "load_registry env (last sts) = Inr r" if "res = Inr ()"
    using new that by blast
  have "reg (core_new env ok st) \<in> {reg (core_new env ok fs), r}"
    using 1 by (auto simp: core_new_def)
  moreover have "endpoint (core_new env ok st) = endpoint (core_new env ok fs)"
    using 2 by (simp add: core_new_def)
  moreover have "reg (core_new env ok (last sts)) = r" if "res = Inr ()"
    using 3 [OF that] by (simp add: core_new_def)
  ultimately show ?thesis by (simp add: save_states wr)
qed

definition saved_serde :: serde where
  "saved_serde = \<lparr>to_string = (\<lambda>_. Some ''doc''), from_str = (\<lambda>_. Some (registry_to_value sample_registry)),
     parse_error = (\<lambda>_. ''bad''), num_to_string = (\<lambda>_. ''1'')\<rparr>"

lemma restart_keeps_tabs_witness:
  "reg (core_new (plain_env\<lparr>ce_json := saved_serde\<rparr>) True
     (snd (save_registry (plain_env\<lparr>ce_json := saved_serde\<rparr>) sample_registry Map.empty))) = sample_registry"
proof -
  let ?env = "plain_env\<lparr>ce_json := saved_serde\<rparr>"
  have "storable sample_registry"
    by (simp add: storable_def sample_registry_def sample_record_def i64_min_def i64_max_def)
  moreover have "fst (save_registry ?env sample_registry Map.empty) = Inr ()"
    by (simp add: save_registry_def write_then_rename_def fs_write_def fs_rename_def plain_env_def no_faults_def)
  moreover have "Map.empty \<in> set (snd (write_then_rename (ce_io ?env) (sessions_path ?env)
      (registry_to_json (ce_json ?env) sample_registry) Map.empty))"
    by (simp add: write_then_rename_def fs_write_def fs_rename_def plain_env_def no_faults_def)
  ultimately show ?thesis
    using restart_keeps_tabs [of sample_registry ?env "''doc''" Map.empty Map.empty True]
    by (simp add: saved_serde_def plain_env_def no_faults_def)
qed

end
