(* ===== verification/Core_Findings.thy ===== *)
theory Core_Findings
  imports Core_Behaviour
begin

text \<open>
  Behaviours of the core that its comments do not promise or that lose information, each as
  a lemma on the model.
\<close>

section \<open>Events at or below the watermark are applied again\<close>

definition delta_event :: event_params where
  "delta_event = \<lparr>event_type = ''message.delta'', ev_session_id = ''k'', ev_seq = Some 1,
     ev_payload = JObj [(''text'', JStr ''hi'')]\<rparr>"

lemma deliver_routed:
  assumes "route_key w (ev_session_id ev) = Some key" and "chats w key = Some live"
    and "reducer_apply sj (l_reducer live) ev = Some (r, cs)" and "ev_seq ev = Some n"
  shows "\<exists>w'. deliver_event sj ev snk w = Some w' \<and> sid_index w' = sid_index w \<and>
    chats w' = (chats w)(key \<mapsto> live\<lparr>l_reducer := r, l_last_seen := max (l_last_seen live) n\<rparr>)"
  using assms by (simp add: deliver_event_def route_event_def Let_def)

lemma deltas_add_up:
  "map_option (\<lambda>(r, cs). map_option (\<lambda>(r', cs'). map kind (r_rows r'))
       (reducer_apply sample_serde r delta_event)) (reducer_apply sample_serde new_reducer delta_event)
     = Some (Some [Assistant ''hihi'' True '''' ''''])"
  by code_simp

text \<open>The same event, sequence number 1, delivered twice: the answer holds its text twice.\<close>

lemma replayed_event_applied_twice:
  "\<exists>w1 w2 l. deliver_event sample_serde delta_event 1 one_tab = Some w1 \<and>
     deliver_event sample_serde delta_event 1 w1 = Some w2 \<and> chats w2 ''k'' = Some l \<and> l_last_seen l = 1 \<and>
     map kind (r_rows (l_reducer l)) = [Assistant ''hihi'' True '''' '''']"
proof -
  obtain r1 c1 r2 c2 where r: "reducer_apply sample_serde new_reducer delta_event = Some (r1, c1)"
    "reducer_apply sample_serde r1 delta_event = Some (r2, c2)" "map kind (r_rows r2) = [Assistant ''hihi'' True '''' '''']"
    using deltas_add_up by (auto simp: option.map_sel split: option.splits)
  let ?l = "\<lparr>live_sid = ''s'', l_reducer = new_reducer, l_last_seen = 0, l_epoch = 1\<rparr>"
  have w: "chats one_tab ''k'' = Some ?l" "sid_index one_tab = [''s'' \<mapsto> ''k'']"
    by (simp_all add: one_tab_def)
  have e: "ev_session_id delta_event = ''k''" "ev_seq delta_event = Some 1" by (simp_all add: delta_event_def)
  have "route_key one_tab (ev_session_id delta_event) = Some ''k''" using w e by (simp add: route_key_def)
  from deliver_routed [OF this w(1) _ e(2), of sample_serde r1 c1 1] r(1) obtain w1
    where w1: "deliver_event sample_serde delta_event 1 one_tab = Some w1" "sid_index w1 = [''s'' \<mapsto> ''k'']"
      "chats w1 ''k'' = Some (?l\<lparr>l_reducer := r1, l_last_seen := 1\<rparr>)" using w by auto
  have "route_key w1 (ev_session_id delta_event) = Some ''k''" using w1 e by (simp add: route_key_def)
  from deliver_routed [OF this w1(3) _ e(2), of sample_serde r2 c2 1] r(2) w1(1) r(3) show ?thesis by auto
qed

section \<open>A rebuild drops an unanswered approval for good\<close>

lemma history_has_no_approval:
  assumes "r_rows r = history_rows 0 msgs"
  shows "\<not> has_unresolved_approval r rid"
proof -
  have "\<not> is_unresolved_approval rid (history_kind m)" for m
    by (simp add: history_kind_def Let_def is_unresolved_approval_def)
  then show ?thesis
    using assms by (auto simp: has_unresolved_approval_def history_rows_def)
qed

lemma rebuild_loses_pending_approval:
  assumes "chats w key = Some live" and "str_at crd ''request_id'' \<in> set (unwrap_or [] (emitted_approvals w key))"
  shows "\<exists>live'. chats (rebuild_and_emit env snk key msgs ep w) key = Some live' \<and>
     \<not> has_unresolved_approval (l_reducer live') (str_at crd ''request_id'') \<and>
     reemit_card sj snk key crd (rebuild_and_emit env snk key msgs ep w) = Some (rebuild_and_emit env snk key msgs ep w)"
proof -
  have "emitted_approvals (rebuild_and_emit env snk key msgs ep w) = emitted_approvals w"
    using assms(1) by (simp add: rebuild_and_emit_def rebuild_session_def Let_def split_beta emit_dtos_def)
  then have "card_skipped key (str_at crd ''request_id'') (rebuild_and_emit env snk key msgs ep w)"
    using assms(2) by (simp add: card_skipped_def)
  moreover have "\<not> has_unresolved_approval (fst (ingest_resume_messages (l_reducer live) key msgs)) rid" for rid
    by (rule history_has_no_approval [OF ingest_rows])
  ultimately show ?thesis
    using assms(1)
    by (simp add: reemit_skipped) (simp add: rebuild_and_emit_def rebuild_session_def Let_def split_beta emit_dtos_def)
qed

section \<open>Reopening a tab with an empty history\<close>

text \<open>The transcript is empty, the app is not told, and the old live id still routes to the tab.\<close>

lemma reopen_empty_not_announced:
  "r_rows (fst (fresh_reducer key [])) = [] \<and>
   sink_calls (install_session env key sid [] pn cols w) = sink_calls w \<and>
   (old \<noteq> sid \<longrightarrow> sid_index (install_session env key sid [] pn cols w) old = sid_index w old)"
  by (cases "sink w") (simp_all add: fresh_reducer_def install_session_frame, simp_all add: install_session_def
      fresh_reducer_def Let_def emit_def)

section \<open>An approval answered elsewhere\<close>

text \<open>
  The gateway rejects the answer with 4009 when the request is no longer pending; the
  operation fails there and the card stays as it is.
\<close>

lemma answered_elsewhere_leaves_card:
  assumes "client w = Some c" and "chats w key = Some live"
    and "api_respond_approval (rpc c) (live_sid live) rid choice w = (Inl (ClientError_Rpc 4009 d), w)"
  shows "respond_approval env rpc key rid choice w = Some (Inl (CoreError_Rpc 4009 d), w)"
  by (simp add: respond_approval_def act_bind_def client_and_chat_simp [OF assms(1,2)] act_await_def assms(3))

section \<open>A second connect\<close>

text \<open>
  While a supervisor runs, another \<open>connect\<close> registers its sink but starts no supervisor: the
  running one goes on delivering to the sink it was started with.
\<close>

lemma second_connect_starts_no_supervisor:
  assumes "establish env net (w\<lparr>sink := Some snk\<rparr>) = Some (Inr c, w1)" and "supervising w1"
  shows "connect_inner env net snk w = Some (Inr None, w1\<lparr>client := Some c, stop_flag := False, supervising := True\<rparr>)"
  using assms by (simp add: connect_inner_def act_simps)

section \<open>A corrupt session file\<close>

text \<open>\<open>load_registry\<close> reports it, the constructor drops the report and starts without tabs.\<close>

lemma corrupt_registry_is_dropped:
  "load_registry env fs = Inl e \<Longrightarrow> reg (core_new env ok fs) = registry_new"
  by (simp add: core_new_def)

end
