(* ===== verification/Supervisor_Props.thy ===== *)
theory Supervisor_Props
  imports Supervisor Core_Findings
begin

text \<open>Properties of the supervisor.\<close>

section \<open>The supervisor and the core\<close>


text \<open>A network that mints and opens without touching the core.\<close>

definition quiet_net :: "(core_error + ws_ticket) \<Rightarrow> (client_error + nat) \<Rightarrow> plain_url net" where
  "quiet_net t res = \<lparr>net_mint = (\<lambda>_ w. (t, w)), net_open = (\<lambda>_ w. (res, w)), net_login = (\<lambda>_ _ _ w. (Inr (), w)),
     net_profiles = (\<lambda>_ w. (Inr [], w)), net_auth_new = (\<lambda>_. Inr ())\<rparr>"

lemma quiet_net_within: "net_within env snk (quiet_net t res)"
  by (simp add: net_within_def quiet_net_def)


section \<open>The backoff ladder\<close>

text \<open>Runs with the delays slept since the last connection came up.\<close>

definition is_sleep :: "sup_phase \<Rightarrow> bool" where
  "is_sleep p \<longleftrightarrow> (\<exists>d. p = Sup_Sleep d)"

definition delays_after :: "nat list \<Rightarrow> sup_phase \<Rightarrow> sup_phase \<Rightarrow> nat list" where
  "delays_after ds p p' =
     (case p' of
        Sup_Sleep d \<Rightarrow> (if is_sleep p then ds else ds @ [d])
      | Sup_Begin _ \<Rightarrow> []
      | _ \<Rightarrow> ds)"

inductive sup_delays ::
  "'u core_env \<Rightarrow> 'u rpc \<Rightarrow> ((string \<rightharpoonup> live_session) \<Rightarrow> string list) \<Rightarrow> 'u net \<Rightarrow> nat \<Rightarrow> 'u sup \<Rightarrow> nat list \<Rightarrow> 'u sup \<Rightarrow> bool"
  for env rpc order net snk s0 where
  start: "sup_delays env rpc order net snk s0 [] s0"
| next_step: "sup_delays env rpc order net snk s0 ds s \<Longrightarrow> sup_step env rpc order net snk s s' \<Longrightarrow>
    sup_delays env rpc order net snk s0 (delays_after ds (sup_phase s) (sup_phase s')) s'"

definition on_ladder :: "nat list \<Rightarrow> 'u sup \<Rightarrow> bool" where
  "on_ladder ds s \<longleftrightarrow>
     (\<forall>i < length ds. \<exists>j. ds ! i = jittered_delay i j) \<and>
     (sup_phase s \<noteq> Sup_Done \<longrightarrow> sup_attempt s = length ds)"

lemma on_ladder_step:
  assumes "sup_step env rpc order net snk s s'" and "on_ladder ds s"
    and "\<forall>c. sup_phase s = Sup_Begin c \<longrightarrow> ds = []" "\<forall>c. sup_phase s = Sup_Loop c \<longrightarrow> ds = []"
  shows "on_ladder (delays_after ds (sup_phase s) (sup_phase s')) s' \<and>
    (\<forall>c. sup_phase s' = Sup_Begin c \<longrightarrow> delays_after ds (sup_phase s) (sup_phase s') = []) \<and>
    (\<forall>c. sup_phase s' = Sup_Loop c \<longrightarrow> delays_after ds (sup_phase s) (sup_phase s') = [])"
  using assms
proof (induction rule: sup_step.induct)
  case (begins s c st epoch s')
  then show ?case
    by (auto simp: sup_begin_def Let_def delays_after_def on_ladder_def split: connection_state.splits if_splits)
next
  case (loops s c inp s')
  then show ?case
    by (auto simp: sup_loop_def Let_def delays_after_def on_ladder_def
        split: loop_input.splits connection_state.splits if_splits)
next
  case (attempts s jitter)
  then show ?case
    by (auto simp: sup_attempt_step_def delays_after_def on_ladder_def is_sleep_def nth_append less_Suc_eq)
next
  case (establishes s d s')
  from establishes(2) show ?case
    by (cases rule: sup_establish_cases) (use establishes in \<open>auto simp: delays_after_def on_ladder_def\<close>)
next
  case (others s w)
  then show ?case
    by (auto simp: delays_after_def on_ladder_def is_sleep_def split: sup_phase.split)
qed (auto simp: sup_down_def sup_interrupted_def delays_after_def on_ladder_def)

text \<open>
  C15: the ladder is climbed one rung per failed attempt and starts again when a connection
  comes up: in any run, the i-th delay slept since the last connection is the jittered delay
  of rung i, and the attempt counter is the number of these delays.
\<close>

theorem ladder_counts_failures:
  assumes "sup_delays env rpc order net snk (sup_start c w) ds s"
  shows "(\<forall>i < length ds. \<exists>j. ds ! i = jittered_delay i j) \<and>
    (sup_phase s \<noteq> Sup_Done \<longrightarrow> sup_attempt s = length ds)"
proof -
  have "on_ladder ds s \<and> (\<forall>c. sup_phase s = Sup_Begin c \<longrightarrow> ds = []) \<and> (\<forall>c. sup_phase s = Sup_Loop c \<longrightarrow> ds = [])"
    using assms
  proof (induction rule: sup_delays.induct)
    case start
    then show ?case by (simp add: on_ladder_def sup_start_def)
  next
    case (next_step ds s s')
    then show ?case using on_ladder_step [OF next_step(2)] by blast
  qed
  then show ?thesis by (simp add: on_ladder_def)
qed

text \<open>A client that is dead on arrival: the supervisor is asleep before its first attempt.\<close>

definition asleep :: "plain_url sup" where
  "asleep = sup_attempt_step 1 0 (sup_down plain_env \<lparr>sup_phase = Sup_Down, sup_attempt = 0,
     sup_core = emit_status 1 (Conn_Closed ''lost'') (emit_status 1 Conn_Connecting one_tab)\<rparr>)"

lemma asleep_run:
  "sup_delays plain_env (quiet_rpc JNull) (\<lambda>_. []) (quiet_net t res) 1 (sup_start 7 one_tab) [jittered_delay 0 0] asleep"
proof -
  let ?d = "sup_delays plain_env (quiet_rpc JNull) (\<lambda>_. []) (quiet_net t res) 1 (sup_start 7 one_tab)"
  let ?step = "sup_step plain_env (quiet_rpc JNull) (\<lambda>_. []) (quiet_net t res) 1"
  define s1 where "s1 = \<lparr>sup_phase = Sup_Down, sup_attempt = 0,
     sup_core = emit_status 1 (Conn_Closed ''lost'') (emit_status 1 Conn_Connecting one_tab)\<rparr>"
  have 1: "?step (sup_start 7 one_tab) s1"
    by (rule sup_step.begins [where c = 7 and st = "State_Closed ''lost''" and epoch = "''''"])
      (simp_all add: sup_start_def sup_begin_def s1_def local_close_reason_def)
  have 2: "?step s1 (sup_down plain_env s1)" by (rule sup_step.down) (simp add: s1_def)
  have f: "\<not> stop_flag (sup_core s1)" by (simp add: s1_def emit_status_def one_tab_def core_new_def)
  have 3: "?step (sup_down plain_env s1) asleep"
    unfolding asleep_def s1_def [symmetric] by (rule sup_step.attempts) (simp add: sup_down_def f)
  show ?thesis
    using sup_delays.next_step [OF sup_delays.next_step [OF sup_delays.next_step [OF sup_delays.start 1] 2] 3]
    by (simp add: delays_after_def sup_start_def sup_down_def f asleep_def sup_attempt_step_def s1_def is_sleep_def
        split: if_splits)
qed

lemma ladder_counts_failures_witness: "sup_attempt asleep = 1"
  using ladder_counts_failures [OF asleep_run [of "Inl CoreError_Timeout" "Inr 8"]]
  by (simp add: asleep_def sup_attempt_step_def)

section \<open>How the supervisor ends\<close>

definition last_call :: "'u core \<Rightarrow> (nat \<times> sink_call) option" where
  "last_call w = (if sink_calls w = [] then None else Some (last (sink_calls w)))"

lemma flush_sink_calls [simp]: "last_call (flush_registry env w) = last_call w"
  by (simp add: last_call_def)

lemma last_call_status [simp]: "last_call (emit_status snk st w) = Some (snk, On_Connection st)"
  by (simp add: last_call_def emit_status_def)

lemma flush_dirty:
  "registry_dirty (flush_registry env w) \<Longrightarrow>
   \<exists>fs e. save_registry env (reg w) fs = (Inl e, disk (flush_registry env w))"
  by (auto simp: flush_registry_def split: prod.splits sum.splits if_splits)

lemma status_disk [simp]:
  "registry_dirty (emit_status snk st w) = registry_dirty w" "disk (emit_status snk st w) = disk w"
  by (simp_all add: emit_status_def)



section \<open>A stop during an attempt is lost\<close>

text \<open>
  \<open>disconnect\<close> while the supervisor awaits an attempt (it raises the stop flag, and there is
  no client to close): when the attempt succeeds, the supervisor serves the new connection
  all the same.
\<close>

lemma stop_during_attempt_is_lost:
  assumes "establish env net (sup_core s) = Some (Inr c, disconnect env w)"
  shows "\<exists>s'. sup_establish env net snk s = Some s' \<and> sup_phase s' = Sup_Begin c \<and>
    client (sup_core s') = Some c \<and> stop_flag (sup_core s')"
  using assms by (auto simp: sup_establish_def disconnect_def signal_stop_def close_client_def
      flush_registry_def split: option.splits sum.splits prod.splits)

end
