(* ===== verification/Ws_Facts.thy ===== *)
theory Ws_Facts
  imports Ws_Client
begin

text \<open>
  The WebSocket client as a concurrent system: one rule per section its tasks and callers run
  on the shared state, in any interleaving; the invariant of the reachable states, and what a
  step can and cannot change.
\<close>

section \<open>Steps\<close>

inductive ws_step :: "serde \<Rightarrow> ws \<Rightarrow> ws \<Rightarrow> bool" for sj where
  line: "ws_reader s \<Longrightarrow> ws_step sj s (read_line sj l s)"
| inbound: "ws_reader s \<Longrightarrow> ws_step sj s (s\<lparr>ws_last_inbound := now\<rparr>)"
| ended: "ws_reader s \<Longrightarrow> ws_step sj s (reader_end reason s)"
| issue: "ws_step sj s (snd (call_issue sj meth params s))"
| timeout: "ws_step sj s (call_timeout i ms s)"
| writing: "ws_writer s \<Longrightarrow> ws_step sj s (writer_step sent s)"
| beat: "ws_step sj s (heartbeat_tick sj now s)"
| close: "ws_step sj s (shutdown reason s)"
| poll: "ws_ready s = Some c \<Longrightarrow> ws_step sj s (connect_poll c s)"
| give_up: "ws_ready s = Some c \<Longrightarrow> ws_step sj s (connect_give_up s)"
| events: "ws_step sj s (snd (subscribe s))"

abbreviation ws_run :: "serde \<Rightarrow> ws \<Rightarrow> ws \<Rightarrow> bool" where
  "ws_run sj \<equiv> (ws_step sj)\<^sup>*\<^sup>*"

definition ws_reachable :: "serde \<Rightarrow> ws \<Rightarrow> bool" where
  "ws_reachable sj s \<longleftrightarrow> (\<exists>cfg now. ws_run sj (ws_connecting cfg now) s)"

text \<open>A text frame is a run of its lines.\<close>

lemma settle_reader [simp]: "ws_reader (settle i res s) = ws_reader s"
  by (simp add: settle_def)

lemma record_seq_frame [simp]:
  "ws_reader (record_seq ev s) = ws_reader s" "ws_conn (record_seq ev s) = ws_conn s"
  "ws_pending (record_seq ev s) = ws_pending s" "ws_answers (record_seq ev s) = ws_answers s"
  "ws_published (record_seq ev s) = ws_published s" "ws_next_id (record_seq ev s) = ws_next_id s"
  "ws_ready (record_seq ev s) = ws_ready s" "ws_first_rx (record_seq ev s) = ws_first_rx s"
  by (auto simp: record_seq_def Let_def split: option.split)

lemma read_line_reader [simp]: "ws_reader (read_line sj l s) = ws_reader s"
  by (simp add: read_line_def split: option.split decoded.split)

lemma read_lines_run: "ws_reader s \<Longrightarrow> ws_run sj s (fold (read_line sj) ls s)"
proof (induction ls arbitrary: s)
  case (Cons l ls)
  have "ws_step sj s (read_line sj l s)" by (rule ws_step.line [OF Cons.prems])
  moreover have "ws_run sj (read_line sj l s) (fold (read_line sj) ls (read_line sj l s))"
    by (rule Cons.IH) (simp add: Cons.prems)
  ultimately show ?case by (simp add: converse_rtranclp_into_rtranclp)
qed simp

lemma reader_step_run: "ws_reader s \<Longrightarrow> ws_run sj s (reader_step sj now m s)"
proof (cases m)
  case (Msg_Text t)
  assume r: "ws_reader s"
  have "ws_step sj s (s\<lparr>ws_last_inbound := now\<rparr>)" by (rule ws_step.inbound [OF r])
  moreover have "ws_run sj (s\<lparr>ws_last_inbound := now\<rparr>) (fold (read_line sj) (split_lines t) (s\<lparr>ws_last_inbound := now\<rparr>))"
    by (rule read_lines_run) (simp add: r)
  ultimately show ?thesis by (simp add: Msg_Text converse_rtranclp_into_rtranclp)
qed (auto intro: ws_step.intros)

section \<open>The invariant\<close>

text \<open>The highest sequence number among the events of a session, at least 0.\<close>

definition seq_mark :: "string \<Rightarrow> event_params list \<Rightarrow> int" where
  "seq_mark sid evs =
     fold (\<lambda>ev m. case ev_seq ev of None \<Rightarrow> m | Some n \<Rightarrow> if ev_session_id ev = sid then max m n else m) evs 0"

lemma seq_mark_snoc:
  "seq_mark sid (evs @ [ev]) =
     (case ev_seq ev of None \<Rightarrow> seq_mark sid evs
      | Some n \<Rightarrow> if ev_session_id ev = sid then max (seq_mark sid evs) n else seq_mark sid evs)"
  by (simp add: seq_mark_def split: option.split)

definition ws_inv :: "ws \<Rightarrow> bool" where
  "ws_inv s \<longleftrightarrow>
     (\<forall>i \<in> ws_pending s. ws_answers s i = None) \<and>
     (\<forall>i. i \<in> ws_pending s \<or> ws_answers s i \<noteq> None \<longrightarrow> (\<exists>n < ws_next_id s. i = call_id n)) \<and>
     (\<forall>sid. sid \<noteq> '''' \<longrightarrow> last_seq sid s = seq_mark sid (ws_published s)) \<and>
     (\<forall>c. ws_first_rx s = Some c \<longrightarrow> 0 < c \<and> c \<le> length (ws_published s) \<and>
            event_type (ws_published s ! (c - 1)) = ''gateway.ready'')"

lemma ws_inv_connecting: "ws_inv (ws_connecting cfg now)"
  by (simp add: ws_inv_def ws_connecting_def last_seq_def seq_mark_def)

lemma call_id_inj: "call_id m = call_id n \<longleftrightarrow> m = n"
  by (auto simp: call_id_def dest: show_nat_inj)

lemma call_id_fresh: "ws_inv s \<Longrightarrow> call_id (ws_next_id s) \<notin> ws_pending s \<and> ws_answers s (call_id (ws_next_id s)) = None"
  unfolding ws_inv_def by (metis call_id_inj less_irrefl)

text \<open>A part of the state that an operation leaves alone.\<close>

lemma close_terminal_frame [simp]:
  "ws_pending (snd (close_terminal r s)) = ws_pending s" "ws_answers (snd (close_terminal r s)) = ws_answers s"
  "ws_published (snd (close_terminal r s)) = ws_published s" "ws_next_id (snd (close_terminal r s)) = ws_next_id s"
  "ws_last_seq (snd (close_terminal r s)) = ws_last_seq s" "ws_first_rx (snd (close_terminal r s)) = ws_first_rx s"
  "ws_ready (snd (close_terminal r s)) = ws_ready s" "ws_heartbeat (snd (close_terminal r s)) = ws_heartbeat s"
  "ws_writer (snd (close_terminal r s)) = ws_writer s"
  "ws_conn (snd (close_terminal r s)) = (case ws_conn s of State_Closed x \<Rightarrow> State_Closed x | _ \<Rightarrow> State_Closed r)"
  "fst (close_terminal r s) = (\<forall>x. ws_conn s \<noteq> State_Closed x)"
  by (auto simp: close_terminal_def split: connection_state.split)

lemma fail_pending_frame [simp]:
  "ws_pending (fail_pending e s) = {}" "ws_published (fail_pending e s) = ws_published s"
  "ws_next_id (fail_pending e s) = ws_next_id s" "ws_last_seq (fail_pending e s) = ws_last_seq s"
  "ws_first_rx (fail_pending e s) = ws_first_rx s" "ws_conn (fail_pending e s) = ws_conn s"
  "ws_ready (fail_pending e s) = ws_ready s" "ws_writer (fail_pending e s) = ws_writer s"
  "ws_answers (fail_pending e s) i = (if i \<in> ws_pending s then Some (Inl e) else ws_answers s i)"
  by (simp_all add: fail_pending_def)

lemma enqueue_frame [simp]:
  "ws_pending (enqueue m s) = ws_pending s" "ws_answers (enqueue m s) = ws_answers s"
  "ws_published (enqueue m s) = ws_published s" "ws_next_id (enqueue m s) = ws_next_id s"
  "ws_last_seq (enqueue m s) = ws_last_seq s" "ws_first_rx (enqueue m s) = ws_first_rx s"
  "ws_conn (enqueue m s) = ws_conn s" "ws_ready (enqueue m s) = ws_ready s"
  by (simp_all add: enqueue_def)

lemma writer_gone_frame [simp]:
  "ws_pending (writer_gone s) = ws_pending s" "ws_answers (writer_gone s) = ws_answers s"
  "ws_published (writer_gone s) = ws_published s" "ws_next_id (writer_gone s) = ws_next_id s"
  "ws_last_seq (writer_gone s) = ws_last_seq s" "ws_first_rx (writer_gone s) = ws_first_rx s"
  "ws_conn (writer_gone s) = ws_conn s" "ws_ready (writer_gone s) = ws_ready s"
  by (simp_all add: writer_gone_def)

lemma last_seq_cong: "ws_last_seq s' = ws_last_seq s \<Longrightarrow> last_seq sid s' = last_seq sid s"
  by (simp add: last_seq_def)

text \<open>Steps that only fail calls or leave them alone keep the invariant.\<close>

lemma ws_inv_fail:
  assumes "ws_inv s" and "ws_published s' = ws_published s" and "ws_last_seq s' = ws_last_seq s"
    and "ws_first_rx s' = ws_first_rx s" and "ws_next_id s \<le> ws_next_id s'"
    and "ws_pending s' = {} \<and> (\<forall>i. ws_answers s' i = (if i \<in> ws_pending s then Some (Inl e) else ws_answers s i)) \<or>
         ws_pending s' = ws_pending s \<and> ws_answers s' = ws_answers s"
  shows "ws_inv s'"
proof -
  have "\<forall>i \<in> ws_pending s'. ws_answers s' i = None"
    using assms(1,6) unfolding ws_inv_def by auto
  moreover have "\<exists>n < ws_next_id s'. i = call_id n" if "i \<in> ws_pending s' \<or> ws_answers s' i \<noteq> None" for i
  proof -
    have "i \<in> ws_pending s \<or> ws_answers s i \<noteq> None" using that assms(6) by (auto split: if_splits)
    then obtain n where "n < ws_next_id s" "i = call_id n" using assms(1) unfolding ws_inv_def by blast
    then show ?thesis using assms(5) by (intro exI [of _ n]) simp
  qed
  ultimately show ?thesis
    using assms(1) unfolding ws_inv_def assms(2,4) last_seq_cong [OF assms(3)] by blast
qed

lemma ws_inv_settle: "ws_inv s \<Longrightarrow> ws_inv (settle i res s)"
  unfolding ws_inv_def settle_def last_seq_def by (auto split: if_splits)

lemma ws_inv_event:
  assumes "ws_inv s"
  shows "ws_inv ((record_seq ev s)\<lparr>ws_published := ws_published s @ [ev]\<rparr>)"
proof -
  let ?s = "(record_seq ev s)\<lparr>ws_published := ws_published s @ [ev]\<rparr>"
  have m: "last_seq sid ?s = seq_mark sid (ws_published s @ [ev])" if "sid \<noteq> ''''" for sid
    using assms that unfolding ws_inv_def seq_mark_snoc
    by (auto simp: last_seq_def record_seq_def Let_def max_def split: option.split)
  have "c \<le> Suc (length (ws_published s)) \<and> event_type ((ws_published s @ [ev]) ! (c - Suc 0)) = ''gateway.ready''"
    if "ws_first_rx s = Some c" for c
    using assms that unfolding ws_inv_def by (auto simp: nth_append)
  with m assms show ?thesis unfolding ws_inv_def by auto
qed

lemma ws_inv_read_line: "ws_inv s \<Longrightarrow> ws_inv (read_line sj l s)"
  by (simp add: read_line_def ws_inv_settle ws_inv_event split: option.split decoded.split)

lemma ws_inv_issue: "ws_inv s \<Longrightarrow> ws_inv (snd (call_issue sj meth params s))"
  using call_id_fresh [of s] unfolding ws_inv_def call_issue_def Let_def enqueue_def last_seq_def
  by (auto intro: less_SucI) (metis less_SucI)+

lemma ws_inv_timeout: "ws_inv s \<Longrightarrow> ws_inv (call_timeout i ms s)"
  unfolding ws_inv_def call_timeout_def last_seq_def by (auto split: if_splits)

lemma ws_inv_poll:
  assumes "ws_inv s"
  shows "ws_inv (connect_poll c s)"
proof -
  have "ws_inv (s\<lparr>ws_ready := x\<rparr>)" for x
    using assms by (rule ws_inv_fail) simp_all
  moreover have "ws_inv (spawn_heartbeat ((mark_open (s\<lparr>ws_replay_epoch := a, ws_skin := b\<rparr>))
      \<lparr>ws_first_rx := Some (Suc c), ws_ready := None\<rparr>))"
    if "c < length (ws_published s)" "event_type (ws_published s ! c) = ''gateway.ready''" for a b
    using assms that unfolding ws_inv_def by (auto simp: spawn_heartbeat_def mark_open_def last_seq_def)
  ultimately show ?thesis
    using assms by (auto simp: connect_poll_def broadcast_recv_def Let_def)
qed

lemma ws_inv_writer: "ws_inv s \<Longrightarrow> ws_inv (writer_step sent s)"
  by (cases "ws_conn s")
    (auto simp: writer_step_def Let_def split_beta writer_gone_def split: list.split outbound.split
      elim!: ws_inv_fail [where e = "ClientError_Closed ungraceful_close_reason"])

lemma ws_inv_shutdown: "ws_inv s \<Longrightarrow> ws_inv (shutdown reason s)"
  by (erule ws_inv_fail [where e = "ClientError_Closed reason"]) (simp_all add: shutdown_def)

lemma ws_inv_reader_end: "ws_inv s \<Longrightarrow> ws_inv (reader_end reason s)"
  by (erule ws_inv_fail [where e = "ClientError_Closed reason"]) (simp_all add: reader_end_def)

lemma ws_inv_same:
  assumes "ws_inv s" and "ws_published s' = ws_published s" and "ws_last_seq s' = ws_last_seq s"
    and "ws_first_rx s' = ws_first_rx s \<or> ws_first_rx s' = None" and "ws_next_id s' = ws_next_id s"
    and "ws_pending s' = ws_pending s" "ws_answers s' = ws_answers s"
  shows "ws_inv s'"
  using assms(1,4) unfolding ws_inv_def assms(2,5-) last_seq_cong [OF assms(3)] by auto

lemma ws_inv_beat: "ws_inv s \<Longrightarrow> ws_inv (heartbeat_tick sj now s)"
proof -
  assume s: "ws_inv s"
  have "ws_inv ((shutdown r s)\<lparr>ws_heartbeat := None\<rparr>)" for r
    by (rule ws_inv_same [OF ws_inv_shutdown [OF s, of r]]) simp_all
  moreover have "ws_inv (s\<lparr>ws_heartbeat := h\<rparr>)" for h
    by (rule ws_inv_same [OF s]) simp_all
  moreover have "ws_inv (enqueue m (s\<lparr>ws_heartbeat := h\<rparr>))" for h m
    by (rule ws_inv_same [OF s]) simp_all
  ultimately show ?thesis
    using s by (simp add: heartbeat_tick_def Let_def split: option.split connection_state.split)
qed

lemma ws_step_inv: "ws_step sj s s' \<Longrightarrow> ws_inv s \<Longrightarrow> ws_inv s'"
proof (induction rule: ws_step.induct)
  case (inbound s now)
  then show ?case by (auto intro: ws_inv_same)
next
  case (give_up s c)
  show ?case
    unfolding connect_give_up_def by (rule ws_inv_same [OF ws_inv_shutdown [OF give_up(2)]]) simp_all
next
  case (events s)
  then show ?case by (auto simp: subscribe_def split: option.split intro: ws_inv_same)
qed (auto intro: ws_inv_read_line ws_inv_reader_end ws_inv_issue ws_inv_timeout ws_inv_writer ws_inv_beat
    ws_inv_shutdown ws_inv_poll)

lemma ws_run_inv: "ws_run sj s s' \<Longrightarrow> ws_inv s \<Longrightarrow> ws_inv s'"
  by (induction rule: rtranclp_induct) (auto intro: ws_step_inv)

lemma ws_reachable_inv: "ws_reachable sj s \<Longrightarrow> ws_inv s"
  unfolding ws_reachable_def using ws_run_inv ws_inv_connecting by blast

section \<open>What no step changes\<close>

text \<open>A settled answer, and the events already published.\<close>

definition answers_kept :: "ws \<Rightarrow> ws \<Rightarrow> bool" where
  "answers_kept s s' \<longleftrightarrow>
     (\<forall>i r. ws_answers s i = Some r \<longrightarrow> ws_answers s' i = Some r) \<and> prefix (ws_published s) (ws_published s')"

lemma answers_kept_refl: "ws_answers s' = ws_answers s \<Longrightarrow> ws_published s' = ws_published s \<Longrightarrow> answers_kept s s'"
  by (simp add: answers_kept_def)

lemma answers_kept_fail:
  "ws_inv s \<Longrightarrow> ws_published s' = ws_published s \<Longrightarrow>
   (\<forall>i. ws_answers s' i = (if i \<in> ws_pending s then Some (Inl e) else ws_answers s i)) \<Longrightarrow> answers_kept s s'"
  unfolding answers_kept_def ws_inv_def by auto

lemma settle_kept: "ws_inv s \<Longrightarrow> answers_kept s (settle i r s)"
  unfolding answers_kept_def ws_inv_def settle_def by auto

lemma ws_step_kept: "ws_step sj s s' \<Longrightarrow> ws_inv s \<Longrightarrow> answers_kept s s'"
proof (induction rule: ws_step.induct)
  case (line s l)
  have "answers_kept s ((record_seq ev s)\<lparr>ws_published := ws_published s @ [ev]\<rparr>)" for ev
    by (simp add: answers_kept_def)
  with line show ?case
    by (simp add: read_line_def settle_kept answers_kept_refl split: option.split decoded.split)
next
  case (ended s reason)
  from ended(2) show ?case
    by (rule answers_kept_fail [where e = "ClientError_Closed reason"]) (simp_all add: reader_end_def)
next
  case (issue s meth params)
  have "ws_answers (snd (call_issue sj meth params s)) = ws_answers s"
    "ws_published (snd (call_issue sj meth params s)) = ws_published s"
    by (simp_all add: call_issue_def Let_def)
  then show ?case by (rule answers_kept_refl)
next
  case (timeout s i ms)
  then show ?case unfolding answers_kept_def ws_inv_def call_timeout_def by auto
next
  case (writing s sent)
  have "answers_kept s (writer_gone (fail_pending (ClientError_Closed r) (snd (close_terminal r s))))" for r
    by (rule answers_kept_fail [OF writing(2), where e = "ClientError_Closed r"]) simp_all
  then show ?case
    by (simp add: writer_step_def Let_def split_beta answers_kept_refl split: list.split outbound.split)
next
  case (beat s now)
  have "answers_kept s ((shutdown r s)\<lparr>ws_heartbeat := None\<rparr>)" for r
    by (rule answers_kept_fail [OF beat, where e = "ClientError_Closed r"]) (simp_all add: shutdown_def)
  then show ?case
    by (simp add: heartbeat_tick_def Let_def answers_kept_refl split: option.split connection_state.split)
next
  case (close s reason)
  then show ?case
    by (rule answers_kept_fail [where e = "ClientError_Closed reason"]) (simp_all add: shutdown_def)
next
  case (poll s c)
  then show ?case
    by (simp add: connect_poll_def mark_open_def spawn_heartbeat_def answers_kept_refl
        split: prod.split received.split)
next
  case (give_up s c)
  from give_up(2) show ?case
    by (rule answers_kept_fail [where e = "ClientError_Closed ''gateway.ready not received''"]) (simp_all add: connect_give_up_def shutdown_def)
qed (auto simp: subscribe_def answers_kept_refl split: option.split)

lemma ws_run_kept:
  assumes "ws_run sj s s'" and "ws_inv s"
  shows "answers_kept s s'"
  using assms(1)
proof (induction rule: rtranclp_induct)
  case (step y z)
  have "answers_kept y z" by (rule ws_step_kept [OF step(2) ws_run_inv [OF step(1) assms(2)]])
  with step.IH show ?case unfolding answers_kept_def by (meson prefix_order.trans)
qed (simp add: answers_kept_refl)

text \<open>Once \<open>connect\<close> returned, a close reason stays.\<close>

lemma ws_step_closed: "ws_step sj s s' \<Longrightarrow> ws_ready s = None \<Longrightarrow> ws_ready s' = None \<and>
    (\<forall>r. ws_conn s = State_Closed r \<longrightarrow> ws_conn s' = State_Closed r)"
proof (induction rule: ws_step.induct)
  case (line s l)
  then show ?case by (simp add: read_line_def settle_def split: option.split decoded.split)
next
  case (writing s sent)
  then show ?case
    by (simp add: writer_step_def Let_def split_beta split: list.split outbound.split)
next
  case (beat s now)
  then show ?case
    by (simp add: heartbeat_tick_def Let_def shutdown_def split: option.split connection_state.split)
qed (simp_all add: reader_end_def call_issue_def Let_def call_timeout_def shutdown_def subscribe_def split: option.split)

lemma ws_run_closed:
  assumes "ws_run sj s s'" and "ws_ready s = None" and "ws_conn s = State_Closed r"
  shows "ws_conn s' = State_Closed r"
proof -
  have "ws_ready s' = None \<and> ws_conn s' = State_Closed r"
    using assms(1) by (induction rule: rtranclp_induct) (use assms(2,3) ws_step_closed in \<open>blast+\<close>)
  then show ?thesis by simp
qed

section \<open>Frames as text\<close>

text \<open>What serializing a frame has to do for the client to read it back from its line.\<close>

definition wire_ok :: "serde \<Rightarrow> json \<Rightarrow> bool" where
  "wire_ok sj v \<longleftrightarrow>
     (let t = to_compact_string sj v
      in from_str sj t = Some v \<and> trim t = t \<and> t \<noteq> '''' \<and> nl \<notin> set t \<and> cr \<notin> set t)"

lemma split_lines_single:
  assumes "nl \<notin> set t" and "cr \<notin> set t" and "trim t = t" and "t \<noteq> ''''"
  shows "split_lines t = [t]"
proof -
  have "trim_end_matches cr t = t"
    using assms(2) by (cases t rule: rev_cases) (auto simp: trim_end_matches_def)
  then show ?thesis using assms by (simp add: split_lines_def split_on_id)
qed

end
