(* ===== verification/Ws_Props.thy ===== *)
theory Ws_Props
  imports Ws_Facts
begin

text \<open>Properties of the WebSocket client, over every interleaving of its tasks and callers.\<close>

section \<open>Concrete clients for the witnesses\<close>

text \<open>A JSON crate that knows two documents: a ready event and the reply to the first call.\<close>

definition ready_event :: json where
  "ready_event = JObj [(''jsonrpc'', JStr ''2.0''), (''method'', JStr ''event''),
     (''params'', JObj [(''type'', JStr ''gateway.ready''), (''payload'', JObj [(''replay_epoch'', JStr ''e1'')])])]"

definition first_reply :: json where
  "first_reply = JObj [(''jsonrpc'', JStr ''2.0''), (''id'', JStr ''r1''), (''result'', JStr ''ok'')]"

definition two_doc_serde :: serde where
  "two_doc_serde = \<lparr>to_string = (\<lambda>_. Some ''{}''),
     from_str = (\<lambda>t. if t = ''ready'' then Some ready_event else if t = ''reply'' then Some first_reply else None),
     parse_error = (\<lambda>_. ''bad''), num_to_string = (\<lambda>_. ''1'')\<rparr>"

definition got_ready :: ws where
  "got_ready = reader_step two_doc_serde 5 (Msg_Text ''ready'') (ws_connecting client_config_default 0)"

definition connected :: ws where
  "connected = connect_poll 0 got_ready"

definition ready_params :: event_params where
  "ready_params = \<lparr>event_type = ''gateway.ready'', ev_session_id = '''', ev_seq = None,
     ev_payload = JObj [(''replay_epoch'', JStr ''e1'')]\<rparr>"

lemma got_ready_simp:
  "got_ready = (ws_connecting client_config_default 5)\<lparr>ws_published := [ready_params]\<rparr>"
proof -
  have "split_lines ''ready'' = [''ready'']" by code_simp
  moreover have "decode two_doc_serde ''ready'' = Some (Decoded_Event ready_params)" by code_simp
  ultimately show ?thesis
    by (simp add: got_ready_def read_line_def record_seq_def ready_params_def ws_connecting_def)
qed

lemma connected_simp:
  "connected = got_ready\<lparr>ws_replay_epoch := ''e1'', ws_skin := JNull, ws_conn := State_Open, ws_first_rx := Some 1,
     ws_ready := None, ws_heartbeat := Some 0\<rparr>"
  by (simp add: connected_def got_ready_simp connect_poll_def broadcast_recv_def ws_connecting_def ready_params_def
      spawn_heartbeat_def mark_open_def client_config_default_def broadcast_capacity_def Let_def)

lemma connected_reachable: "ws_reachable two_doc_serde connected"
proof -
  have "ws_run two_doc_serde (ws_connecting client_config_default 0) got_ready"
    unfolding got_ready_def by (rule reader_step_run) (simp add: ws_connecting_def)
  moreover have "ws_step two_doc_serde got_ready connected"
    unfolding connected_def by (rule ws_step.poll) (simp add: got_ready_simp ws_connecting_def)
  ultimately show ?thesis unfolding ws_reachable_def by (meson rtranclp.rtrancl_into_rtrancl)
qed

section \<open>Calls\<close>

text \<open>
  C17: a call resolves once: whatever the reader, the writer, the heartbeat, other callers and
  late replies do afterwards, the answer a caller got stays its answer, and no event already
  broadcast is lost or reordered.
\<close>

theorem answers_are_final:
  assumes "ws_reachable sj s" and "ws_run sj s s'"
  shows "(\<forall>i r. ws_answers s i = Some r \<longrightarrow> ws_answers s' i = Some r) \<and>
    prefix (ws_published s) (ws_published s') \<and> (\<forall>i \<in> ws_pending s'. ws_answers s' i = None)"
proof -
  have inv: "ws_inv s" by (rule ws_reachable_inv [OF assms(1)])
  show ?thesis
    using ws_run_kept [OF assms(2) inv] ws_run_inv [OF assms(2) inv]
    unfolding answers_kept_def ws_inv_def by blast
qed

lemma answers_are_final_witness:
  "ws_published (shutdown ''bye'' connected) ! 0 = ready_params"
proof -
  have "ws_run two_doc_serde connected (shutdown ''bye'' connected)"
    by (rule r_into_rtranclp, rule ws_step.close)
  from answers_are_final [OF connected_reachable this]
  show ?thesis by (auto simp: connected_simp got_ready_simp prefix_def)
qed


text \<open>The client after its first call went out.\<close>

definition called :: ws where
  "called = snd (call_issue two_doc_serde ''session.list'' JNull connected)"

lemma called_reachable: "ws_reachable two_doc_serde called"
  using connected_reachable ws_step.issue [of two_doc_serde connected "''session.list''" JNull]
  unfolding called_def ws_reachable_def by (meson rtranclp.rtrancl_into_rtrancl)

lemma first_call_id: "call_id (Suc 0) = ''r1''"
  by code_simp

lemma called_pending: "ws_pending called = {''r1''}" "ws_answers called = Map.empty" "ws_writer called"
  by (simp_all add: called_def call_issue_def enqueue_def Let_def connected_simp got_ready_simp ws_connecting_def
      first_call_id)


section \<open>Closing\<close>

text \<open>
  C19: the first closer wins: once \<open>connect\<close> has returned, the reason of a closed connection
  never changes, whoever closes it again; and every way to close it (a local close, the end of
  the reader, a silent connection) leaves no caller waiting: each pending call gets the close
  reason, or the one it was closed with, as its error, and a new call is refused with the
  reason of the first closer.
\<close>

theorem first_closer_wins:
  assumes "ws_run sj s s'" and "ws_ready s = None" and "ws_conn s = State_Closed r"
  shows "ws_conn s' = State_Closed r \<and> call_check s' = Some (ClientError_Closed r) \<and>
    ws_conn (shutdown r2 s') = State_Closed r \<and> ws_pending (shutdown r2 s') = {} \<and>
    ws_conn (reader_end r2 s') = State_Closed r \<and> ws_pending (reader_end r2 s') = {} \<and>
    (\<forall>i. i \<in> ws_pending s' \<longrightarrow> ws_answers (shutdown r2 s') i = Some (Inl (ClientError_Closed r2)) \<and>
           ws_answers (reader_end r2 s') i = Some (Inl (ClientError_Closed r2)))"
  using ws_run_closed [OF assms] by (simp add: call_check_def shutdown_def reader_end_def)

lemma first_closer_wins_witness:
  "call_check (reader_end ''later'' (shutdown ''bye'' connected)) = Some (ClientError_Closed ''bye'')"
proof -
  have "ws_run two_doc_serde (shutdown ''bye'' connected) (reader_end ''later'' (shutdown ''bye'' connected))"
    by (rule r_into_rtranclp, rule ws_step.ended)
      (simp add: shutdown_def enqueue_def fail_pending_def close_terminal_def connected_simp got_ready_simp
        ws_connecting_def)
  from first_closer_wins [OF this, of "''bye''" "''x''"] show ?thesis
    by (simp add: shutdown_def connected_simp)
qed

section \<open>Watermarks and subscriptions\<close>

text \<open>
  C20: at any moment the sequence watermark of a session is the highest sequence number among
  its broadcast events (0 before the first), and the first subscriber starts right after the
  \<open>gateway.ready\<close> event, so it misses nothing the gateway sent since.
\<close>

theorem watermark_is_highest:
  assumes "ws_reachable sj s" and "sid \<noteq> ''''"
  shows "last_seq sid s = seq_mark sid (ws_published s) \<and>
    (\<forall>c. ws_first_rx s = Some c \<longrightarrow>
       fst (subscribe s) = c \<and> 0 < c \<and> c \<le> length (ws_published s) \<and>
       event_type (ws_published s ! (c - 1)) = ''gateway.ready'' \<and> fst (subscribe (snd (subscribe s))) = length (ws_published s))"
  using ws_reachable_inv [OF assms(1)] assms(2) unfolding ws_inv_def by (auto simp: subscribe_def)

lemma watermark_is_highest_witness:
  "last_seq ''s'' connected = 0 \<and> fst (subscribe connected) = 1"
  using watermark_is_highest [OF connected_reachable, of "''s''"]
  by (simp add: connected_simp got_ready_simp seq_mark_def ready_params_def)

section \<open>Heartbeat\<close>

text \<open>
  A heartbeat round closes an open connection exactly when nothing came in for the
  deadline, and then fails every pending call; otherwise it only sends the next ping, and a
  round on a closed connection ends the heartbeat and touches nothing else.
\<close>

lemma heartbeat_closes_iff_silent:
  assumes "ws_heartbeat s = Some n"
  shows "(case ws_conn s of
       State_Closed r \<Rightarrow> heartbeat_tick sj now s = s\<lparr>ws_heartbeat := None\<rparr>
     | _ \<Rightarrow>
         ((\<exists>r. ws_conn (heartbeat_tick sj now s) = State_Closed r) =
            (cfg_deadline (ws_config s) \<le> now - ws_last_inbound s)) \<and>
         (if cfg_deadline (ws_config s) \<le> now - ws_last_inbound s
          then ws_conn (heartbeat_tick sj now s) = State_Closed ''heartbeat timeout'' \<and>
               ws_pending (heartbeat_tick sj now s) = {}
          else ws_pending (heartbeat_tick sj now s) = ws_pending s \<and>
               ws_answers (heartbeat_tick sj now s) = ws_answers s \<and>
               ws_heartbeat (heartbeat_tick sj now s) = Some (Suc n)))"
  using assms
  by (cases "ws_conn s"; cases "heartbeat_line sj (Suc n)")
    (simp_all add: heartbeat_tick_def Let_def shutdown_def ungraceful_close_reason_def, simp_all add: enqueue_def)

lemma heartbeat_closes_iff_silent_witness:
  "ws_conn (heartbeat_tick two_doc_serde 45005 connected) = State_Closed ''heartbeat timeout'' \<and>
   (\<forall>r. ws_conn (heartbeat_tick two_doc_serde 45004 connected) \<noteq> State_Closed r)"
  using heartbeat_closes_iff_silent [of connected 0 two_doc_serde 45005]
    heartbeat_closes_iff_silent [of connected 0 two_doc_serde 45004]
  by (simp add: connected_simp got_ready_simp ws_connecting_def client_config_default_def)

section \<open>What the client does not promise\<close>

text \<open>
  \<open>connect\<close> opens the connection when it gets to the ready event, also when the reader has
  already seen the connection end: a dead connection is then published as open and the close
  reason is gone.
\<close>

definition dead_before_ready :: ws where
  "dead_before_ready = reader_step two_doc_serde 6 (Msg_Close (Some (1008, ''policy''))) got_ready"

lemma late_ready_reopens:
  "ws_reachable two_doc_serde dead_before_ready \<and> ws_conn dead_before_ready = State_Closed ''policy'' \<and>
   ws_step two_doc_serde dead_before_ready (connect_poll 0 dead_before_ready) \<and>
   ws_conn (connect_poll 0 dead_before_ready) = State_Open \<and> \<not> ws_reader (connect_poll 0 dead_before_ready)"
proof (intro conjI)
  have "ws_run two_doc_serde (ws_connecting client_config_default 0) got_ready"
    unfolding got_ready_def by (rule reader_step_run) (simp add: ws_connecting_def)
  moreover have "ws_run two_doc_serde got_ready dead_before_ready"
    unfolding dead_before_ready_def by (rule reader_step_run) (simp add: got_ready_simp ws_connecting_def)
  ultimately show "ws_reachable two_doc_serde dead_before_ready"
    unfolding ws_reachable_def by (meson rtranclp_trans)
  have d: "dead_before_ready = got_ready\<lparr>ws_conn := State_Closed ''policy'', ws_writer := False, ws_reader := False\<rparr>"
    by (simp add: dead_before_ready_def reader_end_def server_close_reason_def close_terminal_def fail_pending_def
        got_ready_simp ws_connecting_def)
  show "ws_conn dead_before_ready = State_Closed ''policy''" by (simp add: d)
  show "ws_step two_doc_serde dead_before_ready (connect_poll 0 dead_before_ready)"
    by (rule ws_step.poll) (simp add: d got_ready_simp ws_connecting_def)
  show "ws_conn (connect_poll 0 dead_before_ready) = State_Open" "\<not> ws_reader (connect_poll 0 dead_before_ready)"
    by (simp_all add: d got_ready_simp ws_connecting_def connect_poll_def broadcast_recv_def broadcast_capacity_def
        ready_params_def spawn_heartbeat_def mark_open_def Let_def)
qed

text \<open>
  A call that passed its check before a local close and registers after it is queued behind
  the close message: the writer stops there, and only the timeout of the call ends the wait.
\<close>

definition raced :: ws where
  "raced = writer_step True (snd (call_issue two_doc_serde ''m'' JNull (shutdown ''bye'' connected)))"

lemma call_issued_during_close_waits:
  "call_check connected = None \<and> ws_conn raced = State_Closed ''bye'' \<and> ws_pending raced = {''r1''} \<and>
   ws_answers raced ''r1'' = None \<and> \<not> ws_writer raced \<and> ws_outbound raced = []"
  by (simp add: raced_def writer_step_def writer_gone_def call_issue_def enqueue_def shutdown_def fail_pending_def
      close_terminal_def call_check_def Let_def connected_simp got_ready_simp ws_connecting_def
      first_call_id)

text \<open>A base URL with a query and no path: the path is appended to the query.\<close>

lemma query_without_path_swallows_the_path:
  "to_ws_url ''http://h:1?token=t'' = Inr ''ws://h:1?token=t/api/ws''"
  by code_simp


end
