(* ===== verification/Markdown.thy ===== *)
theory Markdown
  imports Rust_Str
begin

text \<open>
  Splitting streamed answer text into blocks: \<open>hermes_core/src/transcript/markdown.rs\<close>.
\<close>

section \<open>Definitions\<close>

record markdown_block =
  language :: string
  blk_text :: string
  blk_open :: bool

definition min_fence :: nat where
  "min_fence = 3"

definition run_of :: "char \<Rightarrow> string \<Rightarrow> nat" where
  "run_of c line = length (takeWhile (\<lambda>x. x = c) line)"

definition fence_marker :: "string \<Rightarrow> (nat \<times> bool) option" where
  "fence_marker line =
     (let ticks = run_of CHR ''`'' line; tildes = run_of CHR ''~'' line
      in if min_fence \<le> ticks
         then (if CHR ''`'' \<notin> set (drop ticks line) then Some (ticks, True) else None)
         else if min_fence \<le> tildes
         then (if CHR ''~'' \<notin> set (drop tildes line) then Some (tildes, False) else None)
         else None)"

record split_state =
  blocks :: "markdown_block list"
  current :: "markdown_block option"
  fence_ticks :: nat
  fence_tildes :: nat

definition split_init :: split_state where
  "split_init = \<lparr>blocks = [], current = None, fence_ticks = 0, fence_tildes = 0\<rparr>"

definition opt_list :: "'a option \<Rightarrow> 'a list" where
  "opt_list x = (case x of None \<Rightarrow> [] | Some v \<Rightarrow> [v])"

text \<open>A line that is part of the current block, or starts a plain one.\<close>

definition text_line :: "string \<Rightarrow> split_state \<Rightarrow> split_state" where
  "text_line line s =
     (case current s of
        Some b \<Rightarrow>
          s\<lparr>current := Some (b\<lparr>blk_text :=
              (if blk_text b = '''' then line else blk_text b @ [nl] @ line)\<rparr>)\<rparr>
      | None \<Rightarrow> s\<lparr>current := Some \<lparr>language = '''', blk_text = line, blk_open = True\<rparr>\<rparr>)"

definition open_fence :: "string \<Rightarrow> nat \<Rightarrow> bool \<Rightarrow> split_state \<Rightarrow> split_state" where
  "open_fence trimmed n is_tick s =
     \<lparr>blocks = blocks s @ opt_list (current s),
      current = Some \<lparr>language = trim (drop n trimmed), blk_text = '''', blk_open = True\<rparr>,
      fence_ticks = (if is_tick then n else fence_ticks s),
      fence_tildes = (if is_tick then fence_tildes s else n)\<rparr>"

definition close_fence :: "split_state \<Rightarrow> split_state" where
  "close_fence s =
     \<lparr>blocks = blocks s @ map (\<lambda>b. b\<lparr>blk_open := False\<rparr>) (opt_list (current s)), current = None,
      fence_ticks = 0, fence_tildes = 0\<rparr>"

definition closes :: "nat \<Rightarrow> bool \<Rightarrow> split_state \<Rightarrow> bool" where
  "closes n is_tick s \<longleftrightarrow>
     (is_tick \<and> 0 < fence_ticks s \<and> fence_ticks s \<le> n) \<or>
     (\<not> is_tick \<and> 0 < fence_tildes s \<and> fence_tildes s \<le> n)"

definition split_step :: "split_state \<Rightarrow> string \<Rightarrow> split_state" where
  "split_step s line =
     (let trimmed = trim line
      in case fence_marker trimmed of
           Some (n, is_tick) \<Rightarrow>
             if fence_ticks s = 0 \<and> fence_tildes s = 0 then open_fence trimmed n is_tick s
             else if closes n is_tick s then close_fence s
             else text_line line s
         | None \<Rightarrow> text_line line s)"

definition split_blocks :: "string \<Rightarrow> markdown_block list" where
  "split_blocks text =
     (let s = foldl split_step split_init (str_lines text) in blocks s @ opt_list (current s))"

section \<open>Blocks that are done stay\<close>

lemma split_step_blocks:
  "\<exists>bs. blocks (split_step s line) = blocks s @ bs"
  by (auto simp: split_step_def Let_def text_line_def open_fence_def close_fence_def
      split: option.splits prod.splits)

lemma split_steps_blocks: "\<exists>bs. blocks (foldl split_step s ls) = blocks s @ bs"
proof (induction ls arbitrary: s)
  case (Cons l ls)
  obtain b1 b2 where "blocks (split_step s l) = blocks s @ b1"
    "blocks (foldl split_step (split_step s l) ls) = blocks (split_step s l) @ b2"
    using split_step_blocks Cons.IH by blast
  then show ?case by simp
qed simp

lemma str_lines_append: "str_lines (a @ [nl] @ b) = str_lines (a @ [nl]) @ str_lines b"
proof -
  have split: "split_on nl (a @ nl # b) = split_on nl a @ split_on nl b" for b
    by (induction a) (auto split: list.splits)
  have "split_on nl b \<noteq> []" by simp
  then show ?thesis
    by (simp add: str_lines_def Let_def split butlast_append)
qed


section \<open>A fenced block comes back\<close>

fun join_lines :: "string list \<Rightarrow> string" where
  "join_lines [] = ''''"
| "join_lines [l] = l"
| "join_lines (l # m # ls) = l @ [nl] @ join_lines (m # ls)"

lemma join_lines_snoc: "ls \<noteq> [] \<Longrightarrow> join_lines (ls @ [l]) = join_lines ls @ [nl] @ l"
  by (induction ls rule: join_lines.induct) simp_all

lemma join_lines_eq_Nil: "ls \<noteq> [] \<Longrightarrow> hd ls \<noteq> '''' \<Longrightarrow> join_lines ls \<noteq> ''''"
  by (induction ls rule: join_lines.induct) simp_all

definition ends_block :: "nat \<Rightarrow> bool \<Rightarrow> string \<Rightarrow> bool" where
  "ends_block n is_tick l =
     (case fence_marker (trim l) of Some (m, t) \<Rightarrow> t = is_tick \<and> n \<le> m | None \<Rightarrow> False)"

definition in_fence :: "nat \<Rightarrow> bool \<Rightarrow> split_state \<Rightarrow> bool" where
  "in_fence n is_tick s \<longleftrightarrow> 0 < n \<and> fence_ticks s = (if is_tick then n else 0) \<and>
     fence_tildes s = (if is_tick then 0 else n)"

lemma step_in_fence:
  assumes "in_fence n t s" and "\<not> ends_block n t l"
  shows "split_step s l = text_line l s"
  using assms
  by (auto simp: split_step_def Let_def in_fence_def ends_block_def closes_def split: option.splits if_splits)

lemma text_line_in_fence: "in_fence n t s \<Longrightarrow> in_fence n t (text_line l s)"
  by (auto simp: in_fence_def text_line_def split: option.splits)

lemma steps_in_fence:
  assumes "in_fence n t s" and "current s = Some b" "blk_text b = ''''"
    and "\<forall>l \<in> set ls. \<not> ends_block n t l" and "ls \<noteq> [] \<Longrightarrow> hd ls \<noteq> ''''"
  shows "foldl split_step s ls = s\<lparr>current := Some (b\<lparr>blk_text := join_lines ls\<rparr>)\<rparr>"
  using assms(4,5)
proof (induction ls rule: rev_induct)
  case Nil
  have "b\<lparr>blk_text := ''''\<rparr> = b" using assms(3) by (cases b) simp
  then show ?case using assms(2) by (cases s) simp
next
  case (snoc l ls)
  have IH: "foldl split_step s ls = s\<lparr>current := Some (b\<lparr>blk_text := join_lines ls\<rparr>)\<rparr>"
    using snoc by (cases ls) auto
  have "in_fence n t (s\<lparr>current := c\<rparr>)" for c using assms(1) by (simp add: in_fence_def)
  then have "foldl split_step s (ls @ [l]) = text_line l (s\<lparr>current := Some (b\<lparr>blk_text := join_lines ls\<rparr>)\<rparr>)"
    using step_in_fence [of n t "s\<lparr>current := Some (b\<lparr>blk_text := join_lines ls\<rparr>)\<rparr>" l] snoc.prems(1)
    by (simp add: IH)
  moreover have "join_lines ls = '''' \<longleftrightarrow> ls = []"
    using join_lines_eq_Nil [of ls] snoc.prems(2) by (cases ls) auto
  ultimately show ?case by (cases "ls = []") (simp_all add: text_line_def join_lines_snoc)
qed

text \<open>
  a fence of at least three back-quotes with an info string, lines of code that contain
  no closing fence of that length and do not start with an empty line, and a closing fence
  make exactly one closed block that carries the language and the code, and leave the
  splitter ready for the next block.
\<close>

lemma fenced_block_round_trip:
  assumes "fence_marker (trim opening) = Some (n, t)" and "fence_marker (trim closing) = Some (m, t)"
    and "n \<le> m" and "\<forall>l \<in> set code. \<not> ends_block n t l" and "code \<noteq> [] \<Longrightarrow> hd code \<noteq> ''''"
  shows "foldl split_step split_init ([opening] @ code @ [closing]) =
    split_init\<lparr>blocks := [\<lparr>language = trim (drop n (trim opening)), blk_text = join_lines code, blk_open = False\<rparr>]\<rparr>"
proof -
  have n: "0 < n"
    using assms(1) by (auto simp: fence_marker_def Let_def min_fence_def split: if_splits)
  define s where "s = split_step split_init opening"
  have s: "s = open_fence (trim opening) n t split_init"
    using assms(1) by (simp add: s_def split_step_def split_init_def)
  have inf: "in_fence n t s" using n by (simp add: in_fence_def s open_fence_def split_init_def)
  have "foldl split_step s code =
      s\<lparr>current := Some (\<lparr>language = trim (drop n (trim opening)), blk_text = '''', blk_open = True\<rparr>
          \<lparr>blk_text := join_lines code\<rparr>)\<rparr>"
    by (rule steps_in_fence [OF inf _ _ assms(4,5)]) (simp_all add: s open_fence_def)
  then have "foldl split_step split_init ([opening] @ code @ [closing]) =
      split_step (s\<lparr>current := Some \<lparr>language = trim (drop n (trim opening)),
          blk_text = join_lines code, blk_open = True\<rparr>\<rparr>) closing"
    by (simp add: s_def)
  also have "\<dots> = close_fence (s\<lparr>current := Some \<lparr>language = trim (drop n (trim opening)),
          blk_text = join_lines code, blk_open = True\<rparr>\<rparr>)"
    using assms(2,3) inf by (auto simp: split_step_def closes_def in_fence_def)
  finally show ?thesis by (simp add: close_fence_def s open_fence_def split_init_def opt_list_def)
qed

lemma fenced_block_round_trip_witness:
  "foldl split_step split_init ([''```rust''] @ [''let x = 1;'', ''``''] @ [''````'']) =
    split_init\<lparr>blocks := [\<lparr>language = ''rust'', blk_text = ''let x = 1;'' @ [nl] @ ''``'', blk_open = False\<rparr>]\<rparr>"
proof -
  have f: "fence_marker (trim ''```rust'') = Some (3, True)" "fence_marker (trim ''````'') = Some (4, True)"
    "\<forall>l \<in> set [''let x = 1;'', ''``'']. \<not> ends_block 3 True l" "trim (drop 3 (trim ''```rust'')) = ''rust''"
    by code_simp+
  show ?thesis using fenced_block_round_trip [OF f(1,2) _ f(3)] by (simp add: f(4))
qed

text \<open>An empty first line of code is lost: a block's text cannot start with a newline.\<close>

lemma leading_blank_code_line_lost:
  "split_blocks (''```'' @ [nl] @ [nl] @ ''x'' @ [nl] @ ''```'') =
     split_blocks (''```'' @ [nl] @ ''x'' @ [nl] @ ''```'')"
  by code_simp

text \<open>A plain block in the middle of the text is left marked open.\<close>

lemma plain_block_stays_open:
  "map blk_open (split_blocks (''a'' @ [nl] @ ''```'' @ [nl] @ ''b'' @ [nl] @ ''```'')) = [True, False]"
  by code_simp

end
