(* ===== verification/Core_Extras.thy ===== *)
theory Core_Extras
  imports Core_Steps Markdown
begin

text \<open>
  The small operations of the core beside the ones that change a transcript
  (\<open>hermes_core/src/core.rs\<close>): pairing DTOs, markdown blocks for the app, the jitter source,
  and the sleep of the reconnect ladder with the signal that ends it.
\<close>

section \<open>Pairing and markdown\<close>

text \<open>
  The end of every exported method: a task that panicked or was cancelled (\<open>Inl\<close> with the
  text of the join error) is an I/O error of the core.
\<close>

definition joined :: "string + (core_error + 'a) \<Rightarrow> core_error + 'a" where
  "joined task =
     (case task of Inl e \<Rightarrow> Inl (CoreError_Io (''join: '' @ e)) | Inr res \<Rightarrow> res)"

text \<open>\<open>parse_qr\<close>: the DTO of a payload, without pairing.\<close>

definition parse_qr :: "'u core_env \<Rightarrow> string \<Rightarrow> ('u core, string \<times> string \<times> string) act" where
  "parse_qr env payload w =
     (case parse_qr_payload (ce_url env) payload of
        Inl e \<Rightarrow> Some (Inl e, w)
      | Inr ep \<Rightarrow> Some (Inr (endpoint_dto env ep), w))"

definition saved_endpoint :: "'u core_env \<Rightarrow> 'u core \<Rightarrow> (string \<times> string \<times> string) option" where
  "saved_endpoint env w = map_option (endpoint_dto env) (endpoint w)"

record markdown_block_dto =
  md_language :: string
  md_text :: string
  md_open :: bool

definition split_markdown :: "string \<Rightarrow> markdown_block_dto list" where
  "split_markdown text =
     map (\<lambda>b. \<lparr>md_language = language b, md_text = blk_text b, md_open = blk_open b\<rparr>) (split_blocks text)"

text \<open>Parsing first and pairing after show the same endpoint, and pairing is what is saved.\<close>

lemma pair_saves_what_parse_shows:
  assumes "parse_qr env payload w = Some (Inr dto, w)"
  shows "\<exists>w'. pair env payload w = Some (Inr dto, w') \<and> saved_endpoint env w' = Some dto"
  using assms by (auto simp: parse_qr_def pair_def saved_endpoint_def split: sum.splits)

text \<open>
  Pairing answers with the endpoint even when it could not be written; then a restart has no
  endpoint, or the old one.
\<close>

lemma pair_ignores_failed_save:
  assumes "parse_qr_payload (ce_url env) payload = Inr ep" and "mkdir_fault (ce_io env) (ce_dir env) = Some e"
  shows "\<exists>w'. pair env payload w = Some (Inr (endpoint_dto env ep), w') \<and>
     disk w' = disk w \<and> load_endpoint env (disk w') = load_endpoint env (disk w)"
  using assms by (simp add: pair_def save_endpoint_def)

section \<open>Clock and jitter\<close>

text \<open>The system clock is an argument: the milliseconds since the epoch, if it is after it.\<close>

definition now_wall_ms :: "nat option \<Rightarrow> nat" where
  "now_wall_ms since_epoch = unwrap_or 0 since_epoch"

definition clock_jitter :: "nat option \<Rightarrow> rat" where
  "clock_jitter since_epoch = f64_round (of_nat (now_wall_ms since_epoch mod 1000) / 1000)"

lemma clock_jitter_range: "0 \<le> clock_jitter t \<and> clock_jitter t \<le> 1"
proof -
  define m where "m = now_wall_ms t mod 1000"
  have "m < 1000" by (simp add: m_def)
  then have "(of_nat m :: rat) \<le> 1000" by (metis of_nat_le_iff of_nat_numeral less_imp_le)
  then have "(of_nat m :: rat) / 1000 \<le> of_nat 1" by simp
  then have "f64_round (of_nat m / 1000) \<le> of_nat 1" by (rule f64_round_le_int)
  moreover have "0 \<le> f64_round (of_nat m / 1000)" by (rule f64_round_nonneg) simp
  ultimately show ?thesis by (simp add: clock_jitter_def m_def)
qed

section \<open>Sleeping until stopped\<close>

text \<open>
  The loop of \<open>sleep_until_stopped\<close>, one await or one read of the flag per step, against the
  two actions of \<open>signal_stop\<close>. \<open>Notify::notify_waiters\<close> wakes every \<open>notified()\<close> future that
  exists, polled or not, and leaves nothing for one created later.
\<close>

datatype sleeper_pc = Sleep_Start | Sleep_Registered | Sleep_Awaiting | Sleep_Returned

record sleeper =
  sl_flag :: bool
  sl_pc :: sleeper_pc
  sl_notified :: bool

datatype sleep_event = Ev_Sleeper | Ev_Set_Flag | Ev_Notify | Ev_Clear_Flag

definition sleeper_step :: "sleeper \<Rightarrow> sleeper" where
  "sleeper_step s =
     (case sl_pc s of
        Sleep_Start \<Rightarrow> s\<lparr>sl_pc := Sleep_Registered, sl_notified := False\<rparr>
      | Sleep_Registered \<Rightarrow>
          (if sl_flag s then s\<lparr>sl_pc := Sleep_Returned\<rparr> else s\<lparr>sl_pc := Sleep_Awaiting\<rparr>)
      | Sleep_Awaiting \<Rightarrow> (if sl_notified s then s\<lparr>sl_pc := Sleep_Start\<rparr> else s)
      | Sleep_Returned \<Rightarrow> s)"

definition notify_waiters :: "sleeper \<Rightarrow> sleeper" where
  "notify_waiters s =
     (if sl_pc s = Sleep_Registered \<or> sl_pc s = Sleep_Awaiting then s\<lparr>sl_notified := True\<rparr> else s)"

fun sleep_exec :: "sleep_event \<Rightarrow> sleeper \<Rightarrow> sleeper" where
  "sleep_exec Ev_Sleeper s = sleeper_step s"
| "sleep_exec Ev_Set_Flag s = s\<lparr>sl_flag := True\<rparr>"
| "sleep_exec Ev_Notify s = notify_waiters s"
| "sleep_exec Ev_Clear_Flag s = s\<lparr>sl_flag := False\<rparr>"

definition sleep_run :: "sleep_event list \<Rightarrow> sleeper \<Rightarrow> sleeper" where
  "sleep_run evs s = fold sleep_exec evs s"

text \<open>A sleeper that the signal has reached, and how many of its own steps it still needs.\<close>

definition awake :: "sleeper \<Rightarrow> bool" where
  "awake s \<longleftrightarrow> sl_flag s \<and> (sl_pc s = Sleep_Awaiting \<longrightarrow> sl_notified s)"

fun steps_to_return :: "sleeper_pc \<Rightarrow> nat" where
  "steps_to_return Sleep_Awaiting = 3"
| "steps_to_return Sleep_Start = 2"
| "steps_to_return Sleep_Registered = 1"
| "steps_to_return Sleep_Returned = 0"

lemma awake_exec:
  "awake s \<Longrightarrow> ev \<noteq> Ev_Clear_Flag \<Longrightarrow> awake (sleep_exec ev s)"
  by (cases ev; cases "sl_pc s") (auto simp: awake_def sleeper_step_def notify_waiters_def)

lemma awake_progress:
  "awake s \<Longrightarrow>
   steps_to_return (sl_pc (sleep_exec ev s)) \<le>
     steps_to_return (sl_pc s) - (if ev = Ev_Sleeper then 1 else 0)"
  by (cases ev; cases "sl_pc s") (auto simp: awake_def sleeper_step_def notify_waiters_def)

lemma awake_run:
  "awake s \<Longrightarrow> Ev_Clear_Flag \<notin> set evs \<Longrightarrow>
   steps_to_return (sl_pc (sleep_run evs s)) \<le>
     steps_to_return (sl_pc s) - length (filter (\<lambda>e. e = Ev_Sleeper) evs)"
proof (induction evs arbitrary: s)
  case (Cons e es)
  have "awake (sleep_exec e s)" using Cons.prems by (intro awake_exec) auto
  from Cons.IH [OF this] awake_progress [OF Cons.prems(1), of e] Cons.prems(2)
  show ?case by (auto simp: sleep_run_def split: if_splits)
qed (simp add: sleep_run_def)

lemma flag_stays: "sl_flag s \<Longrightarrow> Ev_Clear_Flag \<notin> set evs \<Longrightarrow> sl_flag (sleep_run evs s)"
proof (induction evs arbitrary: s)
  case (Cons e es)
  have "sl_flag (sleep_exec e s)" using Cons.prems
    by (cases e; cases "sl_pc s") (auto simp: sleeper_step_def notify_waiters_def)
  with Cons show ?case by (simp add: sleep_run_def)
qed (simp add: sleep_run_def)

text \<open>
  C22: a stop signal is never lost on the reconnect ladder. However the two actions of
  \<open>signal_stop\<close> interleave with the sleeping loop, even between its registration and its read
  of the flag, the sleep returns within three of its own steps after the signal, as long as
  nothing clears the flag.
\<close>

theorem stop_reaches_sleeper:
  assumes "Ev_Clear_Flag \<notin> set mid" and "Ev_Clear_Flag \<notin> set after"
    and "3 \<le> length (filter (\<lambda>e. e = Ev_Sleeper) after)"
  shows "sl_pc (sleep_run (before @ Ev_Set_Flag # mid @ Ev_Notify # after) s) = Sleep_Returned"
proof -
  define s1 where "s1 = sleep_run mid ((sleep_run before s)\<lparr>sl_flag := True\<rparr>)"
  have "sl_flag s1" unfolding s1_def by (rule flag_stays) (simp_all add: assms(1))
  then have "awake (notify_waiters s1)" by (auto simp: awake_def notify_waiters_def)
  from awake_run [OF this assms(2)] assms(3)
  have "steps_to_return (sl_pc (sleep_run after (notify_waiters s1))) = 0"
    by (cases "sl_pc (notify_waiters s1)") auto
  then have "sl_pc (sleep_run after (notify_waiters s1)) = Sleep_Returned"
    by (cases "sl_pc (sleep_run after (notify_waiters s1))") auto
  then show ?thesis by (simp add: s1_def sleep_run_def)
qed

lemma stop_reaches_sleeper_witness:
  "sl_pc (sleep_run ([Ev_Sleeper] @ Ev_Set_Flag # [Ev_Sleeper] @ Ev_Notify # [Ev_Sleeper, Ev_Sleeper, Ev_Sleeper])
     \<lparr>sl_flag = False, sl_pc = Sleep_Start, sl_notified = False\<rparr>) = Sleep_Returned"
  by (rule stop_reaches_sleeper) simp_all

end
