(* ===== verification/Fixtures.thy ===== *)
theory Fixtures
  imports Json
begin

text \<open>
  The recorded event stream of the stand-in gateway and its cutting into replayable turns:
  \<open>tools/fake_gateway/src/fixtures.rs\<close>. Opening a file and reading its lines
  (\<open>File::open\<close>, \<open>BufReader::lines\<close>, each of which can fail) is the argument
  \<open>rd\<close> of type \<open>line_reader\<close>.
\<close>

section \<open>Data\<close>

datatype turn_kind = Turn_Plain | Turn_Tool | Turn_Clarify | Turn_Approval | Turn_Slow

record fixtures =
  scenarios :: "turn_kind \<rightharpoonup> json list"
  ready_value :: json
  approval_frame :: "json option"
  clarify_frame :: "json option"
  session_info :: "json option"

type_synonym line_reader = "string \<Rightarrow> string + (string + string) list"

section \<open>Cutting the recording\<close>

text \<open>The frame, its event type and its payload; \<open>None\<close> for a line that is not an event.\<close>

definition parse_event_frame :: "serde \<Rightarrow> string \<Rightarrow> (json \<times> string \<times> json) option" where
  "parse_event_frame sj line =
     (let trimmed = trim line
      in if trimmed = '''' then None
         else case from_str sj trimmed of
                Some (JObj kvs) \<Rightarrow>
                  (if Option.bind (map_of kvs ''method'') as_str \<noteq> Some ''event'' then None
                   else case map_of kvs ''params'' of
                          Some (JObj ps) \<Rightarrow>
                            (case Option.bind (map_of ps ''type'') as_str of
                               None \<Rightarrow> None
                             | Some ty \<Rightarrow> Some (JObj kvs, ty, unwrap_or JNull (map_of ps ''payload'')))
                        | _ \<Rightarrow> None)
              | _ \<Rightarrow> None)"

text \<open>The variables of the loop of \<open>load_scenarios\<close>.\<close>

record load_state =
  ls_scenarios :: "turn_kind \<rightharpoonup> json list"
  ls_current :: "json list"
  ls_has_tool :: bool
  ls_has_clarify :: bool
  ls_ready :: json
  ls_plain :: "json list list"
  ls_complete :: bool
  ls_session_info :: "json option"

definition load_init :: load_state where
  "load_init =
     \<lparr>ls_scenarios = Map.empty, ls_current = [], ls_has_tool = False, ls_has_clarify = False,
      ls_ready = JNull, ls_plain = [], ls_complete = False, ls_session_info = None\<rparr>"

text \<open>The branch that closes a turn: which scenario its frames become.\<close>

definition close_turn :: "load_state \<Rightarrow> load_state" where
  "close_turn st =
     (let frames = ls_current st;
          st1 = st\<lparr>ls_current := [], ls_complete := False\<rparr>;
          st2 = (if ls_has_clarify st
                 then st1\<lparr>ls_scenarios := (ls_scenarios st1)(Turn_Clarify \<mapsto> frames)\<rparr>
                 else if ls_has_tool st
                 then st1\<lparr>ls_scenarios := (ls_scenarios st1)(Turn_Tool \<mapsto> frames)\<rparr>
                 else st1\<lparr>ls_plain := ls_plain st1 @ [frames]\<rparr>)
      in st2\<lparr>ls_has_tool := False, ls_has_clarify := False\<rparr>)"

definition load_event :: "json \<times> string \<times> json \<Rightarrow> load_state \<Rightarrow> load_state" where
  "load_event ev st =
     (let (value, ty, payload) = ev
      in if ty = ''gateway.ready'' then st\<lparr>ls_ready := payload\<rparr>
         else
           (let st1 = (if ty = ''session.info'' \<and> ls_session_info st = None
                       then st\<lparr>ls_session_info := Some value\<rparr> else st);
                st2 = (if ty = ''tool.start'' then st1\<lparr>ls_has_tool := True\<rparr> else st1);
                st3 = (if ty = ''clarify.request'' then st2\<lparr>ls_has_clarify := True\<rparr> else st2);
                st4 = (if ls_complete st3 \<and> ty = ''message.start'' then close_turn st3 else st3);
                st5 = st4\<lparr>ls_current := ls_current st4 @ [value]\<rparr>
            in if ty = ''message.complete'' then st5\<lparr>ls_complete := True\<rparr> else st5))"

definition load_line :: "serde \<Rightarrow> string \<Rightarrow> load_state \<Rightarrow> load_state" where
  "load_line sj line st =
     (case parse_event_frame sj line of None \<Rightarrow> st | Some ev \<Rightarrow> load_event ev st)"

text \<open>The loop: the first line that cannot be read ends it with its error.\<close>

fun load_lines :: "serde \<Rightarrow> (string + string) list \<Rightarrow> load_state \<Rightarrow> string + load_state" where
  "load_lines sj [] st = Inr st"
| "load_lines sj (Inl e # ls) st = Inl e"
| "load_lines sj (Inr l # ls) st = load_lines sj ls (load_line sj l st)"

text \<open>The code after the loop: the last turn, kept only when it was completed.\<close>

definition load_last :: "load_state \<Rightarrow> load_state" where
  "load_last st =
     (if \<not> ls_complete st then st
      else
        (let frames = ls_current st; st1 = st\<lparr>ls_current := []\<rparr>
         in if ls_has_clarify st
            then st1\<lparr>ls_scenarios := (ls_scenarios st1)(Turn_Clarify \<mapsto> frames)\<rparr>
            else if ls_has_tool st
            then st1\<lparr>ls_scenarios := (ls_scenarios st1)(Turn_Tool \<mapsto> frames)\<rparr>
            else if frames \<noteq> [] then st1\<lparr>ls_plain := ls_plain st1 @ [frames]\<rparr>
            else st1))"

text \<open>\<open>Iterator::max_by_key\<close>: of several maxima, the last.\<close>

fun max_by_key :: "('a \<Rightarrow> 'b::linorder) \<Rightarrow> 'a list \<Rightarrow> 'a option" where
  "max_by_key f [] = None"
| "max_by_key f (x # xs) =
     (case max_by_key f xs of
        None \<Rightarrow> Some x
      | Some y \<Rightarrow> Some (if f y < f x then x else y))"

definition load_finish :: "load_state \<Rightarrow> turn_kind \<rightharpoonup> json list" where
  "load_finish st =
     (let sc = ls_scenarios st;
          sc1 = (case ls_plain st of [] \<Rightarrow> sc | f # _ \<Rightarrow> sc(Turn_Plain \<mapsto> f))
      in case max_by_key length (ls_plain st) of None \<Rightarrow> sc1 | Some f \<Rightarrow> sc1(Turn_Slow \<mapsto> f))"

definition load_scenarios ::
  "line_reader \<Rightarrow> serde \<Rightarrow> string \<Rightarrow> string + (turn_kind \<rightharpoonup> json list) \<times> json \<times> json option" where
  "load_scenarios rd sj path =
     (case rd path of
        Inl e \<Rightarrow> Inl e
      | Inr ls \<Rightarrow>
          (case load_lines sj ls load_init of
             Inl e \<Rightarrow> Inl e
           | Inr st \<Rightarrow>
               (let st' = load_last st in Inr (load_finish st', ls_ready st', ls_session_info st'))))"

definition fixtures_load :: "line_reader \<Rightarrow> serde \<Rightarrow> string \<Rightarrow> string + fixtures" where
  "fixtures_load rd sj path =
     (case load_scenarios rd sj path of
        Inl e \<Rightarrow> Inl e
      | Inr (sc, ready, info) \<Rightarrow>
          Inr \<lparr>scenarios = sc, ready_value = ready, approval_frame = None, clarify_frame = None,
               session_info = info\<rparr>)"

fun first_object :: "serde \<Rightarrow> (string + string) list \<Rightarrow> string + json option" where
  "first_object sj [] = Inr None"
| "first_object sj (Inl e # ls) = Inl e"
| "first_object sj (Inr l # ls) =
     (if trim l = '''' then first_object sj ls
      else case from_str sj (trim l) of
             None \<Rightarrow> first_object sj ls
           | Some v \<Rightarrow> if is_object v then Inr (Some v) else first_object sj ls)"

definition load_first_object :: "line_reader \<Rightarrow> serde \<Rightarrow> string \<Rightarrow> string + json option" where
  "load_first_object rd sj path =
     (case rd path of Inl e \<Rightarrow> Inl e | Inr ls \<Rightarrow> first_object sj ls)"

definition load_with_synthetic ::
  "line_reader \<Rightarrow> serde \<Rightarrow> string \<Rightarrow> string \<Rightarrow> string option \<Rightarrow> string + fixtures" where
  "load_with_synthetic rd sj events synthetic clarify =
     (case fixtures_load rd sj events of
        Inl e \<Rightarrow> Inl e
      | Inr fx \<Rightarrow>
          (case load_first_object rd sj synthetic of
             Inl e \<Rightarrow> Inl e
           | Inr approval \<Rightarrow>
               (let fx1 = fx\<lparr>approval_frame := approval\<rparr>
                in case clarify of
                     None \<Rightarrow> Inr fx1
                   | Some path \<Rightarrow>
                       (case load_first_object rd sj path of
                          Inl e \<Rightarrow> Inl e
                        | Inr frame \<Rightarrow> Inr (fx1\<lparr>clarify_frame := frame\<rparr>)))))"

section \<open>Serving a turn\<close>

definition plain_frames :: "fixtures \<Rightarrow> json list" where
  "plain_frames fx = unwrap_or [] (scenarios fx Turn_Plain)"

definition turn_frames :: "fixtures \<Rightarrow> turn_kind \<Rightarrow> json list" where
  "turn_frames fx kind =
     (case kind of
        Turn_Plain \<Rightarrow> plain_frames fx
      | Turn_Slow \<Rightarrow> (case scenarios fx Turn_Slow of Some fs \<Rightarrow> fs | None \<Rightarrow> plain_frames fx)
      | Turn_Tool \<Rightarrow> unwrap_or [] (scenarios fx Turn_Tool)
      | Turn_Clarify \<Rightarrow>
          (case clarify_frame fx of
             Some f \<Rightarrow> [f] @ plain_frames fx
           | None \<Rightarrow> unwrap_or [] (scenarios fx Turn_Clarify))
      | Turn_Approval \<Rightarrow>
          (case approval_frame fx of Some f \<Rightarrow> [f] | None \<Rightarrow> []) @ plain_frames fx)"

text \<open>\<open>get("params").and_then(get("type")).and_then(as_str)\<close> of a frame.\<close>

definition frame_type :: "json \<Rightarrow> string option" where
  "frame_type f = Option.bind (get_key f ''params'') (\<lambda>p. Option.bind (get_key p ''type'') as_str)"

definition turn :: "fixtures \<Rightarrow> turn_kind \<Rightarrow> json list" where
  "turn fx kind =
     (let frames = turn_frames fx kind;
          ends_with_header = (frames \<noteq> [] \<and> frame_type (last frames) = Some ''session.info'')
      in if ends_with_header then frames
         else case session_info fx of Some info \<Rightarrow> frames @ [info] | None \<Rightarrow> frames)"

definition ready_payload :: "fixtures \<Rightarrow> json" where
  "ready_payload fx = ready_value fx"

text \<open>
  \<open>to_lowercase\<close> is Unicode's; the four words it is searched for are ASCII without
  \<open>k\<close>, and an \<open>i\<close> that comes from lowering a non-ASCII letter is followed by a
  combining dot, so lowering the ASCII letters decides the same searches.
\<close>

definition select_kind :: "string \<Rightarrow> turn_kind" where
  "select_kind prompt_text =
     (let lower = ascii_lower prompt_text
      in if contains_str ''tool'' lower then Turn_Tool
         else if contains_str ''clarify'' lower then Turn_Clarify
         else if contains_str ''approve'' lower then Turn_Approval
         else if contains_str ''slow'' lower then Turn_Slow
         else Turn_Plain)"

definition rewrite_params :: "string \<Rightarrow> int \<Rightarrow> (string \<times> json) list \<Rightarrow> (string \<times> json) list" where
  "rewrite_params sid seq ps =
     (let ps1 = obj_insert ''session_id'' (JStr sid) ps
      in if map_of ps1 ''seq'' \<noteq> None then obj_insert ''seq'' (JNum (IntNum seq)) ps1 else ps1)"

definition rewrite_frame :: "json \<Rightarrow> string \<Rightarrow> int \<Rightarrow> json" where
  "rewrite_frame frame sid seq =
     (case get_key frame ''params'' of
        Some (JObj ps) \<Rightarrow> set_key ''params'' (JObj (rewrite_params sid seq ps)) frame
      | _ \<Rightarrow> frame)"

section \<open>What a recording is cut into\<close>

type_synonym recorded = "json \<times> string \<times> json"

abbreviation rec_type :: "recorded \<Rightarrow> string" where
  "rec_type e \<equiv> fst (snd e)"

definition has_type :: "string \<Rightarrow> recorded list \<Rightarrow> bool" where
  "has_type ty t \<longleftrightarrow> ty \<in> rec_type ` set t"

lemma has_type_simps [simp]:
  "\<not> has_type ty []" "has_type ty (xs @ ys) \<longleftrightarrow> has_type ty xs \<or> has_type ty ys"
  "has_type ty (x # xs) \<longleftrightarrow> rec_type x = ty \<or> has_type ty xs"
  by (auto simp: has_type_def)

text \<open>
  The reference: a turn ends where the next \<open>message.start\<close> follows its
  \<open>message.complete\<close>; what follows the last completed turn without completing is no turn.
\<close>

fun cut_turns :: "recorded list \<Rightarrow> recorded list \<Rightarrow> recorded list list" where
  "cut_turns cur [] = (if has_type ''message.complete'' cur then [cur] else [])"
| "cut_turns cur (e # es) =
     (if has_type ''message.complete'' cur \<and> rec_type e = ''message.start''
      then cur # cut_turns [e] es
      else cut_turns (cur @ [e]) es)"

definition turn_class :: "recorded list \<Rightarrow> turn_kind" where
  "turn_class t =
     (if has_type ''clarify.request'' t then Turn_Clarify
      else if has_type ''tool.start'' t then Turn_Tool else Turn_Plain)"

definition of_class :: "turn_kind \<Rightarrow> recorded list list \<Rightarrow> json list list" where
  "of_class k ts = map (map fst) (filter (\<lambda>t. turn_class t = k) ts)"

definition last_opt :: "'a list \<Rightarrow> 'a option" where
  "last_opt xs = (if xs = [] then None else Some (last xs))"

definition first_opt :: "'a list \<Rightarrow> 'a option" where
  "first_opt xs = (case xs of [] \<Rightarrow> None | x # _ \<Rightarrow> Some x)"

text \<open>Which turns are served: the last clarify and tool turns, the first and the longest plain one.\<close>

definition served :: "recorded list list \<Rightarrow> turn_kind \<rightharpoonup> json list" where
  "served ts k =
     (case k of
        Turn_Plain \<Rightarrow> first_opt (of_class Turn_Plain ts)
      | Turn_Slow \<Rightarrow> max_by_key length (of_class Turn_Plain ts)
      | Turn_Approval \<Rightarrow> None
      | _ \<Rightarrow> last_opt (of_class k ts))"

definition is_ready_event :: "recorded \<Rightarrow> bool" where
  "is_ready_event e \<longleftrightarrow> rec_type e = ''gateway.ready''"

definition recorded_events :: "serde \<Rightarrow> string list \<Rightarrow> recorded list" where
  "recorded_events sj ls = List.map_filter (parse_event_frame sj) ls"

definition turn_events :: "serde \<Rightarrow> string list \<Rightarrow> recorded list" where
  "turn_events sj ls = filter (\<lambda>e. \<not> is_ready_event e) (recorded_events sj ls)"

lemma recorded_events_simps [simp]:
  "recorded_events sj [] = []"
  "recorded_events sj (l # ls) =
     (case parse_event_frame sj l of None \<Rightarrow> recorded_events sj ls | Some e \<Rightarrow> e # recorded_events sj ls)"
  by (simp_all add: recorded_events_def map_filter_simps split: option.split)

definition special_turns :: "recorded list list \<Rightarrow> turn_kind \<rightharpoonup> json list" where
  "special_turns ts k =
     (if k = Turn_Clarify \<or> k = Turn_Tool then last_opt (of_class k ts) else None)"

text \<open>The loop's variables after a number of events.\<close>

definition load_rel :: "recorded list list \<Rightarrow> recorded list \<Rightarrow> load_state \<Rightarrow> bool" where
  "load_rel ts cur st \<longleftrightarrow>
     ls_current st = map fst cur \<and>
     ls_has_tool st = has_type ''tool.start'' cur \<and>
     ls_has_clarify st = has_type ''clarify.request'' cur \<and>
     ls_complete st = has_type ''message.complete'' cur \<and>
     ls_plain st = of_class Turn_Plain ts \<and>
     ls_scenarios st = special_turns ts"

lemma of_class_append: "of_class k (ts @ us) = of_class k ts @ of_class k us"
  by (simp add: of_class_def)

lemma of_class_single: "of_class k [t] = (if turn_class t = k then [map fst t] else [])"
  by (simp add: of_class_def)

lemma last_opt_snoc [simp]: "last_opt (xs @ [x]) = Some x"
  by (simp add: last_opt_def)

lemma load_rel_init: "load_rel [] [] load_init"
  by (auto simp: load_rel_def load_init_def special_turns_def of_class_def last_opt_def fun_eq_iff)

lemma close_turn_rel:
  assumes "load_rel ts cur st"
  shows "load_rel (ts @ [cur]) [] (close_turn st)"
  using assms
  by (auto simp: load_rel_def close_turn_def Let_def of_class_append of_class_single turn_class_def
      special_turns_def fun_eq_iff)

text \<open>What one event does to the reference state.\<close>

definition cut_step :: "recorded \<Rightarrow> recorded list list \<times> recorded list \<Rightarrow> recorded list list \<times> recorded list" where
  "cut_step e p =
     (if is_ready_event e then p
      else if has_type ''message.complete'' (snd p) \<and> rec_type e = ''message.start''
      then (fst p @ [snd p], [e]) else (fst p, snd p @ [e]))"

lemma load_event_ready:
  "load_event (v, ''gateway.ready'', p) st = st\<lparr>ls_ready := p\<rparr>"
  by (simp add: load_event_def)

lemma load_event_fields:
  assumes "ty \<noteq> ''gateway.ready''"
    and "\<not> (ls_complete st \<and> ty = ''message.start'')"
  shows "ls_current (load_event (v, ty, p) st) = ls_current st @ [v]"
    "ls_has_tool (load_event (v, ty, p) st) = (ls_has_tool st \<or> ty = ''tool.start'')"
    "ls_has_clarify (load_event (v, ty, p) st) = (ls_has_clarify st \<or> ty = ''clarify.request'')"
    "ls_complete (load_event (v, ty, p) st) = (ls_complete st \<or> ty = ''message.complete'')"
    "ls_plain (load_event (v, ty, p) st) = ls_plain st"
    "ls_scenarios (load_event (v, ty, p) st) = ls_scenarios st"
  using assms by (cases "ls_complete st"; simp add: load_event_def Let_def)+

lemma load_event_cut:
  assumes "ls_complete st"
  shows "load_event (v, ''message.start'', p) st = (close_turn st)\<lparr>ls_current := [v]\<rparr>"
proof -
  have "ls_current (close_turn st) = []" by (simp add: close_turn_def Let_def)
  with assms show ?thesis by (simp add: load_event_def)
qed

lemma load_event_rel:
  assumes "load_rel ts cur st"
  shows "load_rel (fst (cut_step e (ts, cur))) (snd (cut_step e (ts, cur))) (load_event e st)"
proof -
  obtain v ty p where e: "e = (v, ty, p)" by (cases e)
  have compl: "ls_complete st = has_type ''message.complete'' cur" using assms by (simp add: load_rel_def)
  consider "ty = ''gateway.ready''" | "ls_complete st" "ty = ''message.start''"
    | "ty \<noteq> ''gateway.ready''" "\<not> (ls_complete st \<and> ty = ''message.start'')" by blast
  then show ?thesis
  proof cases
    case 1
    with assms show ?thesis by (simp add: e load_event_ready cut_step_def is_ready_event_def load_rel_def)
  next
    case 2
    with compl close_turn_rel [OF assms] show ?thesis
      by (simp add: e load_event_cut cut_step_def is_ready_event_def load_rel_def)
  next
    case 3
    with compl assms show ?thesis
      by (simp add: e load_event_fields [OF 3] cut_step_def is_ready_event_def load_rel_def)
  qed
qed

lemma cut_turns_foldl:
  "cut_turns cur (filter (\<lambda>e. \<not> is_ready_event e) es) =
     drop (length ts) (fst (fold cut_step es (ts, cur))) @
     (if has_type ''message.complete'' (snd (fold cut_step es (ts, cur)))
      then [snd (fold cut_step es (ts, cur))] else [])
   \<and> take (length ts) (fst (fold cut_step es (ts, cur))) = ts"
proof (induction es arbitrary: ts cur)
  case (Cons e es)
  show ?case
  proof (cases "is_ready_event e")
    case True
    with Cons.IH [of cur ts] show ?thesis by (simp add: cut_step_def)
  next
    case False
    show ?thesis
    proof (cases "has_type ''message.complete'' cur \<and> rec_type e = ''message.start''")
      case True
      define f where "f = fold cut_step es (ts @ [cur], [e])"
      from Cons.IH [of "[e]" "ts @ [cur]"]
      have t: "take (Suc (length ts)) (fst f) = ts @ [cur]"
        and c: "cut_turns [e] (filter (\<lambda>e. \<not> is_ready_event e) es) =
          drop (Suc (length ts)) (fst f) @ (if has_type ''message.complete'' (snd f) then [snd f] else [])"
        by (simp_all add: f_def)
      have "drop (length ts) (fst f) = drop (length ts) (take (Suc (length ts)) (fst f)) @ drop (Suc (length ts)) (fst f)"
        by (metis append_take_drop_id drop_drop drop_take plus_1_eq_Suc take_drop)
      with t have "drop (length ts) (fst f) = cur # drop (Suc (length ts)) (fst f)" by simp
      moreover have "take (length ts) (fst f) = ts"
        using arg_cong [OF t, where f = "take (length ts)"] by (simp add: min_def)
      moreover have "fold cut_step (e # es) (ts, cur) = f"
        using True \<open>\<not> is_ready_event e\<close> by (simp add: f_def cut_step_def)
      ultimately show ?thesis using c True \<open>\<not> is_ready_event e\<close> by simp
    next
      case c: False
      then have "cut_step e (ts, cur) = (ts, cur @ [e])" using False by (simp add: cut_step_def)
      moreover have "cut_turns cur (e # xs) = cut_turns (cur @ [e]) xs" for xs
        using c by auto
      ultimately show ?thesis using False Cons.IH [of "cur @ [e]" ts] by simp
    qed
  qed
qed simp

lemma load_lines_rel:
  assumes "load_rel ts cur st" and "fold cut_step (recorded_events sj ls) (ts, cur) = (ts', cur')"
  shows "\<exists>st'. load_lines sj (map Inr ls) st = Inr st' \<and> load_rel ts' cur' st'"
  using assms
proof (induction ls arbitrary: ts cur st)
  case Nil
  then show ?case by simp
next
  case (Cons l ls)
  show ?case
  proof (cases "parse_event_frame sj l")
    case None
    with Cons.prems(2) have "fold cut_step (recorded_events sj ls) (ts, cur) = (ts', cur')"
      by simp
    from Cons.IH [OF Cons.prems(1) this] None show ?thesis by (simp add: load_line_def)
  next
    case (Some e)
    define c where "c = cut_step e (ts, cur)"
    from Some Cons.prems(2) have "fold cut_step (recorded_events sj ls) (fst c, snd c) = (ts', cur')"
      by (simp add: c_def)
    from Cons.IH [OF load_event_rel [OF Cons.prems(1), of e, folded c_def] this] Some
    show ?thesis by (simp add: load_line_def)
  qed
qed

lemma load_last_rel:
  assumes "load_rel ts cur st"
  shows "load_finish (load_last st) =
     served (ts @ (if has_type ''message.complete'' cur then [cur] else []))"
proof -
  define us where "us = ts @ (if has_type ''message.complete'' cur then [cur] else [])"
  define f where "f = load_last st"
  have "ls_plain f = of_class Turn_Plain us \<and>
      ls_scenarios f = special_turns us"
  proof (cases "ls_complete st")
    case False
    with assms have "us = ts" by (auto simp: us_def load_rel_def)
    with False assms show ?thesis by (simp add: f_def load_last_def load_rel_def)
  next
    case True
    with assms have "cur \<noteq> []" "us = ts @ [cur]" by (auto simp: load_rel_def us_def)
    with True assms show ?thesis
      by (auto simp: f_def load_last_def load_rel_def Let_def of_class_append of_class_single
          turn_class_def special_turns_def fun_eq_iff)
  qed
  then have p: "ls_plain f = of_class Turn_Plain us"
    and s: "ls_scenarios f = special_turns us"
    by simp_all
  have "load_finish f k = served us k" for k
    by (cases k; cases "of_class Turn_Plain us")
      (auto simp: load_finish_def served_def p s first_opt_def special_turns_def Let_def split: option.splits)
  then show ?thesis by (simp add: f_def us_def fun_eq_iff)
qed

lemma load_event_info:
  "ls_ready (load_event (v, ty, p) st) = (if ty = ''gateway.ready'' then p else ls_ready st)"
  "ls_session_info (load_event (v, ty, p) st) =
     (if ty = ''session.info'' \<and> ls_session_info st = None then Some v else ls_session_info st)"
  by (cases "ls_complete st"; simp add: load_event_def close_turn_def Let_def)+

definition first_info :: "recorded list \<Rightarrow> json option" where
  "first_info es = map_option fst (find (\<lambda>e. rec_type e = ''session.info'') es)"

definition last_ready :: "recorded list \<Rightarrow> json" where
  "last_ready es = fold (\<lambda>e r. if is_ready_event e then snd (snd e) else r) es JNull"

lemma load_lines_info:
  assumes "load_lines sj (map Inr ls) st = Inr st'"
  shows "ls_ready st' =
      fold (\<lambda>e r. if is_ready_event e then snd (snd e) else r) (recorded_events sj ls) (ls_ready st) \<and>
    ls_session_info st' =
      (case ls_session_info st of None \<Rightarrow> first_info (recorded_events sj ls) | Some v \<Rightarrow> Some v)"
  using assms
proof (induction ls arbitrary: st)
  case (Cons l ls)
  then have l: "load_lines sj (map Inr ls) (load_line sj l st) = Inr st'" by simp
  show ?case
  proof (cases "parse_event_frame sj l")
    case None
    with Cons.IH [OF l] show ?thesis by (simp add: load_line_def first_info_def split: option.split)
  next
    case (Some e)
    obtain v ty p where e: "e = (v, ty, p)" by (cases e)
    from Cons.IH [OF l] Some show ?thesis
      by (simp add: load_line_def e load_event_info is_ready_event_def first_info_def split: option.split)
  qed
qed (simp add: first_info_def split: option.split)

lemma load_last_info:
  "ls_ready (load_last st) = ls_ready st" "ls_session_info (load_last st) = ls_session_info st"
  by (simp_all add: load_last_def Let_def)

lemma load_scenarios_cuts:
  assumes "rd path = Inr (map Inr ls)"
  shows "load_scenarios rd sj path =
     Inr (served (cut_turns [] (turn_events sj ls)), last_ready (recorded_events sj ls),
          first_info (recorded_events sj ls))"
proof -
  obtain ts cur where f: "fold cut_step (recorded_events sj ls) ([], []) = (ts, cur)" by fastforce
  from load_lines_rel [OF load_rel_init f] obtain st
    where st: "load_lines sj (map Inr ls) load_init = Inr st" "load_rel ts cur st" by blast
  have "cut_turns [] (turn_events sj ls) = ts @ (if has_type ''message.complete'' cur then [cur] else [])"
    using cut_turns_foldl [of "[]" "recorded_events sj ls" "[]"] by (simp add: turn_events_def f)
  moreover have "ls_ready load_init = JNull" "ls_session_info load_init = None"
    by (simp_all add: load_init_def)
  ultimately show ?thesis
    using load_last_rel [OF st(2)] load_lines_info [OF st(1)]
    by (simp add: load_scenarios_def assms st(1) load_last_info last_ready_def Let_def)
qed

text \<open>The reference cut loses no event: the turns and the unfinished rest are the recording.\<close>

lemma cut_turns_partition:
  "\<exists>rest. cur @ es = concat (cut_turns cur es) @ rest \<and> \<not> has_type ''message.complete'' rest"
proof (induction cur es rule: cut_turns.induct)
  case (2 cur e es)
  then show ?case
    by (cases "has_type ''message.complete'' cur \<and> rec_type e = ''message.start''") auto
qed auto

lemma cut_turns_complete: "t \<in> set (cut_turns cur es) \<Longrightarrow> has_type ''message.complete'' t"
  by (induction cur es rule: cut_turns.induct) (auto split: if_splits)

lemma max_by_key_None [simp]: "max_by_key f xs = None \<longleftrightarrow> xs = []"
  by (cases xs) (auto split: option.splits)

lemma max_by_key_in: "max_by_key f xs = Some x \<Longrightarrow> x \<in> set xs \<and> (\<forall>y \<in> set xs. f y \<le> f x)"
proof (induction xs arbitrary: x)
  case (Cons a xs)
  then show ?case
    by (cases "max_by_key f xs") (fastforce split: if_splits)+
qed simp

lemma of_class_in: "fs \<in> set (of_class k ts) \<Longrightarrow> \<exists>t \<in> set ts. fs = map fst t"
  by (auto simp: of_class_def)

lemma served_in:
  assumes "served ts k = Some fs"
  shows "\<exists>t \<in> set ts. fs = map fst t"
proof -
  have "\<exists>c. fs \<in> set (of_class c ts)"
  proof (cases k)
    case Turn_Plain
    with assms show ?thesis by (auto simp: served_def first_opt_def split: list.splits intro!: exI [of _ Turn_Plain])
  next
    case Turn_Slow
    with assms show ?thesis using max_by_key_in by (fastforce simp: served_def)
  qed (use assms in \<open>auto simp: served_def last_opt_def split: if_splits intro: last_in_set\<close>)
  then show ?thesis using of_class_in by blast
qed

lemma parse_event_frame_type:
  "parse_event_frame sj l = Some (v, ty, p) \<Longrightarrow> frame_type v = Some ty"
  by (auto simp: parse_event_frame_def frame_type_def Let_def split: if_splits option.splits json.splits)

lemma recorded_events_type: "e \<in> set (recorded_events sj ls) \<Longrightarrow> frame_type (fst e) = Some (rec_type e)"
  by (induction ls) (auto split: option.splits dest: parse_event_frame_type)

text \<open>
  C29: cutting a recording agrees with the reference cut. A turn ends where a
  \<open>message.start\<close> follows a \<open>message.complete\<close>, a last turn that never completes is
  dropped, \<open>gateway.ready\<close> belongs to no turn; the last clarify and tool turns, the first
  plain turn and the longest plain turn (the later one of a tie) are served, with the last
  ready payload and the first \<open>session.info\<close> frame.
\<close>

theorem load_cuts_turns:
  assumes "rd path = Inr (map Inr ls)"
  shows "fixtures_load rd sj path =
     Inr \<lparr>scenarios = served (cut_turns [] (turn_events sj ls)),
          ready_value = last_ready (recorded_events sj ls), approval_frame = None,
          clarify_frame = None, session_info = first_info (recorded_events sj ls)\<rparr>"
  by (simp add: fixtures_load_def load_scenarios_cuts [where rd = rd and path = path and ls = ls, OF assms])

lemma first_info_type:
  assumes "first_info (recorded_events sj ls) = Some v"
  shows "frame_type v = Some ''session.info''"
proof -
  from assms obtain e where e: "find (\<lambda>e. rec_type e = ''session.info'') (recorded_events sj ls) = Some e"
    "v = fst e" by (auto simp: first_info_def)
  from e(1) have "e \<in> set (recorded_events sj ls)" "rec_type e = ''session.info''"
    by (auto simp: find_Some_iff)
  with recorded_events_type e(2) show ?thesis by fastforce
qed

lemma has_type_mem: "has_type ty t \<longleftrightarrow> (\<exists>e \<in> set t. rec_type e = ty)"
  by (auto simp: has_type_def image_iff)

lemma served_completes:
  assumes "served (cut_turns [] (turn_events sj ls)) k = Some fs"
  shows "\<exists>f \<in> set fs. frame_type f = Some ''message.complete''"
proof -
  from served_in [OF assms] obtain t where t: "t \<in> set (cut_turns [] (turn_events sj ls))"
    "fs = map fst t" by blast
  from cut_turns_complete [OF t(1)] obtain e where e: "e \<in> set t" "rec_type e = ''message.complete''"
    by (auto simp: has_type_mem)
  obtain rest where "turn_events sj ls = concat (cut_turns [] (turn_events sj ls)) @ rest"
    using cut_turns_partition [of "[]" "turn_events sj ls"] by auto
  with t(1) e(1) have "e \<in> set (turn_events sj ls)"
    by (metis UN_I Un_iff set_append set_concat)
  then have "e \<in> set (recorded_events sj ls)" by (simp add: turn_events_def)
  with recorded_events_type e t(2) show ?thesis by fastforce
qed

lemma load_with_synthetic_keeps:
  assumes "load_with_synthetic rd sj events synthetic clarify = Inr fx"
    and "rd events = Inr (map Inr ls)"
  shows "scenarios fx = served (cut_turns [] (turn_events sj ls))"
    "session_info fx = first_info (recorded_events sj ls)"
proof -
  have "fixtures_load rd sj events =
     Inr \<lparr>scenarios = served (cut_turns [] (turn_events sj ls)),
          ready_value = last_ready (recorded_events sj ls), approval_frame = None,
          clarify_frame = None, session_info = first_info (recorded_events sj ls)\<rparr>"
    by (simp add: fixtures_load_def load_scenarios_cuts [where rd = rd and path = events and ls = ls, OF assms(2)])
  with assms(1) show "scenarios fx = served (cut_turns [] (turn_events sj ls))"
    "session_info fx = first_info (recorded_events sj ls)"
    by (auto simp: load_with_synthetic_def Let_def split: sum.splits option.splits)
qed

definition completes :: "json list \<Rightarrow> bool" where
  "completes fs \<longleftrightarrow> (\<exists>f \<in> set fs. frame_type f = Some ''message.complete'')"

lemma turn_frames_complete:
  assumes "\<And>k fs. scenarios fx k = Some fs \<Longrightarrow> completes fs"
    and "scenarios fx Turn_Plain \<noteq> None" and "turn_frames fx kind \<noteq> []"
  shows "completes (turn_frames fx kind)"
proof -
  have plain: "completes (plain_frames fx)" using assms(1,2) by (auto simp: plain_frames_def)
  have "completes (unwrap_or [] (scenarios fx k))" if "unwrap_or [] (scenarios fx k) \<noteq> []" for k
    using that assms(1) by (cases "scenarios fx k") auto
  with plain assms(1,3) show ?thesis
    by (cases kind) (auto simp: turn_frames_def completes_def split: option.splits)
qed

text \<open>
  whatever the recording, as long as it holds one plain turn, every turn the gateway
  serves, synthetic cards included, reports \<open>message.complete\<close>, and when the recording
  has a \<open>session.info\<close> frame the last frame of every turn is one: the client's running
  flag is cleared.
\<close>

lemma turn_completes:
  assumes "rd events = Inr (map Inr ls)"
    and "load_with_synthetic rd sj events synthetic clarify = Inr fx"
    and "scenarios fx Turn_Plain \<noteq> None" and "turn_frames fx kind \<noteq> []"
  shows "(\<exists>f \<in> set (turn fx kind). frame_type f = Some ''message.complete'') \<and>
     (session_info fx \<noteq> None \<longrightarrow> frame_type (last (turn fx kind)) = Some ''session.info'')"
proof -
  note fx = load_with_synthetic_keeps [OF assms(2,1)]
  have "completes (turn_frames fx kind)"
    by (rule turn_frames_complete [OF _ assms(3,4)])
      (use served_completes fx(1) in \<open>auto simp: completes_def\<close>)
  moreover have "set (turn_frames fx kind) \<subseteq> set (turn fx kind)"
    by (auto simp: turn_def Let_def split: option.split)
  moreover have "session_info fx \<noteq> None \<longrightarrow> frame_type (last (turn fx kind)) = Some ''session.info''"
    using first_info_type fx(2) by (auto simp: turn_def Let_def split: option.split)
  ultimately show ?thesis by (auto simp: completes_def)
qed

section \<open>A small recording\<close>

text \<open>A line is parsed to an event frame of its own text; two plain turns and a tool turn.\<close>

definition word_frame :: "string \<Rightarrow> json" where
  "word_frame ty =
     JObj [(''jsonrpc'', JStr ''2.0''), (''method'', JStr ''event''),
           (''params'', JObj [(''type'', JStr ty), (''session_id'', JStr ''r''), (''seq'', JNum (IntNum 2)),
                              (''payload'', JObj [(''text'', JStr ty)])])]"

definition word_serde :: serde where
  "word_serde =
     \<lparr>to_string = (\<lambda>_. Some ''''), from_str = (\<lambda>s. Some (word_frame s)),
      parse_error = (\<lambda>_. ''''), num_to_string = (\<lambda>_. '''')\<rparr>"

definition small_lines :: "string list" where
  "small_lines =
     [''gateway.ready'', ''message.start'', ''message.complete'', ''session.info'',
      ''message.start'', ''tool.start'', ''message.complete'',
      ''message.start'', ''message.delta'', ''message.delta'', ''message.complete'', ''message.start'']"

definition small_reader :: line_reader where
  "small_reader path = (if path = ''events'' then Inr (map Inr small_lines) else Inr [Inr ''approval.request''])"


lemma small_served:
  "map_option length (served (cut_turns [] (turn_events word_serde small_lines)) Turn_Slow) = Some 4"
  "map_option length (served (cut_turns [] (turn_events word_serde small_lines)) Turn_Plain) = Some 3"
  "map_option length (served (cut_turns [] (turn_events word_serde small_lines)) Turn_Tool) = Some 3"
  "first_info (recorded_events word_serde small_lines) \<noteq> None"
  by code_simp+

lemma load_cuts_turns_witness:
  "\<exists>fx. fixtures_load small_reader word_serde ''events'' = Inr fx \<and>
     map_option length (scenarios fx Turn_Slow) = Some 4 \<and>
     map_option length (scenarios fx Turn_Tool) = Some 3"
proof -
  have "small_reader ''events'' = Inr (map Inr small_lines)" by (simp add: small_reader_def)
  from load_cuts_turns [where rd = small_reader and path = "''events''" and ls = small_lines, OF this, where sj = word_serde]
    small_served show ?thesis by simp
qed

lemma small_load:
  "load_with_synthetic small_reader word_serde ''events'' ''s'' None =
     Inr \<lparr>scenarios = served (cut_turns [] (turn_events word_serde small_lines)),
          ready_value = last_ready (recorded_events word_serde small_lines),
          approval_frame = Some (word_frame ''approval.request''),
          clarify_frame = None, session_info = first_info (recorded_events word_serde small_lines)\<rparr>"
proof -
  have r: "small_reader ''events'' = Inr (map Inr small_lines)" by (simp add: small_reader_def)
  have "load_first_object small_reader word_serde ''s'' = Inr (Some (word_frame ''approval.request''))"
    by code_simp
  then show ?thesis
    by (simp add: load_with_synthetic_def fixtures_load_def
        load_scenarios_cuts [where rd = small_reader and path = "''events''" and ls = small_lines, OF r])
qed

lemma turn_completes_witness:
  "\<exists>fx. load_with_synthetic small_reader word_serde ''events'' ''s'' None = Inr fx \<and>
     frame_type (hd (turn fx Turn_Approval)) = Some ''approval.request'' \<and>
     frame_type (last (turn fx Turn_Approval)) = Some ''session.info'' \<and>
     (\<exists>f \<in> set (turn fx Turn_Approval). frame_type f = Some ''message.complete'')"
proof -
  define fx where "fx = \<lparr>scenarios = served (cut_turns [] (turn_events word_serde small_lines)),
          ready_value = last_ready (recorded_events word_serde small_lines),
          approval_frame = Some (word_frame ''approval.request''),
          clarify_frame = None, session_info = first_info (recorded_events word_serde small_lines)\<rparr>"
  have r: "small_reader ''events'' = Inr (map Inr small_lines)" by (simp add: small_reader_def)
  note l = small_load [folded fx_def]
  have p: "scenarios fx Turn_Plain \<noteq> None" "session_info fx \<noteq> None"
    using small_served by (auto simp: fx_def)
  have f: "turn_frames fx Turn_Approval = word_frame ''approval.request'' # plain_frames fx"
    by (simp add: turn_frames_def fx_def)
  then have "frame_type (hd (turn fx Turn_Approval)) = Some ''approval.request''"
    by (auto simp: turn_def Let_def frame_type_def word_frame_def split: option.split)
  moreover have "turn_frames fx Turn_Approval \<noteq> []" by (simp add: f)
  ultimately show ?thesis using turn_completes [OF r l p(1)] l p(2) by blast
qed

end
