(* ===== verification/Fake_Gateway.thy ===== *)
theory Fake_Gateway
  imports Fixtures Frames "HOL-Library.AList" "HOL-Library.Word"
begin

text \<open>
  The stand-in gateway the client is exercised against: its state, its tickets, its
  JSON-RPC handlers, the replay of a turn and the WebSocket connections
  (\<open>tools/fake_gateway/src/server.rs\<close>; HTTP is in \<open>Gateway_Http\<close>).

  A \<open>HashMap\<close> that the code iterates over is an association list; its keys are distinct.
  Atomic counters of 64 bits are words and wrap; the log positions and creation orders
  (\<open>i64\<close>, one step per event or session) are unbounded integers. A line put on the
  channel of a connection is kept as the JSON value whose text it is. A spawned task is an
  entry of \<open>gw_turns\<close> or \<open>gw_delayed\<close>; aborting it removes the entry. The clock is an
  argument (\<open>now_marker\<close>'s text).
\<close>

section \<open>State\<close>

record gw_config =
  gc_port :: "16 word"
  gc_user :: string
  gc_password :: string
  gc_fixture :: string
  gc_synthetic :: "string option"
  gc_clarify :: "string option"
  gc_fail_profiles :: "64 word"
  gc_drop_after :: "nat option"

record event_record =
  er_seq :: int
  er_type :: string
  er_payload :: json

record gw_session =
  gs_id :: string
  gs_title :: string
  gs_started_at :: string
  gs_order :: int
  gs_running :: bool
  gs_seq :: int
  gs_events :: "event_record list"
  gs_turn :: "nat option"

text \<open>What a turn's task still has to do, and a connection with its channel and its wire.\<close>

record gw_turn =
  gt_sid :: string
  gt_frames :: "json list"
  gt_out :: nat

record gw_conn =
  gn_queue :: "json list"
  gn_sent :: nat
  gn_wire :: "json list"

record gateway =
  gw_conf :: gw_config
  gw_fixtures :: fixtures
  gw_sessions :: "(string \<times> gw_session) list"
  gw_next_session_id :: "64 word"
  gw_next_order :: int
  gw_tickets :: "string \<rightharpoonup> bool"
  gw_next_ticket :: "64 word"
  gw_failures_left :: "64 word"
  gw_drop_armed :: bool
  gw_conns :: "nat \<rightharpoonup> gw_conn"
  gw_next_conn :: nat
  gw_turns :: "nat \<rightharpoonup> gw_turn"
  gw_next_turn :: nat
  gw_delayed :: "(nat \<times> json) list"

definition session_new :: "string \<Rightarrow> string \<Rightarrow> string \<Rightarrow> int \<Rightarrow> gw_session" where
  "session_new sid title started_at order =
     \<lparr>gs_id = sid, gs_title = title, gs_started_at = started_at, gs_order = order,
      gs_running = False, gs_seq = 0, gs_events = [], gs_turn = None\<rparr>"

definition gateway_new :: "gw_config \<Rightarrow> fixtures \<Rightarrow> gateway" where
  "gateway_new conf fx =
     \<lparr>gw_conf = conf, gw_fixtures = fx, gw_sessions = [], gw_next_session_id = 1,
      gw_next_order = 0, gw_tickets = Map.empty, gw_next_ticket = 1,
      gw_failures_left = gc_fail_profiles conf, gw_drop_armed = (gc_drop_after conf \<noteq> None),
      gw_conns = Map.empty, gw_next_conn = 0, gw_turns = Map.empty, gw_next_turn = 0,
      gw_delayed = []\<rparr>"

abbreviation gw_lookup :: "gateway \<Rightarrow> string \<Rightarrow> gw_session option" where
  "gw_lookup g \<equiv> map_of (gw_sessions g)"

text \<open>\<open>get_mut(sid)\<close> followed by an update of the record.\<close>

definition modify_session :: "string \<Rightarrow> (gw_session \<Rightarrow> gw_session) \<Rightarrow> gateway \<Rightarrow> gateway" where
  "modify_session sid f g =
     (case gw_lookup g sid of
        None \<Rightarrow> g
      | Some r \<Rightarrow> g\<lparr>gw_sessions := AList.update sid (f r) (gw_sessions g)\<rparr>)"

text \<open>\<open>entry(sid).or_insert_with(..)\<close>: an absent session is created with the next order.\<close>

definition entry_session :: "string \<Rightarrow> string \<Rightarrow> gateway \<Rightarrow> gateway" where
  "entry_session now sid g =
     (case gw_lookup g sid of
        Some _ \<Rightarrow> g
      | None \<Rightarrow>
          g\<lparr>gw_sessions := AList.update sid (session_new sid '''' now (gw_next_order g)) (gw_sessions g),
            gw_next_order := gw_next_order g + 1\<rparr>)"

section \<open>Tickets, the drop and the failure budget\<close>

definition should_drop :: "nat \<Rightarrow> gateway \<Rightarrow> bool \<times> gateway" where
  "should_drop sent g =
     (case gc_drop_after (gw_conf g) of
        Some n \<Rightarrow>
          (if n \<le> sent \<and> gw_drop_armed g then (True, g\<lparr>gw_drop_armed := False\<rparr>) else (False, g))
      | None \<Rightarrow> (False, g))"

definition take_profile_failure :: "gateway \<Rightarrow> bool \<times> gateway" where
  "take_profile_failure g =
     (if gw_failures_left g = 0 then (False, g)
      else (True, g\<lparr>gw_failures_left := gw_failures_left g - 1\<rparr>))"

definition ticket_name :: "64 word \<Rightarrow> string" where
  "ticket_name n = ''fake-ticket-'' @ show_nat (unat n)"

definition gw_mint_ticket :: "gateway \<Rightarrow> string \<times> gateway" where
  "gw_mint_ticket g =
     (let n = gw_next_ticket g; ticket = ticket_name n
      in (ticket, g\<lparr>gw_next_ticket := n + 1, gw_tickets := (gw_tickets g)(ticket \<mapsto> True)\<rparr>))"

definition take_ticket :: "string \<Rightarrow> gateway \<Rightarrow> bool \<times> gateway" where
  "take_ticket ticket g =
     (if gw_tickets g ticket = Some True
      then (True, g\<lparr>gw_tickets := (gw_tickets g)(ticket \<mapsto> False)\<rparr>)
      else (False, g))"

section \<open>The event log of a session\<close>

definition push_event :: "string \<Rightarrow> json \<Rightarrow> gw_session \<Rightarrow> gw_session" where
  "push_event ty payload r =
     r\<lparr>gs_seq := gs_seq r + 1,
       gs_events := gs_events r @ [\<lparr>er_seq = gs_seq r + 1, er_type = ty, er_payload = payload\<rparr>]\<rparr>"

definition next_seq_and_record :: "string \<Rightarrow> string \<Rightarrow> json \<Rightarrow> gateway \<Rightarrow> int option \<times> gateway" where
  "next_seq_and_record sid ty payload g =
     (case gw_lookup g sid of
        None \<Rightarrow> (None, g)
      | Some r \<Rightarrow> (Some (gs_seq r + 1), modify_session sid (push_event ty payload) g))"

section \<open>Sending\<close>

text \<open>A channel whose connection is gone drops what is sent to it.\<close>

definition gw_send :: "nat \<Rightarrow> json \<Rightarrow> gateway \<Rightarrow> gateway" where
  "gw_send c v g =
     (case gw_conns g c of
        None \<Rightarrow> g
      | Some cn \<Rightarrow> g\<lparr>gw_conns := (gw_conns g)(c \<mapsto> cn\<lparr>gn_queue := gn_queue cn @ [v]\<rparr>)\<rparr>)"

definition reply_ok :: "nat \<Rightarrow> json \<Rightarrow> json \<Rightarrow> gateway \<Rightarrow> gateway" where
  "reply_ok c i result =
     gw_send c (JObj [(''jsonrpc'', JStr ''2.0''), (''id'', i), (''result'', result)])"

definition reply_err :: "nat \<Rightarrow> json \<Rightarrow> int \<Rightarrow> string \<Rightarrow> gateway \<Rightarrow> gateway" where
  "reply_err c i code message =
     gw_send c (JObj [(''jsonrpc'', JStr ''2.0''), (''id'', i),
                      (''error'', JObj [(''code'', JNum (IntNum code)), (''message'', JStr message)])])"

definition event_frame :: "string \<Rightarrow> string \<Rightarrow> int \<Rightarrow> json \<Rightarrow> json" where
  "event_frame ty sid seq payload =
     JObj [(''jsonrpc'', JStr ''2.0''), (''method'', JStr ''event''),
           (''params'', JObj [(''type'', JStr ty), (''session_id'', JStr sid),
                              (''seq'', JNum (IntNum seq)), (''payload'', payload)])]"

section \<open>Handlers\<close>

definition value_i64 :: "json \<Rightarrow> int option" where
  "value_i64 v = (case v of JNum n \<Rightarrow> as_i64 n | _ \<Rightarrow> None)"

definition session_entry_json :: "gw_session \<Rightarrow> json" where
  "session_entry_json r =
     JObj [(''id'', JStr (gs_id r)), (''resolved_id'', JStr (gs_id r)), (''title'', JStr (gs_title r)),
           (''preview'', JStr ''''), (''started_at'', JStr (gs_started_at r)),
           (''message_count'', JNum (IntNum 0)), (''source'', JStr ''fake'')]"

definition set_title :: "string \<Rightarrow> gw_session \<Rightarrow> gw_session" where
  "set_title title r = r\<lparr>gs_title := title\<rparr>"

definition handle_session_title :: "string \<Rightarrow> nat \<Rightarrow> json \<Rightarrow> json \<Rightarrow> gateway \<Rightarrow> gateway" where
  "handle_session_title now c i params g =
     (let sid = str_at params ''session_id'';
          requested = Option.bind (get_key params ''title'') as_str;
          g1 = entry_session now sid g;
          g2 = (case requested of Some title \<Rightarrow> modify_session sid (set_title title) g1 | None \<Rightarrow> g1);
          title = (case gw_lookup g2 sid of Some r \<Rightarrow> gs_title r | None \<Rightarrow> '''')
      in reply_ok c i (JObj [(''title'', JStr title), (''pending'', JBool False)]) g2)"

definition session_name :: "64 word \<Rightarrow> string" where
  "session_name n = ''fake-session-'' @ show_nat (unat n)"

definition insert_session :: "string \<Rightarrow> gw_session \<Rightarrow> gateway \<Rightarrow> gateway" where
  "insert_session sid r g = g\<lparr>gw_sessions := AList.update sid r (gw_sessions g)\<rparr>"

definition create_record :: "string \<Rightarrow> string \<Rightarrow> gateway \<Rightarrow> string \<times> gateway" where
  "create_record now title g =
     (let sid = session_name (gw_next_session_id g); order = gw_next_order g
      in (sid, insert_session sid (session_new sid title now order)
                 (g\<lparr>gw_next_session_id := gw_next_session_id g + 1, gw_next_order := order + 1\<rparr>)))"

definition title_payload :: "string \<Rightarrow> string \<Rightarrow> json" where
  "title_payload sid title = JObj [(''session_id'', JStr sid), (''title'', JStr title)]"

definition delay_frame :: "nat \<Rightarrow> json \<Rightarrow> gateway \<Rightarrow> gateway" where
  "delay_frame c frame g = g\<lparr>gw_delayed := gw_delayed g @ [(c, frame)]\<rparr>"

definition handle_session_create :: "string \<Rightarrow> nat \<Rightarrow> json \<Rightarrow> json \<Rightarrow> gateway \<Rightarrow> gateway" where
  "handle_session_create now c i params g =
     (let profile = str_at params ''profile''; title = str_at params ''title'';
          (sid, g1) = create_record now title g;
          g2 = reply_ok c i
                 (JObj [(''session_id'', JStr sid), (''stored_session_id'', JStr sid),
                        (''message_count'', JNum (IntNum 0)),
                        (''info'', JObj [(''profile_name'', JStr profile)])]) g1
      in if title = '''' then g2
         else (case next_seq_and_record sid ''session.title'' (title_payload sid title) g2 of
                 (None, g3) \<Rightarrow> g3
               | (Some seq, g3) \<Rightarrow>
                   delay_frame c (event_frame ''session.title'' sid seq (title_payload sid title)) g3))"

text \<open>The sessions, latest created first.\<close>

definition sessions_by_order :: "gateway \<Rightarrow> gw_session list" where
  "sessions_by_order g = sort_key (\<lambda>s. - gs_order s) (map snd (gw_sessions g))"

definition list_limit :: "json \<Rightarrow> nat" where
  "list_limit params =
     (case Option.bind (get_key params ''limit'') value_i64 of
        Some n \<Rightarrow> (if 0 \<le> n then nat n else 20)
      | None \<Rightarrow> 20)"

definition handle_session_list :: "nat \<Rightarrow> json \<Rightarrow> json \<Rightarrow> gateway \<Rightarrow> gateway" where
  "handle_session_list c i params g =
     reply_ok c i
       (JObj [(''sessions'', JArr (map session_entry_json (take (list_limit params) (sessions_by_order g))))]) g"

definition handle_session_most_recent :: "nat \<Rightarrow> json \<Rightarrow> gateway \<Rightarrow> gateway" where
  "handle_session_most_recent c i g =
     reply_ok c i
       (case max_by_key gs_order (map snd (gw_sessions g)) of
          Some r \<Rightarrow> session_entry_json r
        | None \<Rightarrow> JObj []) g"

definition handle_session_resume :: "string \<Rightarrow> nat \<Rightarrow> json \<Rightarrow> json \<Rightarrow> gateway \<Rightarrow> gateway" where
  "handle_session_resume now c i params g =
     (let sid = str_at params ''session_id'';
          resumed = (gw_lookup g sid \<noteq> None);
          g1 = entry_session now sid g;
          running = (case gw_lookup g1 sid of Some r \<Rightarrow> gs_running r | None \<Rightarrow> False)
      in reply_ok c i
           (JObj [(''session_id'', JStr sid), (''resumed'', JBool resumed),
                  (''message_count'', JNum (IntNum 0)), (''messages'', JArr []),
                  (''running'', JBool running), (''inflight'', JBool False),
                  (''info'', JObj [(''profile_name'', JStr '''')])]) g1)"

definition event_json :: "string \<Rightarrow> event_record \<Rightarrow> json" where
  "event_json sid e =
     JObj [(''type'', JStr (er_type e)), (''session_id'', JStr sid),
           (''seq'', JNum (IntNum (er_seq e))), (''payload'', er_payload e)]"

definition events_after :: "int \<Rightarrow> gw_session \<Rightarrow> event_record list" where
  "events_after last_seen r = filter (\<lambda>e. last_seen < er_seq e) (gs_events r)"

definition since_result :: "string \<Rightarrow> int \<Rightarrow> gateway \<Rightarrow> json" where
  "since_result sid last_seen g =
     (let (events, latest_seq, truncated) =
            (case gw_lookup g sid of
               Some r \<Rightarrow> (map (event_json sid) (events_after last_seen r), gs_seq r, False)
             | None \<Rightarrow> ([], last_seen, True));
          epoch = str_at (ready_payload (gw_fixtures g)) ''replay_epoch''
      in JObj [(''events'', JArr events), (''latest_seq'', JNum (IntNum latest_seq)),
               (''truncated'', JBool truncated), (''epoch'', JStr epoch)])"

definition handle_events_since :: "nat \<Rightarrow> json \<Rightarrow> json \<Rightarrow> gateway \<Rightarrow> gateway" where
  "handle_events_since c i params g =
     (let sid = str_at params ''session_id'';
          last_seen = unwrap_or 0 (Option.bind (get_key params ''last_seen'') value_i64)
      in reply_ok c i (since_result sid last_seen g) g)"

definition abort_turn :: "nat option \<Rightarrow> gateway \<Rightarrow> gateway" where
  "abort_turn t g = (case t of None \<Rightarrow> g | Some n \<Rightarrow> g\<lparr>gw_turns := (gw_turns g)(n := None)\<rparr>)"

definition gw_close_session :: "string \<Rightarrow> gateway \<Rightarrow> gateway" where
  "gw_close_session sid g =
     (case gw_lookup g sid of
        None \<Rightarrow> g
      | Some r \<Rightarrow> abort_turn (gs_turn r) (g\<lparr>gw_sessions := AList.delete sid (gw_sessions g)\<rparr>))"

definition handle_session_close :: "nat \<Rightarrow> json \<Rightarrow> json \<Rightarrow> gateway \<Rightarrow> gateway" where
  "handle_session_close c i params g =
     reply_ok c i (JObj [(''ok'', JBool True)]) (gw_close_session (str_at params ''session_id'') g)"

definition interrupted_payload :: json where
  "interrupted_payload = JObj [(''status'', JStr ''interrupted'')]"

text \<open>The section of \<open>session.interrupt\<close> under the lock: the frame to send, if any.\<close>

definition interrupt_section :: "string \<Rightarrow> gateway \<Rightarrow> json option \<times> gateway" where
  "interrupt_section sid g =
     (case gw_lookup g sid of
        Some r \<Rightarrow>
          (if gs_running r
           then (Some (event_frame ''message.complete'' sid (gs_seq r + 1) interrupted_payload),
                 modify_session sid
                   (\<lambda>r. push_event ''message.complete'' interrupted_payload
                          (r\<lparr>gs_running := False, gs_turn := None\<rparr>))
                   (abort_turn (gs_turn r) g))
           else (None, g))
      | None \<Rightarrow> (None, g))"

definition handle_session_interrupt :: "nat \<Rightarrow> json \<Rightarrow> json \<Rightarrow> gateway \<Rightarrow> gateway" where
  "handle_session_interrupt c i params g =
     (let (frame, g1) = interrupt_section (str_at params ''session_id'') g;
          g2 = (case frame of Some f \<Rightarrow> gw_send c f g1 | None \<Rightarrow> g1)
      in reply_ok c i (JObj [(''ok'', JBool True)]) g2)"

text \<open>
  \<open>prompt.submit\<close> takes the lock twice: to claim the session, and to store the handle of
  the spawned turn; the turn is spawned in between.
\<close>

definition claim_session :: "string \<Rightarrow> string \<Rightarrow> gateway \<Rightarrow> bool \<times> gateway" where
  "claim_session now sid g =
     (let g1 = entry_session now sid g;
          running = (case gw_lookup g1 sid of Some r \<Rightarrow> gs_running r | None \<Rightarrow> False)
      in if running then (True, g1)
         else (False, modify_session sid (\<lambda>r. r\<lparr>gs_running := True\<rparr>) g1))"

definition spawn_turn :: "string \<Rightarrow> json list \<Rightarrow> nat \<Rightarrow> gateway \<Rightarrow> nat \<times> gateway" where
  "spawn_turn sid frames c g =
     (let t = gw_next_turn g
      in (t, g\<lparr>gw_turns := (gw_turns g)(t \<mapsto> \<lparr>gt_sid = sid, gt_frames = frames, gt_out = c\<rparr>),
               gw_next_turn := t + 1\<rparr>))"

definition register_turn :: "string \<Rightarrow> nat \<Rightarrow> gateway \<Rightarrow> gateway" where
  "register_turn sid t = modify_session sid (\<lambda>r. r\<lparr>gs_turn := Some t\<rparr>)"

definition handle_prompt_submit :: "string \<Rightarrow> nat \<Rightarrow> json \<Rightarrow> json \<Rightarrow> gateway \<Rightarrow> gateway" where
  "handle_prompt_submit now c i params g =
     (let sid = str_at params ''session_id''; prompt = str_at params ''text'';
          (already_running, g1) = claim_session now sid g
      in if already_running then reply_ok c i (JObj [(''status'', JStr ''redirected'')]) g1
         else
           (let g2 = reply_ok c i (JObj [(''status'', JStr ''streaming'')]) g1;
                frames = turn (gw_fixtures g2) (select_kind prompt);
                (t, g3) = spawn_turn sid frames c g2
            in register_turn sid t g3))"

definition handle_slash_exec :: "nat \<Rightarrow> json \<Rightarrow> json \<Rightarrow> gateway \<Rightarrow> gateway" where
  "handle_slash_exec c i params g =
     (let command = str_at params ''command''
      in if trim command = '''' then reply_err c i 4004 ''empty command'' g
         else reply_ok c i (JObj [(''type'', JStr ''exec''), (''output'', JStr (''ran '' @ command))]) g)"

definition handle_command_dispatch :: "nat \<Rightarrow> json \<Rightarrow> json \<Rightarrow> gateway \<Rightarrow> gateway" where
  "handle_command_dispatch c i params g =
     (let name = str_at params ''name''; arg = str_at params ''arg'';
          out = (if arg = '''' then ''dispatched '' @ name else ''dispatched '' @ name @ '' '' @ arg)
      in reply_ok c i (JObj [(''type'', JStr ''exec''), (''output'', JStr out)]) g)"

definition completion_json :: "string \<Rightarrow> string \<Rightarrow> json" where
  "completion_json cmd meta =
     JObj [(''display'', JStr cmd), (''text'', JStr cmd), (''kind'', JStr ''command''), (''meta'', JStr meta)]"

definition gw_slash_completions :: json where
  "gw_slash_completions =
     JObj [(''items'', JArr
              [completion_json ''/help'' ''list available commands'',
               completion_json ''/model'' ''switch the active model'',
               completion_json ''/clear'' ''clear the transcript'',
               completion_json ''/quit'' ''end the session'']),
           (''replace_from'', JNum (IntNum 0))]"

section \<open>Dispatch\<close>

definition dispatch_method ::
  "string \<Rightarrow> string \<Rightarrow> nat \<Rightarrow> json \<Rightarrow> json \<Rightarrow> gateway \<Rightarrow> gateway" where
  "dispatch_method now meth c i params g =
     (if meth = ''gateway.ping'' then reply_ok c i (JObj [(''ok'', JBool True)]) g
      else if meth = ''session.create'' then handle_session_create now c i params g
      else if meth = ''session.list'' then handle_session_list c i params g
      else if meth = ''session.most_recent'' then handle_session_most_recent c i g
      else if meth = ''session.resume'' then handle_session_resume now c i params g
      else if meth = ''session.events.since'' then handle_events_since c i params g
      else if meth = ''session.title'' then handle_session_title now c i params g
      else if meth = ''session.close'' then handle_session_close c i params g
      else if meth = ''session.interrupt'' then handle_session_interrupt c i params g
      else if meth = ''prompt.submit'' then handle_prompt_submit now c i params g
      else if meth = ''slash.exec'' then handle_slash_exec c i params g
      else if meth = ''command.dispatch'' then handle_command_dispatch c i params g
      else if meth = ''complete.slash'' then reply_ok c i gw_slash_completions g
      else if meth = ''approval.pending'' then reply_ok c i (JObj [(''pending'', JArr [])]) g
      else if meth = ''approval.respond'' then reply_ok c i (JObj [(''ok'', JBool True)]) g
      else if meth = ''clarify.respond''
      then reply_ok c i (JObj [(''status'', JStr ''ok''), (''remaining'', JArr [])]) g
      else reply_err c i (- 32601) ''method not found'' g)"

definition handle_rpc_value :: "string \<Rightarrow> nat \<Rightarrow> json \<Rightarrow> gateway \<Rightarrow> gateway" where
  "handle_rpc_value now c v =
     dispatch_method now (str_at v ''method'') c (unwrap_or JNull (get_key v ''id''))
       (unwrap_or JNull (get_key v ''params''))"

definition handle_rpc_line :: "serde \<Rightarrow> string \<Rightarrow> string \<Rightarrow> nat \<Rightarrow> gateway \<Rightarrow> gateway" where
  "handle_rpc_line sj now line c g =
     (case from_str sj line of None \<Rightarrow> g | Some v \<Rightarrow> handle_rpc_value now c v g)"

section \<open>A turn's task\<close>

text \<open>
  One iteration of the loop of \<open>run_turn\<close>, or its end: the frame is recorded, rewritten
  and sent; a session that is gone ends the turn. The sleeps are when a step may run.
\<close>

definition frame_payload :: "json \<Rightarrow> json" where
  "frame_payload f =
     unwrap_or JNull (Option.bind (get_key f ''params'') (\<lambda>p. get_key p ''payload''))"

definition turn_step :: "nat \<Rightarrow> gateway \<Rightarrow> gateway" where
  "turn_step t g =
     (case gw_turns g t of
        None \<Rightarrow> g
      | Some task \<Rightarrow>
          (case gt_frames task of
             [] \<Rightarrow>
               modify_session (gt_sid task) (\<lambda>r. r\<lparr>gs_running := False, gs_turn := None\<rparr>)
                 (g\<lparr>gw_turns := (gw_turns g)(t := None)\<rparr>)
           | f # fs \<Rightarrow>
               (case next_seq_and_record (gt_sid task) (unwrap_or '''' (frame_type f)) (frame_payload f) g of
                  (None, g1) \<Rightarrow> g1\<lparr>gw_turns := (gw_turns g1)(t := None)\<rparr>
                | (Some seq, g1) \<Rightarrow>
                    gw_send (gt_out task) (rewrite_frame f (gt_sid task) seq)
                      (g1\<lparr>gw_turns := (gw_turns g1)(t \<mapsto> task\<lparr>gt_frames := fs\<rparr>)\<rparr>))))"

text \<open>A task that sends a created session's title after its delay.\<close>

definition delayed_step :: "nat \<Rightarrow> gateway \<Rightarrow> gateway" where
  "delayed_step n g =
     (if n < length (gw_delayed g)
      then (case gw_delayed g ! n of
              (c, f) \<Rightarrow> gw_send c f (g\<lparr>gw_delayed := take n (gw_delayed g) @ drop (Suc n) (gw_delayed g)\<rparr>))
      else g)"

section \<open>WebSocket connections\<close>

definition ready_frame :: "gateway \<Rightarrow> json" where
  "ready_frame g =
     JObj [(''jsonrpc'', JStr ''2.0''), (''method'', JStr ''event''),
           (''params'', JObj [(''type'', JStr ''gateway.ready''),
                              (''payload'', ready_payload (gw_fixtures g))])]"

definition drop_conn :: "nat \<Rightarrow> gateway \<Rightarrow> gateway" where
  "drop_conn c g = g\<lparr>gw_conns := (gw_conns g)(c := None)\<rparr>"

text \<open>One frame on the wire (the send may fail), and what \<open>serve_ws\<close> does after it.\<close>

definition sink_send :: "bool \<Rightarrow> nat \<Rightarrow> gw_conn \<Rightarrow> json \<Rightarrow> gateway \<Rightarrow> gateway" where
  "sink_send sent_ok c cn v g =
     (if \<not> sent_ok then drop_conn c g
      else
        (let cn' = cn\<lparr>gn_wire := gn_wire cn @ [v], gn_sent := gn_sent cn + 1\<rparr>;
             (dropped, g1) = should_drop (gn_sent cn + 1) (g\<lparr>gw_conns := (gw_conns g)(c \<mapsto> cn')\<rparr>)
         in if dropped then drop_conn c g1 else g1))"

definition ws_open :: "bool \<Rightarrow> gateway \<Rightarrow> gateway" where
  "ws_open sent_ok g =
     (let c = gw_next_conn g; cn = \<lparr>gn_queue = [], gn_sent = 0, gn_wire = []\<rparr>
      in sink_send sent_ok c cn (ready_frame g) (g\<lparr>gw_next_conn := c + 1\<rparr>))"

definition ws_pump :: "bool \<Rightarrow> nat \<Rightarrow> gateway \<Rightarrow> gateway" where
  "ws_pump sent_ok c g =
     (case gw_conns g c of
        None \<Rightarrow> g
      | Some cn \<Rightarrow>
          (case gn_queue cn of
             [] \<Rightarrow> g
           | v # vs \<Rightarrow> sink_send sent_ok c (cn\<lparr>gn_queue := vs\<rparr>) v g))"

text \<open>An incoming text message: every non-blank line is one request.\<close>

definition ws_text :: "serde \<Rightarrow> string \<Rightarrow> nat \<Rightarrow> string \<Rightarrow> gateway \<Rightarrow> gateway" where
  "ws_text sj now c msg g =
     (if gw_conns g c = None then g
      else fold (\<lambda>line. handle_rpc_line sj now line c)
             (filter (\<lambda>l. l \<noteq> '''') (map trim (split_on nl msg))) g)"

text \<open>The handshake: the query must carry an unspent ticket, which is spent by it.\<close>

definition ticket_from_query :: "(string \<Rightarrow> string) \<Rightarrow> string \<Rightarrow> string option" where
  "ticket_from_query dec query =
     find_map (\<lambda>pair. (case split_once CHR ''='' pair of
                           Some (k, v) \<Rightarrow> (if k = ''ticket'' then Some (dec v) else None)
                         | None \<Rightarrow> None))
       (split_on CHR ''&'' query)"

definition accept_ws ::
  "(string \<Rightarrow> string) \<Rightarrow> bool \<Rightarrow> string option \<Rightarrow> gateway \<Rightarrow> (nat \<times> json) option \<times> gateway" where
  "accept_ws dec sent_ok query g =
     (case Option.bind query (ticket_from_query dec) of
        None \<Rightarrow> (Some (401, JObj [(''detail'', JStr ''unknown or spent ticket'')]), g)
      | Some t \<Rightarrow>
          (case take_ticket t g of
             (True, g1) \<Rightarrow> (None, ws_open sent_ok g1)
           | (False, g1) \<Rightarrow> (Some (401, JObj [(''detail'', JStr ''unknown or spent ticket'')]), g1)))"

end
