(* ===== verification/Gateway_Facts.thy ===== *)
theory Gateway_Facts
  imports Fake_Gateway
begin

text \<open>
  The atomic sections of the stand-in gateway (one lock, one atomic counter, one channel
  send or one task step each), the invariant every section keeps, and the handlers as runs
  of sections: what holds of every run of sections holds however the handlers of several
  connections and the turns interleave. A turn's recording and sending of a frame is one
  section.
\<close>

section \<open>Sections\<close>

datatype gw_section =
    Sec_Entry string string
  | Sec_Title string string
  | Sec_Create string string
  | Sec_Record string string json
  | Sec_Send nat json
  | Sec_Delay nat json
  | Sec_Delayed nat
  | Sec_Interrupt string
  | Sec_Close string
  | Sec_Claim string string
  | Sec_Spawn string "json list" nat
  | Sec_Register string nat
  | Sec_Turn nat
  | Sec_Mint
  | Sec_Take string
  | Sec_Failure
  | Sec_Open bool
  | Sec_Pump bool nat
  | Sec_Gone nat

fun gw_sec :: "gw_section \<Rightarrow> gateway \<Rightarrow> gateway" where
  "gw_sec (Sec_Entry now sid) g = entry_session now sid g"
| "gw_sec (Sec_Title sid title) g = modify_session sid (set_title title) g"
| "gw_sec (Sec_Create now title) g = snd (create_record now title g)"
| "gw_sec (Sec_Record sid ty p) g = snd (next_seq_and_record sid ty p g)"
| "gw_sec (Sec_Send c v) g = gw_send c v g"
| "gw_sec (Sec_Delay c v) g = delay_frame c v g"
| "gw_sec (Sec_Delayed n) g = delayed_step n g"
| "gw_sec (Sec_Interrupt sid) g = snd (interrupt_section sid g)"
| "gw_sec (Sec_Close sid) g = gw_close_session sid g"
| "gw_sec (Sec_Claim now sid) g = snd (claim_session now sid g)"
| "gw_sec (Sec_Spawn sid fs c) g = snd (spawn_turn sid fs c g)"
| "gw_sec (Sec_Register sid t) g = register_turn sid t g"
| "gw_sec (Sec_Turn t) g = turn_step t g"
| "gw_sec Sec_Mint g = snd (gw_mint_ticket g)"
| "gw_sec (Sec_Take t) g = snd (take_ticket t g)"
| "gw_sec Sec_Failure g = snd (take_profile_failure g)"
| "gw_sec (Sec_Open ok) g = ws_open ok g"
| "gw_sec (Sec_Pump ok c) g = ws_pump ok c g"
| "gw_sec (Sec_Gone c) g = drop_conn c g"

definition gw_run :: "gw_section list \<Rightarrow> gateway \<Rightarrow> gateway" where
  "gw_run secs g = fold gw_sec secs g"

lemma gw_run_simps [simp]:
  "gw_run [] g = g" "gw_run (s # ss) g = gw_run ss (gw_sec s g)"
  "gw_run (ss @ ts) g = gw_run ts (gw_run ss g)"
  by (simp_all add: gw_run_def)

section \<open>The sessions after each operation\<close>

text \<open>The part of the state that holds the logs.\<close>

lemma map_of_update [simp]: "map_of (AList.update k v al) = (map_of al)(k \<mapsto> v)"
  by (simp add: update_conv')

lemma map_of_delete [simp]: "map_of (AList.delete k al) = (map_of al)(k := None)"
  by (simp add: delete_conv')

lemma lookup_modify_session:
  "gw_lookup (modify_session sid f g) =
     (case gw_lookup g sid of None \<Rightarrow> gw_lookup g | Some r \<Rightarrow> (gw_lookup g)(sid \<mapsto> f r))"
  by (simp add: modify_session_def split: option.split)

lemma modify_session_keeps [frame_simps]:
  "gw_tickets (modify_session sid f g) = gw_tickets g"
  "gw_next_ticket (modify_session sid f g) = gw_next_ticket g"
  "gw_turns (modify_session sid f g) = gw_turns g"
  "gw_next_turn (modify_session sid f g) = gw_next_turn g"
  "gw_next_order (modify_session sid f g) = gw_next_order g"
  "gw_drop_armed (modify_session sid f g) = gw_drop_armed g"
  "gw_conf (modify_session sid f g) = gw_conf g"
  "gw_conns (modify_session sid f g) = gw_conns g"
  "gw_fixtures (modify_session sid f g) = gw_fixtures g"
  "gw_failures_left (modify_session sid f g) = gw_failures_left g"
  by (simp_all add: modify_session_def split: option.split)

lemma entry_session_keeps [frame_simps]:
  "gw_tickets (entry_session now sid g) = gw_tickets g"
  "gw_next_ticket (entry_session now sid g) = gw_next_ticket g"
  "gw_turns (entry_session now sid g) = gw_turns g"
  "gw_next_turn (entry_session now sid g) = gw_next_turn g"
  "gw_drop_armed (entry_session now sid g) = gw_drop_armed g"
  "gw_conf (entry_session now sid g) = gw_conf g"
  "gw_conns (entry_session now sid g) = gw_conns g"
  "gw_fixtures (entry_session now sid g) = gw_fixtures g"
  "gw_failures_left (entry_session now sid g) = gw_failures_left g"
  by (simp_all add: entry_session_def split: option.split)

lemma gw_send_keeps [frame_simps]:
  "gw_sessions (gw_send c v g) = gw_sessions g"
  "gw_tickets (gw_send c v g) = gw_tickets g"
  "gw_next_ticket (gw_send c v g) = gw_next_ticket g"
  "gw_turns (gw_send c v g) = gw_turns g"
  "gw_next_turn (gw_send c v g) = gw_next_turn g"
  "gw_next_order (gw_send c v g) = gw_next_order g"
  "gw_drop_armed (gw_send c v g) = gw_drop_armed g"
  "gw_conf (gw_send c v g) = gw_conf g"
  "gw_fixtures (gw_send c v g) = gw_fixtures g"
  "gw_failures_left (gw_send c v g) = gw_failures_left g"
  by (simp_all add: gw_send_def split: option.split)

lemma reply_keeps [frame_simps]:
  "gw_sessions (reply_ok c i v g) = gw_sessions g"
  "gw_turns (reply_ok c i v g) = gw_turns g"
  "gw_next_turn (reply_ok c i v g) = gw_next_turn g"
  "gw_fixtures (reply_ok c i v g) = gw_fixtures g"
  "gw_tickets (reply_ok c i v g) = gw_tickets g"
  by (simp_all add: reply_ok_def frame_simps)

lemma abort_turn_keeps [frame_simps]:
  "gw_sessions (abort_turn t g) = gw_sessions g"
  "gw_tickets (abort_turn t g) = gw_tickets g"
  "gw_next_ticket (abort_turn t g) = gw_next_ticket g"
  "gw_next_turn (abort_turn t g) = gw_next_turn g"
  "gw_next_order (abort_turn t g) = gw_next_order g"
  "gw_drop_armed (abort_turn t g) = gw_drop_armed g"
  "gw_conf (abort_turn t g) = gw_conf g"
  "gw_conns (abort_turn t g) = gw_conns g"
  "gw_fixtures (abort_turn t g) = gw_fixtures g"
  "gw_failures_left (abort_turn t g) = gw_failures_left g"
  by (simp_all add: abort_turn_def split: option.split)

lemma drop_conn_keeps [frame_simps]:
  "gw_sessions (drop_conn c g) = gw_sessions g"
  "gw_tickets (drop_conn c g) = gw_tickets g"
  "gw_next_ticket (drop_conn c g) = gw_next_ticket g"
  "gw_turns (drop_conn c g) = gw_turns g"
  "gw_next_turn (drop_conn c g) = gw_next_turn g"
  "gw_next_order (drop_conn c g) = gw_next_order g"
  "gw_drop_armed (drop_conn c g) = gw_drop_armed g"
  "gw_conf (drop_conn c g) = gw_conf g"
  by (simp_all add: drop_conn_def)

lemma should_drop_keeps [frame_simps]:
  "gw_sessions (snd (should_drop n g)) = gw_sessions g"
  "gw_tickets (snd (should_drop n g)) = gw_tickets g"
  "gw_next_ticket (snd (should_drop n g)) = gw_next_ticket g"
  "gw_turns (snd (should_drop n g)) = gw_turns g"
  "gw_next_turn (snd (should_drop n g)) = gw_next_turn g"
  "gw_next_order (snd (should_drop n g)) = gw_next_order g"
  "gw_conf (snd (should_drop n g)) = gw_conf g"
  by (simp_all add: should_drop_def split: option.split)

lemma sink_send_keeps [frame_simps]:
  "gw_sessions (sink_send ok c cn v g) = gw_sessions g"
  "gw_tickets (sink_send ok c cn v g) = gw_tickets g"
  "gw_next_ticket (sink_send ok c cn v g) = gw_next_ticket g"
  "gw_turns (sink_send ok c cn v g) = gw_turns g"
  "gw_next_turn (sink_send ok c cn v g) = gw_next_turn g"
  "gw_next_order (sink_send ok c cn v g) = gw_next_order g"
  "gw_conf (sink_send ok c cn v g) = gw_conf g"
  by (simp_all add: sink_send_def Let_def case_prod_unfold frame_simps)

section \<open>The invariant\<close>

text \<open>
  A session is stored under its id; its log holds the events numbered from 1 without a
  gap and \<open>seq\<close> is the last number; creation orders are distinct and below the counter;
  task ids are below theirs.
\<close>

definition session_wf :: "string \<Rightarrow> gw_session \<Rightarrow> bool" where
  "session_wf sid r \<longleftrightarrow>
     gs_id r = sid \<and> gs_seq r = int (length (gs_events r)) \<and>
     map er_seq (gs_events r) = [1..gs_seq r]"

definition gw_wf :: "gateway \<Rightarrow> bool" where
  "gw_wf g \<longleftrightarrow>
     distinct (map fst (gw_sessions g)) \<and>
     (\<forall>sid r. gw_lookup g sid = Some r \<longrightarrow> session_wf sid r \<and> gs_order r < gw_next_order g) \<and>
     (\<forall>s1 s2 r1 r2. gw_lookup g s1 = Some r1 \<longrightarrow> gw_lookup g s2 = Some r2 \<longrightarrow>
        gs_order r1 = gs_order r2 \<longrightarrow> s1 = s2) \<and>
     (\<forall>t. gw_turns g t \<noteq> None \<longrightarrow> t < gw_next_turn g)"

lemma gw_wf_session: "gw_wf g \<Longrightarrow> gw_lookup g sid = Some r \<Longrightarrow> session_wf sid r"
  by (simp add: gw_wf_def)

lemma gw_wf_same:
  assumes "gw_wf g" and "gw_sessions g' = gw_sessions g" and "gw_next_order g' = gw_next_order g"
    and "gw_next_turn g' = gw_next_turn g" and "\<And>t. gw_turns g' t \<noteq> None \<Longrightarrow> gw_turns g t \<noteq> None"
  shows "gw_wf g'"
  using assms unfolding gw_wf_def by metis

lemma session_wf_new: "session_wf sid (session_new sid title now order)"
  by (simp add: session_wf_def session_new_def)

lemma session_wf_push: "session_wf sid r \<Longrightarrow> session_wf sid (push_event ty p r)"
  by (auto simp: session_wf_def push_event_def upto_rec2)

lemma session_wf_cong:
  "session_wf sid r \<Longrightarrow> gs_id r' = gs_id r \<Longrightarrow> gs_seq r' = gs_seq r \<Longrightarrow> gs_events r' = gs_events r \<Longrightarrow>
   session_wf sid r'"
  by (simp add: session_wf_def)

lemma session_wf_fields [simp]:
  "session_wf sid (r\<lparr>gs_running := b\<rparr>) = session_wf sid r"
  "session_wf sid (r\<lparr>gs_turn := t\<rparr>) = session_wf sid r"
  "session_wf sid (r\<lparr>gs_title := title\<rparr>) = session_wf sid r"
  by (simp_all add: session_wf_def)

lemma gw_wfI:
  assumes "distinct (map fst (gw_sessions g))"
    and "\<And>sid r. gw_lookup g sid = Some r \<Longrightarrow> session_wf sid r"
    and "\<And>sid r. gw_lookup g sid = Some r \<Longrightarrow> gs_order r < gw_next_order g"
    and "\<And>s1 s2 r1 r2. gw_lookup g s1 = Some r1 \<Longrightarrow> gw_lookup g s2 = Some r2 \<Longrightarrow>
           gs_order r1 = gs_order r2 \<Longrightarrow> s1 = s2"
    and "\<And>t. gw_turns g t \<noteq> None \<Longrightarrow> t < gw_next_turn g"
  shows "gw_wf g"
  using assms unfolding gw_wf_def by blast

lemma gw_wfD:
  assumes "gw_wf g"
  shows "distinct (map fst (gw_sessions g))"
    and "gw_lookup g sid = Some r \<Longrightarrow> gs_order r < gw_next_order g"
    and "gw_lookup g s1 = Some r1 \<Longrightarrow> gw_lookup g s2 = Some r2 \<Longrightarrow> gs_order r1 = gs_order r2 \<Longrightarrow> s1 = s2"
    and "gw_turns g t \<noteq> None \<Longrightarrow> t < gw_next_turn g"
  using assms unfolding gw_wf_def by blast+

lemma gw_wf_new: "gw_wf (gateway_new conf fx)"
  by (simp add: gw_wf_def gateway_new_def)

lemma modify_session_wf:
  assumes "gw_wf g" and "\<And>r. session_wf sid r \<Longrightarrow> session_wf sid (f r)"
    and "\<And>r. gs_order (f r) = gs_order r"
  shows "gw_wf (modify_session sid f g)"
proof (cases "gw_lookup g sid")
  case None
  with assms(1) show ?thesis by (simp add: modify_session_def)
next
  case (Some r)
  have d: "distinct (map fst (gw_sessions (modify_session sid f g)))"
    using assms(1) by (simp add: gw_wf_def modify_session_def distinct_update split: option.split)
  have l: "gw_lookup (modify_session sid f g) s = Some q \<Longrightarrow>
      session_wf s q \<and> (\<exists>q0. gw_lookup g s = Some q0 \<and> gs_order q = gs_order q0)" for s q
    using assms gw_wf_session [OF assms(1)] Some by (auto simp: lookup_modify_session split: if_splits)
  show ?thesis
  proof (rule gw_wfI, unfold frame_simps)
    show "distinct (map fst (gw_sessions (modify_session sid f g)))" by (rule d)
  next
    fix s1 s2 r1 r2
    assume "gw_lookup (modify_session sid f g) s1 = Some r1"
      "gw_lookup (modify_session sid f g) s2 = Some r2" "gs_order r1 = gs_order r2"
    with l gw_wfD(3) [OF assms(1)] show "s1 = s2" by metis
  next
    fix t assume "gw_turns g t \<noteq> None"
    with gw_wfD(4) [OF assms(1)] show "t < gw_next_turn g" .
  qed (use l gw_wfD(2) [OF assms(1)] in metis)+
qed

lemma insert_session_wf:
  assumes "gw_wf g" and "session_wf sid r" and "gs_order r = gw_next_order g"
    and "gw_sessions g' = AList.update sid r (gw_sessions g)" and "gw_next_order g' = gw_next_order g + 1"
    and "gw_turns g' = gw_turns g" and "gw_next_turn g' = gw_next_turn g"
  shows "gw_wf g'"
proof -
  have d: "distinct (map fst (gw_sessions g'))"
    using assms(1,4) by (simp add: gw_wf_def distinct_update)
  have l: "gw_lookup g' s = Some q \<Longrightarrow> s = sid \<and> q = r \<or> gw_lookup g s = Some q" for s q
    by (simp add: assms(4) split: if_splits)
  show ?thesis
  proof (rule gw_wfI)
    fix s q assume "gw_lookup g' s = Some q"
    then show "gs_order q < gw_next_order g'"
      using l [of s q] gw_wfD(2) [OF assms(1), of s q] assms(3,5) by auto
  next
    fix s1 s2 r1 r2
    assume "gw_lookup g' s1 = Some r1" "gw_lookup g' s2 = Some r2" and eq: "gs_order r1 = gs_order r2"
    then have "s1 = sid \<and> r1 = r \<or> gw_lookup g s1 = Some r1"
      "s2 = sid \<and> r2 = r \<or> gw_lookup g s2 = Some r2" using l by blast+
    with eq assms(3) gw_wfD(2) [OF assms(1)] gw_wfD(3) [OF assms(1)] show "s1 = s2"
      by (metis less_irrefl)
  qed (use d l gw_wf_session [OF assms(1)] gw_wfD(4) [OF assms(1)] assms(2,6,7) in auto)
qed

lemma entry_session_wf [wf_intros]:
  assumes "gw_wf g"
  shows "gw_wf (entry_session now sid g)"
proof (cases "gw_lookup g sid")
  case None
  define r where "r = session_new sid '''' now (gw_next_order g)"
  have "session_wf sid r" "gs_order r = gw_next_order g"
    by (simp_all add: r_def session_wf_new) (simp add: session_new_def)
  from insert_session_wf [OF assms this, of "entry_session now sid g"] None show ?thesis
    by (simp add: entry_session_def r_def)
qed (simp add: entry_session_def assms)

lemma create_record_wf:
  assumes "gw_wf g"
  shows "gw_wf (snd (create_record now title g))"
proof -
  define sid where "sid = session_name (gw_next_session_id g)"
  define r where "r = session_new sid title now (gw_next_order g)"
  have "session_wf sid r" "gs_order r = gw_next_order g"
    by (simp_all add: r_def session_wf_new) (simp add: session_new_def)
  from insert_session_wf [OF assms this, of "snd (create_record now title g)"] show ?thesis
    by (simp add: create_record_def insert_session_def Let_def r_def sid_def)
qed

lemma next_seq_and_record_snd:
  "snd (next_seq_and_record sid ty p g) = modify_session sid (push_event ty p) g"
  by (simp add: next_seq_and_record_def modify_session_def split: option.split)

lemma push_event_order [simp]: "gs_order (push_event ty p r) = gs_order r"
  by (simp add: push_event_def)

lemma record_wf: "gw_wf g \<Longrightarrow> gw_wf (modify_session sid (push_event ty p) g)"
  by (rule modify_session_wf) (simp_all add: session_wf_push)

lemma gw_close_session_wf: "gw_wf g \<Longrightarrow> gw_wf (gw_close_session sid g)"
proof (cases "gw_lookup g sid")
  case (Some r)
  assume wf: "gw_wf g"
  have k: "gw_sessions (gw_close_session sid g) = AList.delete sid (gw_sessions g)"
    "gw_next_order (gw_close_session sid g) = gw_next_order g"
    "gw_next_turn (gw_close_session sid g) = gw_next_turn g"
    by (simp_all add: gw_close_session_def Some frame_simps)
  have t: "gw_turns (gw_close_session sid g) t \<noteq> None \<Longrightarrow> gw_turns g t \<noteq> None" for t
    by (auto simp: gw_close_session_def Some abort_turn_def split: option.splits if_splits)
  have d: "distinct (map fst (gw_sessions (gw_close_session sid g)))"
    using wf by (simp add: k gw_wf_def distinct_delete)
  have l: "gw_lookup (gw_close_session sid g) s = Some q \<Longrightarrow> gw_lookup g s = Some q" for s q
    by (simp add: k split: if_splits)
  show ?thesis
    using wf d l t k(2,3) unfolding gw_wf_def by metis
qed (simp add: gw_close_session_def)

lemma abort_turn_wf: "gw_wf g \<Longrightarrow> gw_wf (abort_turn t g)"
  by (erule gw_wf_same) (auto simp: abort_turn_def split: option.splits if_splits)

lemma interrupt_section_wf: "gw_wf g \<Longrightarrow> gw_wf (snd (interrupt_section sid g))"
  by (auto simp: interrupt_section_def intro!: modify_session_wf abort_turn_wf session_wf_push
      split: option.split)

lemma claim_session_wf: "gw_wf g \<Longrightarrow> gw_wf (snd (claim_session now sid g))"
  by (auto simp: claim_session_def Let_def intro!: modify_session_wf entry_session_wf split: option.split)

lemma turn_step_wf: "gw_wf g \<Longrightarrow> gw_wf (turn_step t g)"
proof (cases "gw_turns g t")
  case (Some task)
  assume wf: "gw_wf g"
  then have t: "t < gw_next_turn g" using Some by (simp add: gw_wf_def)
  show ?thesis
  proof (cases "gt_frames task")
    case Nil
    with Some wf show ?thesis
      by (auto simp: turn_step_def intro!: modify_session_wf intro: gw_wf_same [OF wf] session_wf_cong
          split: if_splits)
  next
    case (Cons f fs)
    define g1 where "g1 = modify_session (gt_sid task) (push_event (unwrap_or '''' (frame_type f)) (frame_payload f)) g"
    have wf1: "gw_wf g1" using record_wf [OF wf] by (simp add: g1_def)
    obtain s where "next_seq_and_record (gt_sid task) (unwrap_or '''' (frame_type f)) (frame_payload f) g = (s, g1)"
      using next_seq_and_record_snd by (metis g1_def prod.collapse)
    moreover have "gw_wf (g1\<lparr>gw_turns := (gw_turns g1)(t := None)\<rparr>)"
      by (rule gw_wf_same [OF wf1]) (auto split: if_splits)
    moreover have "gw_wf (gw_send c v (g1\<lparr>gw_turns := (gw_turns g1)(t \<mapsto> k)\<rparr>))" for c v k
      using wf1 t by (auto simp: gw_wf_def frame_simps g1_def)
    ultimately show ?thesis using Some Cons by (simp add: turn_step_def split: option.split)
  qed
qed (simp add: turn_step_def)

lemma gw_sec_wf: "gw_wf g \<Longrightarrow> gw_wf (gw_sec s g)"
proof (cases s)
  case (Sec_Spawn sid fs c)
  assume "gw_wf g"
  then show ?thesis by (auto simp: Sec_Spawn spawn_turn_def Let_def gw_wf_def less_Suc_eq split: if_splits)
next
  case (Sec_Title sid title)
  then show "gw_wf g \<Longrightarrow> ?thesis"
    by (auto intro!: modify_session_wf intro: session_wf_cong simp: set_title_def)
next
  case (Sec_Register sid t)
  then show "gw_wf g \<Longrightarrow> ?thesis"
    by (auto intro!: modify_session_wf intro: session_wf_cong simp: register_turn_def)
qed (auto intro: entry_session_wf create_record_wf gw_close_session_wf interrupt_section_wf claim_session_wf
       turn_step_wf record_wf elim: gw_wf_same
       simp: next_seq_and_record_snd frame_simps delay_frame_def delayed_step_def gw_mint_ticket_def
         take_ticket_def take_profile_failure_def ws_open_def ws_pump_def Let_def
       split: option.splits list.splits prod.splits)

lemma gw_run_wf: "gw_wf g \<Longrightarrow> gw_wf (gw_run secs g)"
  by (induction secs arbitrary: g) (simp_all add: gw_sec_wf)


section \<open>Handlers are runs of sections\<close>

definition gw_reaches :: "gateway \<Rightarrow> gateway \<Rightarrow> bool" where
  "gw_reaches g g' \<longleftrightarrow> (\<exists>secs. g' = gw_run secs g)"

named_theorems reach_intros "an operation of the gateway is a run of sections"

lemma gw_reaches_refl: "gw_reaches g g"
  unfolding gw_reaches_def by (rule exI [of _ "[]"]) simp

lemma gw_reaches_trans: "gw_reaches g g' \<Longrightarrow> gw_reaches g' g'' \<Longrightarrow> gw_reaches g g''"
  unfolding gw_reaches_def by (metis gw_run_simps(3))

lemma gw_reaches_sec: "gw_reaches g g' \<Longrightarrow> gw_reaches g (gw_sec s g')"
  unfolding gw_reaches_def by (metis gw_run_simps)

lemma gw_reaches_wf: "gw_reaches g g' \<Longrightarrow> gw_wf g \<Longrightarrow> gw_wf g'"
  by (auto simp: gw_reaches_def gw_run_wf)

lemma reaches_ops [reach_intros]:
  assumes "gw_reaches g0 g"
  shows "gw_reaches g0 (entry_session now sid g)"
    "gw_reaches g0 (modify_session sid (set_title title) g)"
    "gw_reaches g0 (snd (create_record now title g))"
    "gw_reaches g0 (snd (next_seq_and_record sid ty p g))"
    "gw_reaches g0 (gw_send c v g)"
    "gw_reaches g0 (delay_frame c v g)"
    "gw_reaches g0 (snd (interrupt_section sid g))"
    "gw_reaches g0 (gw_close_session sid g)"
    "gw_reaches g0 (snd (claim_session now sid g))"
    "gw_reaches g0 (snd (spawn_turn sid fs c g))"
    "gw_reaches g0 (register_turn sid t g)"
    "gw_reaches g0 (snd (gw_mint_ticket g))"
    "gw_reaches g0 (snd (take_ticket ticket g))"
    "gw_reaches g0 (snd (take_profile_failure g))"
    "gw_reaches g0 (ws_open ok g)"
  using gw_reaches_sec [OF assms] by (metis gw_sec.simps)+

lemma reaches_reply [reach_intros]:
  "gw_reaches g0 g \<Longrightarrow> gw_reaches g0 (reply_ok c i v g)"
  "gw_reaches g0 g \<Longrightarrow> gw_reaches g0 (reply_err c i n m g)"
  by (simp_all add: reply_ok_def reply_err_def reaches_ops)

lemma reaches_snd: "gw_reaches g0 (snd p) \<Longrightarrow> p = (x, g) \<Longrightarrow> gw_reaches g0 g"
  by simp

lemma dispatch_reaches: "gw_reaches g (dispatch_method now meth c i params g)"
proof -
  have create: "gw_reaches g (handle_session_create now c i params g)"
    by (auto simp: handle_session_create_def Let_def split: prod.split option.split
        intro!: reach_intros gw_reaches_refl elim!: reaches_snd [rotated])
  have interrupt: "gw_reaches g (handle_session_interrupt c i params g)"
    by (auto simp: handle_session_interrupt_def split: prod.split option.split
        intro!: reach_intros gw_reaches_refl elim!: reaches_snd [rotated])
  have submit: "gw_reaches g (handle_prompt_submit now c i params g)"
    by (auto simp: handle_prompt_submit_def Let_def split: prod.split
        intro!: reach_intros gw_reaches_refl elim!: reaches_snd [rotated])
  have title: "gw_reaches g (handle_session_title now c i params g)"
    by (auto simp: handle_session_title_def Let_def split: option.split
        intro!: reach_intros gw_reaches_refl)
  note rest = handle_session_list_def handle_session_most_recent_def handle_session_resume_def
    handle_events_since_def handle_session_close_def handle_slash_exec_def handle_command_dispatch_def
  show ?thesis
    unfolding dispatch_method_def rest Let_def
    by (simp add: create interrupt submit title reach_intros gw_reaches_refl)
qed

lemma handle_rpc_line_reaches: "gw_reaches g (handle_rpc_line sj now line c g)"
  by (simp add: handle_rpc_line_def handle_rpc_value_def dispatch_reaches gw_reaches_refl split: option.split)

lemma ws_text_reaches: "gw_reaches g (ws_text sj now c msg g)"
proof -
  have "gw_reaches g (fold (\<lambda>line. handle_rpc_line sj now line c) ls g)" for ls
  proof (induction ls arbitrary: g)
    case (Cons l ls)
    from gw_reaches_trans [OF handle_rpc_line_reaches Cons] show ?case by simp
  qed (simp add: gw_reaches_refl)
  then show ?thesis by (simp add: ws_text_def gw_reaches_refl)
qed

lemma accept_ws_reaches: "gw_reaches g (snd (accept_ws dec ok query g))"
  by (auto simp: accept_ws_def split: option.split prod.split bool.split
      intro!: reach_intros gw_reaches_refl elim!: reaches_snd [rotated])

end
