(* ===== verification/Gateway_Http.thy ===== *)
theory Gateway_Http
  imports Gateway_Facts
begin

text \<open>
  The HTTP side of the stand-in gateway: reading a request head and a body from a socket,
  finding headers, routing, login, and the response text; and the pairing payload it prints
  (\<open>tools/fake_gateway/src/server.rs\<close>). A socket is the list of what its reads return:
  the bytes of a chunk (empty at the end) or an error.
\<close>

section \<open>Request heads\<close>

definition crlf :: string where
  "crlf = [cr, nl]"

definition header_end_mark :: string where
  "header_end_mark = [cr, nl, cr, nl]"

text \<open>\<open>windows(4).position(..)\<close>: where the first blank line starts.\<close>

fun find_sub :: "string \<Rightarrow> string \<Rightarrow> nat option" where
  "find_sub p [] = (if p = [] then Some 0 else None)"
| "find_sub p (x # xs) =
     (if prefix p (x # xs) then Some 0 else map_option Suc (find_sub p xs))"

definition find_header_end :: "string \<Rightarrow> nat option" where
  "find_header_end data = find_sub header_end_mark data"

text \<open>\<open>split("\r\n")\<close>.\<close>

fun split_crlf :: "string \<Rightarrow> string list" where
  "split_crlf [] = [[]]"
| "split_crlf [x] = [[x]]"
| "split_crlf (x # y # xs) =
     (if x = cr \<and> y = nl then [] # split_crlf xs
      else (case split_crlf (y # xs) of [] \<Rightarrow> [[x]] | w # ws \<Rightarrow> (x # w) # ws))"

definition find_header_value :: "string \<Rightarrow> string \<Rightarrow> string option" where
  "find_header_value head name =
     find_map (\<lambda>line. (case split_once CHR '':'' line of
                           None \<Rightarrow> None
                         | Some (k, v) \<Rightarrow>
                             if ascii_lower (trim k) = ascii_lower name then Some (trim v) else None))
       (split_crlf head)"

definition is_websocket_upgrade :: "string \<Rightarrow> bool" where
  "is_websocket_upgrade head =
     (case find_header_value head ''upgrade'' of
        Some v \<Rightarrow> ascii_lower v = ''websocket''
      | None \<Rightarrow> False)"

section \<open>Reading a request\<close>

type_synonym reads = "(string + string) list"

text \<open>
  The two read loops of \<open>serve_http\<close>. The first ends with the position of the blank line,
  the data so far and the rest of the reads, with \<open>None\<close> at the end of the stream; the
  second reads until the body is complete or the stream ends.
\<close>

fun read_head :: "string \<Rightarrow> reads \<Rightarrow> string + (nat \<times> string \<times> reads) option" where
  "read_head data [] = Inr None"
| "read_head data (Inl e # rs) = Inl e"
| "read_head data (Inr chunk # rs) =
     (if chunk = [] then Inr None
      else case find_header_end (data @ chunk) of
             Some pos \<Rightarrow> Inr (Some (pos, data @ chunk, rs))
           | None \<Rightarrow> read_head (data @ chunk) rs)"

fun read_body :: "nat \<Rightarrow> string \<Rightarrow> reads \<Rightarrow> string + string" where
  "read_body n data rs =
     (if n \<le> length data then Inr data
      else case rs of
             [] \<Rightarrow> Inr data
           | Inl e # _ \<Rightarrow> Inl e
           | Inr chunk # rs' \<Rightarrow> if chunk = [] then Inr data else read_body n (data @ chunk) rs')"

declare read_body.simps [simp del]

text \<open>
  \<open>peek_request_head\<close>: at most 100 looks at what has arrived (\<open>pk i\<close> at the i-th), in a
  buffer that doubles when it is full.
\<close>

fun peek_request_head ::
  "(string \<Rightarrow> string) \<Rightarrow> (nat \<Rightarrow> string + string) \<Rightarrow> nat \<Rightarrow> nat \<Rightarrow> nat \<Rightarrow> string + string" where
  "peek_request_head lossy pk 0 cap i = Inl ''no request head arrived''"
| "peek_request_head lossy pk (Suc k) cap i =
     (case pk i of
        Inl e \<Rightarrow> Inl e
      | Inr arrived \<Rightarrow>
          (let seen = take cap arrived
           in case find_header_end seen of
                Some pos \<Rightarrow> Inr (lossy (take pos seen))
              | None \<Rightarrow>
                  if seen = [] then Inl ''connection closed before a request head''
                  else if length seen = cap then peek_request_head lossy pk k (cap * 2) (i + 1)
                  else peek_request_head lossy pk k cap (i + 1)))"

definition peek_head :: "(string \<Rightarrow> string) \<Rightarrow> (nat \<Rightarrow> string + string) \<Rightarrow> string + string" where
  "peek_head lossy pk = peek_request_head lossy pk 100 4096 0"

text \<open>\<open>str::parse::<usize>\<close>: an optional sign, then digits, within 64 bits.\<close>

definition digit_value :: "char \<Rightarrow> nat option" where
  "digit_value c = (let n = of_char c in if 48 \<le> n \<and> n \<le> 57 then Some (n - 48) else None)"

fun digits_value :: "nat \<Rightarrow> string \<Rightarrow> nat option" where
  "digits_value acc [] = Some acc"
| "digits_value acc (c # cs) =
     (case digit_value c of None \<Rightarrow> None | Some d \<Rightarrow> digits_value (acc * 10 + d) cs)"

definition parse_bounded :: "nat \<Rightarrow> string \<Rightarrow> nat option" where
  "parse_bounded bound s =
     (let ds = (case s of c # cs \<Rightarrow> (if c = CHR ''+'' then cs else s) | [] \<Rightarrow> s)
      in if ds = [] then None
         else case digits_value 0 ds of
                Some n \<Rightarrow> (if n < bound then Some n else None)
              | None \<Rightarrow> None)"

definition parse_usize :: "string \<Rightarrow> nat option" where
  "parse_usize s = parse_bounded (2 ^ 64) s"

text \<open>\<open>split_whitespace()\<close>: the maximal pieces without white space.\<close>

fun white_prefix :: "string list \<Rightarrow> string \<Rightarrow> nat" where
  "white_prefix ws s = (case find (\<lambda>w. prefix w s) ws of Some w \<Rightarrow> length w | None \<Rightarrow> 0)"

function words_from :: "string \<Rightarrow> string \<Rightarrow> string list" where
  "words_from acc s =
     (if s = [] then (if acc = [] then [] else [acc])
      else if 0 < white_prefix ws_seqs s
      then (if acc = [] then [] else [acc]) @ words_from [] (drop (white_prefix ws_seqs s) s)
      else words_from (acc @ [hd s]) (tl s))"
  by pat_completeness auto
termination
  by (relation "measure (\<lambda>(acc, s). length s)") auto

declare words_from.simps [simp del]

definition split_whitespace :: "string \<Rightarrow> string list" where
  "split_whitespace s = words_from [] s"

record request_head =
  hr_method :: string
  hr_path :: string
  hr_cookie :: string
  hr_length :: nat

definition word_at :: "nat \<Rightarrow> string list \<Rightarrow> string" where
  "word_at n ws = (if n < length ws then ws ! n else '''')"

definition parse_head :: "string \<Rightarrow> request_head" where
  "parse_head head =
     (let parts = split_whitespace (hd (split_crlf head));
          raw_path = word_at 1 parts
      in \<lparr>hr_method = word_at 0 parts, hr_path = hd (split_on CHR ''?'' raw_path),
          hr_cookie = unwrap_or '''' (find_header_value head ''cookie''),
          hr_length = unwrap_or 0 (Option.bind (find_header_value head ''content-length'') parse_usize)\<rparr>)"

text \<open>
  The request of a stream: its head and its body, both made valid UTF-8 by
  \<open>from_utf8_lossy\<close> (the argument \<open>lossy\<close>). A stream that ends inside the head is no
  request. A declared length that does not fit beside the head into 64 bits is a panic (the
  sum overflows; where it wraps, the range of the body is reversed).
\<close>

definition usize_bound :: nat where
  "usize_bound = 2 ^ 64"

definition read_request ::
  "(string \<Rightarrow> string) \<Rightarrow> reads \<Rightarrow> (string + (request_head \<times> string) option) panics" where
  "read_request lossy rs =
     (case read_head [] rs of
        Inl e \<Rightarrow> Some (Inl e)
      | Inr None \<Rightarrow> Some (Inr None)
      | Inr (Some (pos, data, rs')) \<Rightarrow>
          (let req = parse_head (lossy (take pos data));
               body_start = pos + 4
           in if usize_bound \<le> body_start + hr_length req then panic
              else case read_body (body_start + hr_length req) data rs' of
                     Inl e \<Rightarrow> Some (Inl e)
                   | Inr data' \<Rightarrow>
                       (let body_end = min (length data') (body_start + hr_length req)
                        in Some (Inr (Some (req,
                             lossy (take (body_end - body_start) (drop body_start data'))))))))"

section \<open>Routing\<close>

type_synonym http_reply = "nat \<times> json \<times> string list"

definition detail :: "string \<Rightarrow> json" where
  "detail msg = JObj [(''detail'', JStr msg)]"

definition profiles_body :: json where
  "profiles_body =
     JObj [(''profiles'', JArr
        [JObj [(''name'', JStr ''default''), (''is_default'', JBool True), (''model'', JStr ''fake-model-a''),
               (''description'', JStr ''the default fake profile'')],
         JObj [(''name'', JStr ''second''), (''is_default'', JBool False), (''model'', JStr ''fake-model-b''),
               (''description'', JStr ''a second fake profile'')]])]"

definition gw_login :: "serde \<Rightarrow> string \<Rightarrow> gateway \<Rightarrow> http_reply" where
  "gw_login sj body g =
     (let parsed = unwrap_or JNull (from_str sj body)
      in if str_at parsed ''provider'' \<noteq> ''basic'' then (404, detail ''unknown provider'', [])
         else if str_at parsed ''username'' \<noteq> gc_user (gw_conf g) \<or>
                 str_at parsed ''password'' \<noteq> gc_password (gw_conf g)
         then (401, detail ''invalid credentials'', [])
         else (200, JObj [(''ok'', JBool True), (''next'', JStr '''')],
               [''hermes_session_at=fake-access-token; Path=/; HttpOnly'',
                ''hermes_session_rt=fake-refresh-token; Path=/; HttpOnly'']))"

definition route_http ::
  "serde \<Rightarrow> string \<Rightarrow> string \<Rightarrow> string \<Rightarrow> string \<Rightarrow> gateway \<Rightarrow> http_reply \<times> gateway" where
  "route_http sj meth path cookie_header body g =
     (let has_session_cookie =
            contains_str ''hermes_session_at'' cookie_header \<or>
            contains_str ''hermes_session_rt'' cookie_header;
          unauthorized = (401, detail ''unauthorized'', [])
      in if meth = ''GET'' \<and> path = ''/api/status''
         then ((200, JObj [(''ok'', JBool True), (''version'', JStr ''fake-0.1''),
                           (''auth_required'', JBool True),
                           (''auth_providers'', JArr [JStr ''basic''])], []), g)
         else if meth = ''POST'' \<and> path = ''/auth/password-login'' then (gw_login sj body g, g)
         else if meth = ''POST'' \<and> path = ''/api/auth/ws-ticket''
         then (if has_session_cookie
               then (let (ticket, g1) = gw_mint_ticket g
                     in ((200, JObj [(''ticket'', JStr ticket), (''ttl_seconds'', JNum (IntNum 30))], []), g1))
               else (unauthorized, g))
         else if meth = ''GET'' \<and> path = ''/api/auth/me''
         then (if has_session_cookie
               then ((200, JObj [(''username'', JStr (gc_user (gw_conf g))), (''provider'', JStr ''basic'')], []), g)
               else (unauthorized, g))
         else if meth = ''POST'' \<and> path = ''/auth/logout''
         then ((200, JObj [(''ok'', JBool True)],
                [''hermes_session_at=; Path=/; HttpOnly; Max-Age=0'',
                 ''hermes_session_rt=; Path=/; HttpOnly; Max-Age=0'']), g)
         else if meth = ''GET'' \<and> path = ''/api/profiles''
         then (let (failing, g1) = take_profile_failure g
               in if failing then ((500, detail ''profiles unavailable'', []), g1)
                  else if has_session_cookie then ((200, profiles_body, []), g1)
                  else (unauthorized, g1))
         else ((404, detail ''no such route'', []), g))"

section \<open>Responses\<close>

definition status_reason :: "nat \<Rightarrow> string" where
  "status_reason status =
     (if status = 200 then ''OK'' else if status = 401 then ''Unauthorized''
      else if status = 404 then ''Not Found'' else '''')"

definition http_response :: "serde \<Rightarrow> http_reply \<Rightarrow> string" where
  "http_response sj reply =
     (let (status, body, cookies) = reply;
          body_text = to_compact_string sj body
      in ''HTTP/1.1 '' @ show_nat status @ '' '' @ status_reason status @ crlf @
         ''Content-Type: application/json'' @ crlf @
         concat (map (\<lambda>ck. ''Set-Cookie: '' @ ck @ crlf) cookies) @
         ''Content-Length: '' @ show_nat (length body_text) @ crlf @
         ''Connection: close'' @ crlf @ crlf @ body_text)"

definition serve_http ::
  "serde \<Rightarrow> (string \<Rightarrow> string) \<Rightarrow> reads \<Rightarrow> gateway \<Rightarrow> (string + string) panics \<times> gateway" where
  "serve_http sj lossy rs g =
     (case read_request lossy rs of
        None \<Rightarrow> (panic, g)
      | Some (Inl e) \<Rightarrow> (Some (Inl e), g)
      | Some (Inr None) \<Rightarrow> (Some (Inr ''''), g)
      | Some (Inr (Some (req, body))) \<Rightarrow>
          (let (reply, g1) = route_http sj (hr_method req) (hr_path req) (hr_cookie req) body g
           in (Some (Inr (http_response sj reply)), g1)))"

text \<open>
  A connection is a WebSocket handshake or one HTTP request, by its head; the handshake
  itself is the crate's, and its callback sees the query of the request target.
\<close>

definition handle_connection ::
  "serde \<Rightarrow> (string \<Rightarrow> string) \<Rightarrow> (string \<Rightarrow> string) \<Rightarrow> (nat \<Rightarrow> string + string) \<Rightarrow> reads \<Rightarrow> bool \<Rightarrow>
     string option \<Rightarrow> gateway \<Rightarrow> gateway" where
  "handle_connection sj lossy dec pk rs sent_ok query g =
     (case peek_head lossy pk of
        Inl _ \<Rightarrow> g
      | Inr head \<Rightarrow>
          if is_websocket_upgrade head then snd (accept_ws dec sent_ok query g)
          else snd (serve_http sj lossy rs g))"

section \<open>Pairing\<close>

definition pairing_payload :: "(string \<Rightarrow> string) \<Rightarrow> string \<Rightarrow> string \<Rightarrow> string \<Rightarrow> string" where
  "pairing_payload enc base user name =
     ''hermes://connect?v=1&url='' @ enc base @ ''&user='' @ enc user @ ''&name='' @ enc name"

section \<open>Reading does not depend on how the bytes arrive\<close>

lemma find_sub_Some: "find_sub p d = Some i \<Longrightarrow> i + length p \<le> length d"
  by (induction d arbitrary: i) (auto split: if_splits dest: prefix_length_le)

lemma find_sub_append: "find_sub p d = Some i \<Longrightarrow> find_sub p (d @ e) = Some i"
proof (induction d arbitrary: i)
  case Nil
  then show ?case by (cases e) (auto split: if_splits)
next
  case (Cons x d)
  show ?case
  proof (cases "prefix p (x # d)")
    case True
    then have "prefix p (x # d @ e)" by (metis append_Cons prefix_prefix)
    with True Cons.prems show ?thesis by simp
  next
    case False
    with Cons.prems obtain k where k: "find_sub p d = Some k" "i = Suc k" by (auto split: if_splits)
    have "length p \<le> length (x # d)" using find_sub_Some [OF k(1)] by simp
    with False have "\<not> prefix p ((x # d) @ e)"
      using prefix_length_prefix [of p "(x # d) @ e" "x # d"] by auto
    with False k Cons.IH show ?thesis by simp
  qed
qed

lemma find_header_end_append:
  "find_header_end d = Some i \<Longrightarrow> find_header_end (d @ e) = Some i"
  by (simp add: find_header_end_def find_sub_append)

lemma find_header_end_bound: "find_header_end d = Some i \<Longrightarrow> i + 4 \<le> length d"
  using find_sub_Some [of header_end_mark d i] by (simp add: find_header_end_def header_end_mark_def)

lemma read_head_chunks:
  assumes "find_header_end d = None" and "[] \<notin> set cs"
  shows "(case find_header_end (d @ concat cs) of
            None \<Rightarrow> read_head d (map Inr cs) = Inr None
          | Some pos \<Rightarrow> \<exists>as bs. cs = as @ bs \<and>
              read_head d (map Inr cs) = Inr (Some (pos, d @ concat as, map Inr bs)) \<and>
              pos + 4 \<le> length (d @ concat as))"
  using assms
proof (induction cs arbitrary: d)
  case (Cons c cs)
  show ?case
  proof (cases "find_header_end (d @ c)")
    case None
    with Cons.IH [of "d @ c"] Cons.prems(2) have
      "(case find_header_end ((d @ c) @ concat cs) of
            None \<Rightarrow> read_head (d @ c) (map Inr cs) = Inr None
          | Some pos \<Rightarrow> \<exists>as bs. cs = as @ bs \<and>
              read_head (d @ c) (map Inr cs) = Inr (Some (pos, (d @ c) @ concat as, map Inr bs)) \<and>
              pos + 4 \<le> length ((d @ c) @ concat as))" by simp
    with None Cons.prems(2) show ?thesis
      by (auto split: option.splits intro: exI [of _ "c # as" for as])
  next
    case (Some pos)
    with Cons.prems(2) find_header_end_append [OF Some, of "concat cs"] find_header_end_bound [OF Some]
    show ?thesis by (auto intro!: exI [of _ "[c]"])
  qed
qed simp

lemma read_body_chunks:
  "[] \<notin> set cs \<Longrightarrow>
   \<exists>as bs. cs = as @ bs \<and> read_body n d (map Inr cs) = Inr (d @ concat as) \<and>
     (n \<le> length (d @ concat as) \<or> bs = [])"
proof (induction cs arbitrary: d)
  case (Cons c cs)
  show ?case
  proof (cases "n \<le> length d")
    case True
    then show ?thesis by (intro exI [of _ "[]"] exI [of _ "c # cs"]) (simp add: read_body.simps)
  next
    case False
    from Cons obtain as bs where "cs = as @ bs" "read_body n (d @ c) (map Inr cs) = Inr ((d @ c) @ concat as)"
      "n \<le> length ((d @ c) @ concat as) \<or> bs = []" by (metis list.set_intros(2))
    moreover have "c \<noteq> []" using Cons.prems by auto
    ultimately have "c # cs = (c # as) @ bs \<and>
        read_body n d (map Inr (c # cs)) = Inr (d @ concat (c # as)) \<and>
        (n \<le> length (d @ concat (c # as)) \<or> bs = [])" using False by (simp add: read_body.simps [of n d])
    then show ?thesis by blast
  qed
qed (simp add: read_body.simps)

text \<open>The request in the bytes of a whole stream.\<close>

definition request_of :: "(string \<Rightarrow> string) \<Rightarrow> string \<Rightarrow> (request_head \<times> string) option panics" where
  "request_of lossy data =
     (case find_header_end data of
        None \<Rightarrow> Some None
      | Some pos \<Rightarrow>
          (let req = parse_head (lossy (take pos data))
           in if usize_bound \<le> pos + 4 + hr_length req then panic
              else Some (Some (req, lossy (take (hr_length req) (drop (pos + 4) data))))))"

lemma read_request_chunks:
  assumes "[] \<notin> set cs"
  shows "read_request lossy (map Inr cs) = map_option Inr (request_of lossy (concat cs))"
proof -
  have e: "find_header_end [] = None" by (simp add: find_header_end_def header_end_mark_def)
  show ?thesis
  proof (cases "find_header_end (concat cs)")
    case None
    with read_head_chunks [OF e assms] show ?thesis by (simp add: read_request_def request_of_def)
  next
    case (Some pos)
    with read_head_chunks [OF e assms] obtain as bs
      where cs: "cs = as @ bs" and h: "read_head [] (map Inr cs) = Inr (Some (pos, concat as, map Inr bs))"
        and p: "pos + 4 \<le> length (concat as)" by auto
    define req where "req = parse_head (lossy (take pos (concat as)))"
    have "[] \<notin> set bs" using assms cs by simp
    from read_body_chunks [OF this, of "pos + 4 + hr_length req" "concat as"] obtain xs ys
      where bs: "bs = xs @ ys" and b: "read_body (pos + 4 + hr_length req) (concat as) (map Inr bs) =
          Inr (concat as @ concat xs)"
        and n: "pos + 4 + hr_length req \<le> length (concat as @ concat xs) \<or> ys = []" by blast
    have t: "take pos (concat cs) = take pos (concat as)" using p by (simp add: cs)
    have c: "concat cs = (concat as @ concat xs) @ concat ys" by (simp add: cs bs)
    define d where "d = concat as @ concat xs"
    have dp: "pos + 4 \<le> length d" using p by (simp add: d_def)
    define w where "w = concat cs"
    have w: "w = d @ concat ys" by (simp add: w_def c d_def)
    have body: "take (min (length d) (pos + 4 + hr_length req) - (pos + 4)) (drop (pos + 4) d) =
        take (hr_length req) (drop (pos + 4) w)"
      unfolding w using n dp by (cases "ys = []") (auto simp: d_def [symmetric] min_def)
    show ?thesis
    proof (cases "usize_bound \<le> pos + 4 + hr_length req")
      case True
      then have "request_of lossy w = panic"
        using Some t by (simp add: request_of_def w_def [symmetric] Let_def req_def)
      moreover have "read_request lossy (map Inr cs) = panic"
        using True by (simp add: read_request_def h Let_def req_def [symmetric])
      ultimately show ?thesis by (simp add: w_def)
    next
      case False
      then have "request_of lossy w = Some (Some (req, lossy (take (hr_length req) (drop (pos + 4) w))))"
        using Some t by (simp add: request_of_def w_def [symmetric] Let_def req_def)
      moreover have "read_request lossy (map Inr cs) =
          Some (Inr (Some (req, lossy (take (hr_length req) (drop (pos + 4) w)))))"
        using b False by (simp add: read_request_def h Let_def req_def [symmetric] d_def [symmetric] body)
      ultimately show ?thesis by (simp add: w_def)
    qed
  qed
qed

text \<open>
  A request may declare any length that parses: the largest one panics the connection's task.
\<close>

lemma huge_content_length_panics:
  assumes "find_header_end data = Some pos"
    and "find_header_value (take pos data) ''content-length'' = Some ''18446744073709551615''"
    and "data \<noteq> []"
  shows "serve_http sj id [Inr data] g = (panic, g)"
proof -
  have "digits_value 0 ''18446744073709551615'' = Some 18446744073709551615"
    by (simp add: digit_value_def)
  then have "parse_usize ''18446744073709551615'' = Some 18446744073709551615"
    by (simp add: parse_usize_def parse_bounded_def)
  then have "hr_length (parse_head (take pos data)) = 18446744073709551615"
    using assms(2) by (simp add: parse_head_def Let_def)
  moreover have "read_head [] [Inr data] = Inr (Some (pos, data, []))"
    using assms(1,3) by simp
  ultimately show ?thesis by (simp add: serve_http_def read_request_def Let_def usize_bound_def)
qed

text \<open>
  C30: what an HTTP request is answered, and what it does to the gateway, depends on the
  bytes of the stream only, not on how they are cut into reads: two cuttings of the same
  bytes give the same response and the same gateway.
\<close>

theorem chunking_does_not_matter:
  assumes "[] \<notin> set cs" and "[] \<notin> set ds" and "concat cs = concat ds"
  shows "serve_http sj lossy (map Inr cs) g = serve_http sj lossy (map Inr ds) g"
  by (simp add: serve_http_def read_request_chunks [OF assms(1)] read_request_chunks [OF assms(2)] assms(3))

end
