(* ===== verification/Gateway_Props.thy ===== *)
theory Gateway_Props
  imports Gateway_Http "HOL-Library.Multiset"
begin

text \<open>
  What the stand-in gateway promises, over every run of its atomic sections: tickets admit
  one connection each, session logs have no gap, a turn's task ends, a closed session stays
  closed, and the one-time drop.
\<close>

section \<open>Tickets\<close>

definition mints :: "gw_section list \<Rightarrow> nat" where
  "mints secs = length (filter (\<lambda>s. s = Sec_Mint) secs)"

lemma mints_simps [simp]:
  "mints [] = 0" "mints (s # ss) = (if s = Sec_Mint then Suc (mints ss) else mints ss)"
  "mints (ss @ ts) = mints ss + mints ts"
  by (simp_all add: mints_def)

lemma sec_tickets:
  assumes "s \<noteq> Sec_Mint" and "\<And>t. s \<noteq> Sec_Take t"
  shows "gw_tickets (gw_sec s g) = gw_tickets g" "gw_next_ticket (gw_sec s g) = gw_next_ticket g"
  using assms
  by (cases s; simp add: frame_simps create_record_def insert_session_def next_seq_and_record_snd
      delay_frame_def delayed_step_def interrupt_section_def gw_close_session_def claim_session_def
      spawn_turn_def register_turn_def turn_step_def take_profile_failure_def ws_open_def ws_pump_def
      next_seq_and_record_def Let_def split: option.split list.split prod.split)+

lemma take_tickets:
  "gw_next_ticket (gw_sec (Sec_Take t) g) = gw_next_ticket g"
  "gw_tickets (gw_sec (Sec_Take t) g) =
     (if gw_tickets g t = Some True then (gw_tickets g)(t \<mapsto> False) else gw_tickets g)"
  by (simp_all add: take_ticket_def)

lemma sec_tickets_dom:
  assumes "s \<noteq> Sec_Mint"
  shows "gw_tickets (gw_sec s g) t \<noteq> None \<longleftrightarrow> gw_tickets g t \<noteq> None"
    and "gw_next_ticket (gw_sec s g) = gw_next_ticket g"
proof -
  have "(gw_tickets (gw_sec s g) t \<noteq> None \<longleftrightarrow> gw_tickets g t \<noteq> None) \<and>
      gw_next_ticket (gw_sec s g) = gw_next_ticket g"
  proof (cases "\<exists>u. s = Sec_Take u")
    case True
    then obtain u where "s = Sec_Take u" by blast
    then show ?thesis by (simp add: take_ticket_def del: not_None_eq)
  next
    case False
    then show ?thesis using sec_tickets [OF assms, of g] by simp
  qed
  then show "gw_tickets (gw_sec s g) t \<noteq> None \<longleftrightarrow> gw_tickets g t \<noteq> None"
    "gw_next_ticket (gw_sec s g) = gw_next_ticket g" by blast+
qed

lemma mint_tickets:
  "gw_next_ticket (gw_sec Sec_Mint g) = gw_next_ticket g + 1"
  "gw_tickets (gw_sec Sec_Mint g) = (gw_tickets g)(ticket_name (gw_next_ticket g) \<mapsto> True)"
  by (simp_all add: gw_mint_ticket_def Let_def)

lemma ticket_name_inj: "ticket_name m = ticket_name n \<Longrightarrow> m = n"
  by (auto simp: ticket_name_def word_unat_eq_iff dest: show_nat_inj)

text \<open>The tickets that exist are the ones minted so far, as long as the counter has not wrapped.\<close>

definition minted_below :: "nat \<Rightarrow> gateway \<Rightarrow> bool" where
  "minted_below n g \<longleftrightarrow>
     unat (gw_next_ticket g) = n \<and>
     (\<forall>t. gw_tickets g t \<noteq> None \<longrightarrow> (\<exists>k. unat k < n \<and> t = ticket_name k))"

lemma minted_below_new: "minted_below 1 (gateway_new conf fx)"
  by (simp add: minted_below_def gateway_new_def)

lemma minted_below_sec:
  assumes "minted_below n g" and "n + 1 < 2 ^ 64"
  shows "minted_below (if s = Sec_Mint then Suc n else n) (gw_sec s g)"
proof (cases "s = Sec_Mint")
  case True
  have "unat (gw_next_ticket g + 1) = Suc n"
    using assms by (simp add: minted_below_def unat_word_ariths)
  moreover have "\<exists>k. unat k < Suc n \<and> t = ticket_name k"
    if "((gw_tickets g)(ticket_name (gw_next_ticket g) \<mapsto> True)) t \<noteq> None" for t
    using that assms(1) unfolding minted_below_def
    by (metis fun_upd_other lessI less_SucI)
  ultimately show ?thesis unfolding minted_below_def True mint_tickets by auto
next
  case False
  then show ?thesis using assms(1) sec_tickets_dom [of s g] by (simp add: minted_below_def)
qed

lemma minted_below_run:
  "minted_below n g \<Longrightarrow> n + mints secs + 1 < 2 ^ 64 \<Longrightarrow> minted_below (n + mints secs) (gw_run secs g)"
proof (induction secs arbitrary: n g)
  case (Cons s ss)
  from minted_below_sec [OF Cons.prems(1), of s] Cons.prems(2)
  have "minted_below (if s = Sec_Mint then Suc n else n) (gw_sec s g)" by (simp split: if_splits)
  from Cons.IH [OF this] Cons.prems(2) show ?case by (simp split: if_splits)
qed simp

lemma spent_stays_spent_sec:
  assumes "minted_below n g" and "gw_tickets g t = Some False"
  shows "gw_tickets (gw_sec s g) t = Some False"
proof (cases "s = Sec_Mint")
  case True
  from assms obtain k where "unat k < n" "t = ticket_name k" by (auto simp: minted_below_def)
  then have "t \<noteq> ticket_name (gw_next_ticket g)"
    using assms(1) by (auto simp: minted_below_def dest: ticket_name_inj)
  with assms(2) show ?thesis by (simp only: True mint_tickets) simp
next
  case False
  then show ?thesis
    using assms(2) sec_tickets(1) [of s g] take_tickets(2) [of _ g] by (cases "\<exists>u. s = Sec_Take u") auto
qed

lemma spent_stays_spent:
  "minted_below n g \<Longrightarrow> n + mints secs + 1 < 2 ^ 64 \<Longrightarrow> gw_tickets g t = Some False \<Longrightarrow>
   gw_tickets (gw_run secs g) t = Some False"
proof (induction secs arbitrary: n g)
  case (Cons s ss)
  from minted_below_sec [OF Cons.prems(1), of s] Cons.prems(2)
  have "minted_below (if s = Sec_Mint then Suc n else n) (gw_sec s g)" by (simp split: if_splits)
  from Cons.IH [OF this] Cons.prems spent_stays_spent_sec [OF Cons.prems(1,3), of s]
  show ?case by (simp split: if_splits)
qed simp

lemma unspent_was_minted:
  assumes "gw_tickets (gw_run secs g) t \<noteq> None" and "gw_tickets g t = None"
  shows "\<exists>as bs. secs = as @ Sec_Mint # bs \<and> fst (gw_mint_ticket (gw_run as g)) = t"
  using assms
proof (induction secs rule: rev_induct)
  case (snoc s secs)
  show ?case
  proof (cases "gw_tickets (gw_run secs g) t = None")
    case False
    with snoc obtain as bs where "secs = as @ Sec_Mint # bs" "fst (gw_mint_ticket (gw_run as g)) = t" by blast
    then show ?thesis by (intro exI [of _ as] exI [of _ "bs @ [s]"]) simp
  next
    case True
    have "s = Sec_Mint"
    proof (rule ccontr)
      assume "s \<noteq> Sec_Mint"
      with True snoc.prems(1) sec_tickets(1) [of s "gw_run secs g"] take_tickets(2) [of _ "gw_run secs g"]
      show False by (cases "\<exists>u. s = Sec_Take u") (auto split: if_splits)
    qed
    with True snoc.prems(1) have "ticket_name (gw_next_ticket (gw_run secs g)) = t"
      by (simp add: gw_mint_ticket_def Let_def split: if_splits)
    with \<open>s = Sec_Mint\<close> show ?thesis
      by (intro exI [of _ secs] exI [of _ "[]"]) (simp add: gw_mint_ticket_def Let_def)
  qed
qed simp

text \<open>
  C24: a WebSocket ticket is accepted only when the gateway minted it before, and only once:
  whatever the HTTP requests, handshakes and turns in between do, a later handshake with the
  same ticket is refused. Fewer than \<open>2^64 - 2\<close> tickets are minted (then the counter wraps).
\<close>

theorem ticket_admits_once:
  assumes "fst (take_ticket t (gw_run before (gateway_new conf fx)))"
    and "mints before + mints after < 2 ^ 64 - 2"
  shows "(\<exists>as bs. before = as @ Sec_Mint # bs \<and>
            fst (gw_mint_ticket (gw_run as (gateway_new conf fx))) = t) \<and>
     \<not> fst (take_ticket t (gw_run (before @ Sec_Take t # after) (gateway_new conf fx)))"
proof -
  define g where "g = gw_run before (gateway_new conf fx)"
  define g1 where "g1 = gw_sec (Sec_Take t) g"
  from assms(1) have live: "gw_tickets g t = Some True"
    by (simp add: g_def take_ticket_def split: if_splits)
  have b: "minted_below (1 + mints before) g"
    unfolding g_def using assms(2) by (intro minted_below_run minted_below_new) simp
  have "minted_below (1 + mints before) g1"
    using minted_below_sec [OF b, of "Sec_Take t"] assms(2) by (simp add: g1_def)
  moreover have "gw_tickets g1 t = Some False" using live by (simp add: g1_def take_ticket_def)
  moreover have "1 + mints before + mints after + 1 < 2 ^ 64" using assms(2) by simp
  ultimately have "gw_tickets (gw_run after g1) t = Some False" using spent_stays_spent by blast
  then have "\<not> fst (take_ticket t (gw_run after g1))" by (simp add: take_ticket_def)
  moreover have "\<exists>as bs. before = as @ Sec_Mint # bs \<and>
      fst (gw_mint_ticket (gw_run as (gateway_new conf fx))) = t"
    by (rule unspent_was_minted) (use live in \<open>simp_all add: g_def gateway_new_def\<close>)
  ultimately show ?thesis by (simp add: g1_def g_def)
qed

section \<open>Session logs\<close>

text \<open>
  The log as the interface a catching-up reader relies on: what lies above a watermark is
  the events the reader has not had yet.
\<close>

locale event_log =
  fixes logged :: "'s \<Rightarrow> 'e list"
    and above :: "nat \<Rightarrow> 's \<Rightarrow> 'e list"
    and valid :: "'s \<Rightarrow> bool"
    and recorded :: "'x \<Rightarrow> 's \<Rightarrow> 's"
    and entry :: "'x \<Rightarrow> 's \<Rightarrow> 'e"
  assumes above_drop: "valid s \<Longrightarrow> above k s = drop k (logged s)"
    and recorded_valid: "valid s \<Longrightarrow> valid (recorded x s)"
    and recorded_logged: "logged (recorded x s) = logged s @ [entry x s]"
begin

text \<open>A reader that saw the first \<open>k\<close> events and reads the rest has seen the whole log.\<close>

lemma catch_up:
  assumes "valid s"
  shows "fold f (above k s) (fold f (take k (logged s)) a) = fold f (logged s) a"
  by (metis above_drop append_take_drop_id assms fold_append comp_apply)

lemma fold_recorded_valid: "valid s \<Longrightarrow> valid (fold recorded xs s)"
  by (induction xs arbitrary: s) (simp_all add: recorded_valid)

lemma fold_recorded_logged: "\<exists>es. logged (fold recorded xs s) = logged s @ es \<and> length es = length xs"
proof (induction xs arbitrary: s)
  case (Cons x xs)
  from Cons [of "recorded x s"] obtain es
    where "logged (fold recorded xs (recorded x s)) = logged (recorded x s) @ es" "length es = length xs" by blast
  then show ?case by (intro exI [of _ "entry x s # es"]) (simp add: recorded_logged)
qed simp

text \<open>What is above the end of an earlier log is exactly what was recorded since.\<close>

lemma above_since:
  assumes "valid s"
  shows "logged (fold recorded xs s) = logged s @ above (length (logged s)) (fold recorded xs s)"
  using fold_recorded_logged [of xs s] above_drop [OF fold_recorded_valid [OF assms]] by auto

end

lemma upto_drop: "filter (\<lambda>e. int k < er_seq e) es = drop k es"
  if "map er_seq es = [1..int (length es)]"
  using that
proof (induction es arbitrary: k rule: rev_induct)
  case (snoc e es)
  have u: "[1..int (length (es @ [e]))] = [1..int (length es)] @ [int (length es) + 1]"
    using upto_rec2 [of 1 "int (length es) + 1"] by (simp add: add.commute)
  with snoc.prems have m: "map er_seq es = [1..int (length es)]" and e: "er_seq e = int (length es) + 1"
    by simp_all
  from snoc.IH [OF m, of k] e show ?case by (cases "k \<le> length es") auto
qed simp

lemma events_after_drop:
  "session_wf sid r \<Longrightarrow> events_after (int k) r = drop k (gs_events r)"
  unfolding events_after_def session_wf_def by (rule upto_drop) simp

definition new_event :: "string \<times> json \<Rightarrow> gw_session \<Rightarrow> event_record" where
  "new_event e r = \<lparr>er_seq = gs_seq r + 1, er_type = fst e, er_payload = snd e\<rparr>"

interpretation session_log: event_log
  gs_events "\<lambda>k. events_after (int k)" "\<lambda>r. session_wf (gs_id r) r"
  "\<lambda>e. push_event (fst e) (snd e)" new_event
proof unfold_locales
  fix r :: gw_session and k :: nat
  assume "session_wf (gs_id r) r"
  then show "events_after (int k) r = drop k (gs_events r)" by (rule events_after_drop)
next
  fix r :: gw_session and e :: "string \<times> json"
  assume "session_wf (gs_id r) r"
  then show "session_wf (gs_id (push_event (fst e) (snd e) r)) (push_event (fst e) (snd e) r)"
    using session_wf_push [of "gs_id r" r] by (simp add: push_event_def)
qed (simp add: push_event_def new_event_def)

section \<open>Turns\<close>

lemma sink_send_turns [frame_simps]: "gw_turns (ws_open ok g) = gw_turns g"
  by (simp add: ws_open_def Let_def frame_simps)

text \<open>Only its own steps advance a task; other sections leave it or abort it.\<close>

lemma sec_turns:
  assumes "t < gw_next_turn g" and "s \<noteq> Sec_Turn t"
  shows "gw_turns (gw_sec s g) t = gw_turns g t \<or> gw_turns (gw_sec s g) t = None"
  using assms
  by (cases s; simp add: frame_simps create_record_def insert_session_def next_seq_and_record_def
      delay_frame_def delayed_step_def interrupt_section_def gw_close_session_def claim_session_def
      spawn_turn_def register_turn_def turn_step_def take_profile_failure_def ws_open_def ws_pump_def
      gw_mint_ticket_def take_ticket_def abort_turn_def Let_def
      split: option.split list.split prod.split)

lemma sec_next_turn: "gw_next_turn g \<le> gw_next_turn (gw_sec s g)"
  by (cases s; simp add: frame_simps create_record_def insert_session_def next_seq_and_record_def
      delay_frame_def delayed_step_def interrupt_section_def gw_close_session_def claim_session_def
      spawn_turn_def register_turn_def turn_step_def take_profile_failure_def ws_open_def ws_pump_def
      gw_mint_ticket_def take_ticket_def abort_turn_def Let_def
      split: option.split list.split prod.split)

definition turn_left :: "nat \<Rightarrow> gateway \<Rightarrow> nat" where
  "turn_left t g = (case gw_turns g t of None \<Rightarrow> 0 | Some k \<Rightarrow> Suc (length (gt_frames k)))"

lemma turn_left_step: "turn_left t (turn_step t g) \<le> turn_left t g - 1"
proof (cases "gw_turns g t")
  case (Some k)
  then show ?thesis
    by (cases "gt_frames k")
      (simp_all add: turn_left_def turn_step_def next_seq_and_record_def frame_simps split: option.split)
qed (simp add: turn_left_def turn_step_def)

definition steps_of :: "nat \<Rightarrow> gw_section list \<Rightarrow> nat" where
  "steps_of t secs = length (filter (\<lambda>s. s = Sec_Turn t) secs)"

lemma turn_left_run:
  "t < gw_next_turn g \<Longrightarrow> turn_left t (gw_run secs g) \<le> turn_left t g - steps_of t secs"
proof (induction secs arbitrary: g)
  case (Cons s ss)
  have lt: "t < gw_next_turn (gw_sec s g)" using Cons.prems sec_next_turn less_le_trans by blast
  show ?case
  proof (cases "s = Sec_Turn t")
    case True
    with Cons.IH [OF lt] turn_left_step [of t g] show ?thesis by (simp add: steps_of_def)
  next
    case False
    then have "turn_left t (gw_sec s g) \<le> turn_left t g"
      using sec_turns [OF Cons.prems False] by (auto simp: turn_left_def)
    with Cons.IH [OF lt] False show ?thesis by (simp add: steps_of_def)
  qed
qed (simp add: steps_of_def)


text \<open>What a turn that nothing disturbs leaves behind.\<close>

definition log_frame :: "json \<Rightarrow> gw_session \<Rightarrow> gw_session" where
  "log_frame f = push_event (unwrap_or '''' (frame_type f)) (frame_payload f)"

fun sent_frames :: "string \<Rightarrow> int \<Rightarrow> json list \<Rightarrow> json list" where
  "sent_frames sid n [] = []"
| "sent_frames sid n (f # fs) = rewrite_frame f sid (n + 1) # sent_frames sid (n + 1) fs"

lemma log_frame_seq [simp]: "gs_seq (log_frame f r) = gs_seq r + 1"
  by (simp add: log_frame_def push_event_def)

lemma log_frame_flags:
  "log_frame f (r\<lparr>gs_running := b, gs_turn := h\<rparr>) = (log_frame f r)\<lparr>gs_running := b, gs_turn := h\<rparr>"
  by (cases r) (simp add: log_frame_def push_event_def)

lemma turn_step_frame:
  assumes "gw_turns g t = Some \<lparr>gt_sid = sid, gt_frames = f # fs, gt_out = c\<rparr>"
    and "gw_lookup g sid = Some r" and "gw_conns g c = Some cn"
  shows "gw_turns (turn_step t g) t = Some \<lparr>gt_sid = sid, gt_frames = fs, gt_out = c\<rparr> \<and>
     gw_lookup (turn_step t g) sid = Some (log_frame f r) \<and>
     gw_conns (turn_step t g) c =
       Some (cn\<lparr>gn_queue := gn_queue cn @ [rewrite_frame f sid (gs_seq r + 1)]\<rparr>)"
  using assms
  by (simp add: turn_step_def next_seq_and_record_def modify_session_def gw_send_def log_frame_def)

lemma turn_run_frames:
  "gw_turns g t = Some \<lparr>gt_sid = sid, gt_frames = fs, gt_out = c\<rparr> \<Longrightarrow>
   gw_lookup g sid = Some r \<Longrightarrow> gw_conns g c = Some cn \<Longrightarrow>
   gw_turns (gw_run (replicate (Suc (length fs)) (Sec_Turn t)) g) t = None \<and>
   gw_lookup (gw_run (replicate (Suc (length fs)) (Sec_Turn t)) g) sid =
     Some ((fold log_frame fs r)\<lparr>gs_running := False, gs_turn := None\<rparr>) \<and>
   gw_conns (gw_run (replicate (Suc (length fs)) (Sec_Turn t)) g) c =
     Some (cn\<lparr>gn_queue := gn_queue cn @ sent_frames sid (gs_seq r) fs\<rparr>)"
proof (induction fs arbitrary: g r cn)
  case Nil
  then show ?case
    by (simp add: turn_step_def modify_session_def)
next
  case (Cons f fs)
  from turn_step_frame [OF Cons.prems] Cons.IH [of "turn_step t g" "log_frame f r"]
  show ?case by simp
qed

text \<open>
  A prompt on an idle session, left alone, streams its whole turn: every frame of the
  selected turn is logged under the next number, sent on the requesting connection after the
  reply, in order and rewritten to the session, and the session is idle again at the end.
\<close>

lemma prompt_run:
  assumes "gw_lookup g sid = Some r" and "\<not> gs_running r" and "gw_conns g c = Some cn"
    and "fs = turn (gw_fixtures g) (select_kind prompt)"
    and "params = JObj [(''session_id'', JStr sid), (''text'', JStr prompt)]"
    and "g' = gw_run (replicate (Suc (length fs)) (Sec_Turn (gw_next_turn g)))
                (handle_prompt_submit now c i params g)"
  shows "gw_lookup g' sid = Some ((fold log_frame fs r)\<lparr>gs_running := False, gs_turn := None\<rparr>) \<and>
     gw_turns g' (gw_next_turn g) = None \<and>
     (\<exists>cn' reply. gw_conns g' c = Some cn' \<and> get_key reply ''id'' = Some i \<and>
        gn_queue cn' = gn_queue cn @ reply # sent_frames sid (gs_seq r) fs)"
proof -
  define reply where "reply = JObj [(''jsonrpc'', JStr ''2.0''), (''id'', i),
      (''result'', JObj [(''status'', JStr ''streaming'')])]"
  define g1 where "g1 = handle_prompt_submit now c i params g"
  define r1 where "r1 = r\<lparr>gs_running := True, gs_turn := Some (gw_next_turn g)\<rparr>"
  have g1: "gw_turns g1 (gw_next_turn g) = Some \<lparr>gt_sid = sid, gt_frames = fs, gt_out = c\<rparr>"
    "gw_lookup g1 sid = Some r1" "gw_conns g1 c = Some (cn\<lparr>gn_queue := gn_queue cn @ [reply]\<rparr>)"
    using assms(1-3)
    by (simp_all add: g1_def r1_def reply_def assms(4,5) handle_prompt_submit_def claim_session_def
        entry_session_def modify_session_def reply_ok_def gw_send_def spawn_turn_def register_turn_def Let_def)
  have flags: "(fold log_frame fs r1)\<lparr>gs_running := False, gs_turn := None\<rparr> =
      (fold log_frame fs r)\<lparr>gs_running := False, gs_turn := None\<rparr>"
  proof -
    have "fold log_frame fs (r\<lparr>gs_running := b, gs_turn := h\<rparr>) =
        (fold log_frame fs r)\<lparr>gs_running := b, gs_turn := h\<rparr>" for b h r
      by (induction fs arbitrary: r) (simp_all add: log_frame_flags)
    then show ?thesis by (simp add: r1_def)
  qed
  have "gs_seq r1 = gs_seq r" by (simp add: r1_def)
  with turn_run_frames [OF g1] flags show ?thesis
    by (auto simp: assms(6) g1_def reply_def intro!: exI [of _ reply])
qed

section \<open>Closing\<close>

text \<open>The sections that can create the record of a session.\<close>

fun may_create :: "string \<Rightarrow> gw_section \<Rightarrow> bool" where
  "may_create sid (Sec_Entry _ s) = (s = sid)"
| "may_create sid (Sec_Claim _ s) = (s = sid)"
| "may_create sid (Sec_Create _ _) = True"
| "may_create sid _ = False"

lemma modify_session_lookup_None: "gw_lookup (modify_session s f g) sid = None \<longleftrightarrow> gw_lookup g sid = None"
  by (auto simp: lookup_modify_session split: option.splits if_splits)

lemma entry_session_lookup_None:
  "s \<noteq> sid \<Longrightarrow> gw_lookup (entry_session now s g) sid = None \<longleftrightarrow> gw_lookup g sid = None"
  by (simp add: entry_session_def split: option.split)

lemma sec_absent:
  assumes "gw_lookup g sid = None" and "\<not> may_create sid s"
  shows "gw_lookup (gw_sec s g) sid = None"
  using assms
  by (cases s; simp add: frame_simps modify_session_lookup_None entry_session_lookup_None
      next_seq_and_record_snd delay_frame_def delayed_step_def interrupt_section_def
      gw_close_session_def claim_session_def spawn_turn_def register_turn_def turn_step_def
      take_profile_failure_def ws_open_def ws_pump_def gw_mint_ticket_def take_ticket_def
      next_seq_and_record_def Let_def split: option.split list.split prod.split)

lemma run_absent:
  "gw_lookup g sid = None \<Longrightarrow> \<forall>s \<in> set secs. \<not> may_create sid s \<Longrightarrow> gw_lookup (gw_run secs g) sid = None"
  by (induction secs arbitrary: g) (simp_all add: sec_absent)

lemma close_absent: "gw_lookup (gw_close_session sid g) sid = None"
  by (simp add: gw_close_session_def frame_simps split: option.split)


section \<open>The one-time drop\<close>

lemma sec_disarmed:
  assumes "\<not> gw_drop_armed g"
  shows "\<not> gw_drop_armed (gw_sec s g)"
proof -
  have sd: "\<not> gw_drop_armed h \<Longrightarrow> \<not> gw_drop_armed (snd (should_drop n h))" for n h
    by (simp add: should_drop_def split: option.split)
  have ss: "\<not> gw_drop_armed h \<Longrightarrow> \<not> gw_drop_armed (sink_send ok c cn v h)" for ok c cn v h
    using sd by (simp add: sink_send_def Let_def case_prod_unfold frame_simps)
  show ?thesis
    using assms
    by (cases s; simp add: frame_simps ss create_record_def insert_session_def next_seq_and_record_def
        delay_frame_def delayed_step_def interrupt_section_def gw_close_session_def claim_session_def
        spawn_turn_def register_turn_def turn_step_def take_profile_failure_def ws_open_def ws_pump_def
        gw_mint_ticket_def take_ticket_def Let_def split: option.split list.split prod.split)
qed

text \<open>
  The configured drop cuts one connection in the whole life of the gateway: once a
  connection was dropped, no later frame on any connection triggers it.
\<close>

lemma drop_fires_once:
  assumes "fst (should_drop m g)"
  shows "\<not> fst (should_drop n (gw_run secs (snd (should_drop m g))))"
proof -
  have d: "\<not> gw_drop_armed (snd (should_drop m g))"
    using assms by (auto simp: should_drop_def split: option.splits if_splits)
  have "\<not> gw_drop_armed h \<Longrightarrow> \<not> gw_drop_armed (gw_run secs h)" for h
    by (induction secs arbitrary: h) (simp_all add: sec_disarmed)
  with d show ?thesis by (simp add: should_drop_def split: option.split)
qed

section \<open>Listing\<close>

lemma max_by_key_set:
  assumes "inj_on f (set xs)" and "m \<in> set xs" and "\<forall>y \<in> set xs. f y \<le> f m"
  shows "max_by_key f xs = Some m"
proof -
  from assms(2) obtain x where x: "max_by_key f xs = Some x" by (cases "max_by_key f xs") auto
  from max_by_key_in [OF x] assms show ?thesis using x by (metis antisym inj_onD)
qed

text \<open>
  \<open>session.list\<close> and \<open>session.most_recent\<close> agree: the list holds every session once, the
  latest created first, and the most recent session is the head of it.
\<close>

lemma list_and_most_recent_agree:
  assumes "g = gw_run secs (gateway_new conf fx)"
  shows "mset (sessions_by_order g) = mset (map snd (gw_sessions g)) \<and>
     sorted_wrt (\<lambda>a b. gs_order b \<le> gs_order a) (sessions_by_order g) \<and>
     max_by_key gs_order (map snd (gw_sessions g)) = first_opt (sessions_by_order g)"
proof -
  have wf: "gw_wf g" by (simp add: assms gw_run_wf gw_wf_new)
  have s: "sorted_wrt (\<lambda>a b. gs_order b \<le> gs_order a) (sessions_by_order g)"
    using sorted_sort_key [of "\<lambda>s. - gs_order s" "map snd (gw_sessions g)"]
    by (simp add: sessions_by_order_def sorted_wrt_map)
  have inj: "inj_on gs_order (snd ` set (gw_sessions g))"
  proof (rule inj_onI)
    fix a b assume "a \<in> snd ` set (gw_sessions g)" "b \<in> snd ` set (gw_sessions g)" and eq: "gs_order a = gs_order b"
    then obtain s1 s2 where "(s1, a) \<in> set (gw_sessions g)" "(s2, b) \<in> set (gw_sessions g)" by auto
    then have m: "gw_lookup g s1 = Some a" "gw_lookup g s2 = Some b"
      using map_of_is_SomeI [OF gw_wfD(1) [OF wf]] by blast+
    from gw_wfD(3) [OF wf m eq] m show "a = b" by simp
  qed
  have set: "set (sessions_by_order g) = snd ` set (gw_sessions g)" by (simp add: sessions_by_order_def)
  have "max_by_key gs_order (map snd (gw_sessions g)) = first_opt (sessions_by_order g)"
  proof (cases "sessions_by_order g")
    case Nil
    then have "gw_sessions g = []" using set by simp
    with Nil show ?thesis by (simp add: first_opt_def)
  next
    case (Cons m ms)
    with s set inj have "max_by_key gs_order (map snd (gw_sessions g)) = Some m"
      by (intro max_by_key_set) auto
    with Cons show ?thesis by (simp add: first_opt_def)
  qed
  with s show ?thesis by (simp add: sessions_by_order_def)
qed

section \<open>One reply per request\<close>

text \<open>What an operation puts on the channels: \<open>out\<close> on that of \<open>c\<close>, nothing elsewhere.\<close>

definition sends :: "nat \<Rightarrow> json list \<Rightarrow> gateway \<Rightarrow> gateway \<Rightarrow> bool" where
  "sends c out g g' \<longleftrightarrow>
     gw_conns g' =
       (case gw_conns g c of
          None \<Rightarrow> gw_conns g
        | Some cn \<Rightarrow> (gw_conns g)(c \<mapsto> cn\<lparr>gn_queue := gn_queue cn @ out\<rparr>))"

lemma sends_none: "gw_conns g' = gw_conns g \<Longrightarrow> sends c [] g g'"
  by (auto simp: sends_def fun_eq_iff split: option.split)

lemma sends_trans: "sends c xs g g' \<Longrightarrow> sends c ys g' g'' \<Longrightarrow> sends c (xs @ ys) g g''"
  by (auto simp: sends_def fun_eq_iff split: option.splits)

lemma sends_then: "sends c xs g g' \<Longrightarrow> gw_conns g'' = gw_conns g' \<Longrightarrow> sends c xs g g''"
  by (simp add: sends_def)

lemma sends_after:
  assumes "gw_conns g' = gw_conns g" and "sends c xs g' g''"
  shows "sends c xs g g''"
  using assms(2) unfolding sends_def assms(1) .

lemma sends_send: "sends c [v] g (gw_send c v g)"
  by (simp add: sends_def gw_send_def split: option.split)

definition ok_line :: "json \<Rightarrow> json \<Rightarrow> json" where
  "ok_line i v = JObj [(''jsonrpc'', JStr ''2.0''), (''id'', i), (''result'', v)]"

definition err_line :: "json \<Rightarrow> int \<Rightarrow> string \<Rightarrow> json" where
  "err_line i code message =
     JObj [(''jsonrpc'', JStr ''2.0''), (''id'', i),
           (''error'', JObj [(''code'', JNum (IntNum code)), (''message'', JStr message)])]"

text \<open>A response to request \<open>i\<close>, and what a handler may send: events, then one response.\<close>

definition response_to :: "json \<Rightarrow> json \<Rightarrow> bool" where
  "response_to i v \<longleftrightarrow> (\<exists>r. v = ok_line i r) \<or> (\<exists>code m. v = err_line i code m)"

definition answers :: "nat \<Rightarrow> json \<Rightarrow> gateway \<Rightarrow> gateway \<Rightarrow> bool" where
  "answers c i g g' \<longleftrightarrow>
     (\<exists>evs v. sends c (evs @ [v]) g g' \<and> response_to i v \<and>
        (\<forall>f \<in> set evs. \<exists>ty sid n p. f = event_frame ty sid n p))"

lemma answers_ok: "gw_conns g1 = gw_conns g \<Longrightarrow> gw_conns g' = gw_conns (reply_ok c i r g1) \<Longrightarrow> answers c i g g'"
  unfolding answers_def
  by (intro exI [of _ "[]"] exI [of _ "ok_line i r"])
    (auto simp: response_to_def reply_ok_def ok_line_def [symmetric]
      intro: sends_then [OF sends_after [OF _ sends_send]])

lemma answers_err: "answers c i g (reply_err c i code m g)"
  unfolding answers_def
  by (intro exI [of _ "[]"] exI [of _ "err_line i code m"])
    (auto simp: response_to_def reply_err_def err_line_def [symmetric] sends_send)

lemma answers_event_ok:
  assumes "gw_conns g1 = gw_conns g"
  shows "answers c i g (reply_ok c i r (gw_send c (event_frame ty sid n p) g1))"
proof -
  have "sends c ([event_frame ty sid n p] @ [ok_line i r]) g (reply_ok c i r (gw_send c (event_frame ty sid n p) g1))"
    unfolding reply_ok_def ok_line_def [symmetric]
    by (rule sends_trans [OF sends_after [OF assms sends_send] sends_send])
  then show ?thesis
    unfolding answers_def
    by (intro exI [of _ "[event_frame ty sid n p]"] exI [of _ "ok_line i r"]) (auto simp: response_to_def)
qed

lemma handler_conns [simp]:
  "gw_conns (snd (create_record now title g)) = gw_conns g"
  "gw_conns (snd (next_seq_and_record sid ty p g)) = gw_conns g"
  "gw_conns (gw_close_session sid g) = gw_conns g"
  "gw_conns (snd (interrupt_section sid g)) = gw_conns g"
  "gw_conns (snd (claim_session now sid g)) = gw_conns g"
  "gw_conns (snd (spawn_turn sid fs c g)) = gw_conns g"
  "gw_conns (register_turn sid t g) = gw_conns g"
  "gw_conns (delay_frame c f g) = gw_conns g"
  by (simp_all add: create_record_def insert_session_def next_seq_and_record_def gw_close_session_def
      interrupt_section_def claim_session_def spawn_turn_def register_turn_def delay_frame_def frame_simps
      Let_def split: option.split)

lemma create_answers: "answers c i g (handle_session_create now c i params g)"
proof -
  obtain sid g1 where 1: "create_record now (str_at params ''title'') g = (sid, g1)" by fastforce
  have c1: "gw_conns g1 = gw_conns g" using handler_conns(1) 1 by (metis snd_conv)
  show ?thesis
    unfolding handle_session_create_def Let_def 1 prod.case
    by (rule answers_ok [OF c1]) (auto simp: next_seq_and_record_def frame_simps split: option.split prod.split)
qed

lemma interrupt_answers: "answers c i g (handle_session_interrupt c i params g)"
proof -
  obtain fr g1 where 1: "interrupt_section (str_at params ''session_id'') g = (fr, g1)" by fastforce
  have c1: "gw_conns g1 = gw_conns g" using handler_conns(4) 1 by (metis snd_conv)
  have "fr = None \<or> (\<exists>ty sid n p. fr = Some (event_frame ty sid n p))"
    using 1 by (auto simp: interrupt_section_def split: option.splits if_splits)
  then show ?thesis
    using c1 by (auto simp: handle_session_interrupt_def 1 Let_def intro: answers_ok answers_event_ok)
qed

lemma submit_answers: "answers c i g (handle_prompt_submit now c i params g)"
proof -
  obtain b g1 where 1: "claim_session now (str_at params ''session_id'') g = (b, g1)" by fastforce
  have c1: "gw_conns g1 = gw_conns g" using handler_conns(5) 1 by (metis snd_conv)
  show ?thesis
    by (cases b) (auto simp: handle_prompt_submit_def 1 Let_def spawn_turn_def intro!: answers_ok [OF c1])
qed

lemma dispatch_answers: "answers c i g (dispatch_method now meth c i params g)"
proof -
  note rest = handle_session_list_def handle_session_most_recent_def handle_session_resume_def
    handle_events_since_def handle_session_close_def handle_slash_exec_def handle_command_dispatch_def
    handle_session_title_def
  have ok: "gw_conns g1 = gw_conns g \<Longrightarrow> answers c i g (reply_ok c i r g1)" for g1 r
    by (rule answers_ok) simp_all
  show ?thesis
    unfolding dispatch_method_def rest Let_def
    by (simp add: create_answers interrupt_answers submit_answers answers_err ok frame_simps split: option.split)
qed

text \<open>What the client's codec makes of these lines.\<close>

lemma decode_lines:
  "decode_value sj (ok_line (JStr s) r) = Decoded_Result s r"
  "decode_value sj (err_line (JStr s) code m) =
     Decoded_Error s \<lparr>err_code = i64_at (JObj [(''code'', JNum (IntNum code))]) ''code'', err_message = m, err_data = JNull\<rparr>"
  "\<exists>ev. decode_value sj (event_frame ty sid n p) = Decoded_Event ev"
  by (simp_all add: decode_value_def id_to_string_def ok_line_def err_line_def event_frame_def i64_at_def)


section \<open>Witnesses\<close>

text \<open>A gateway with one connection and one session, for the witnesses.\<close>

definition sample_conf :: gw_config where
  "sample_conf =
     \<lparr>gc_port = 9123, gc_user = ''hermo'', gc_password = ''pw'', gc_fixture = ''events'',
      gc_synthetic = None, gc_clarify = None, gc_fail_profiles = 0, gc_drop_after = None\<rparr>"

definition sample_turn :: "json list" where
  "sample_turn = map word_frame [''message.start'', ''message.complete'', ''session.info'']"

definition sample_fixtures :: fixtures where
  "sample_fixtures =
     \<lparr>scenarios = [Turn_Plain \<mapsto> sample_turn], ready_value = JObj [(''replay_epoch'', JStr ''e'')],
      approval_frame = None, clarify_frame = None, session_info = None\<rparr>"

definition sample_start :: "gw_section list" where
  "sample_start = [Sec_Open True, Sec_Entry ''0'' ''s'']"

definition sample_gateway :: gateway where
  "sample_gateway = gw_run sample_start (gateway_new sample_conf sample_fixtures)"

lemma sample_gateway_facts:
  "gw_lookup sample_gateway ''s'' = Some (session_new ''s'' '''' ''0'' 0)"
  "\<exists>cn. gw_conns sample_gateway 0 = Some cn \<and> gn_queue cn = []"
  "gw_fixtures sample_gateway = sample_fixtures" "gw_next_turn sample_gateway = 0"
  "gw_tickets sample_gateway = Map.empty" "gw_next_ticket sample_gateway = 1"
  "gw_conf sample_gateway = sample_conf"
  by (simp_all add: sample_gateway_def sample_start_def gateway_new_def ws_open_def sink_send_def
      should_drop_def entry_session_def sample_conf_def Let_def)

lemma sample_turn_facts:
  "turn sample_fixtures (select_kind ''hi'') = sample_turn"
  "length sample_turn = 3"
proof -
  have "select_kind ''hi'' = Turn_Plain" by code_simp
  then show "turn sample_fixtures (select_kind ''hi'') = sample_turn"
    by (simp add: turn_def turn_frames_def plain_frames_def sample_fixtures_def Let_def)
qed (simp add: sample_turn_def)

lemma ticket_one: "fst (gw_mint_ticket (gateway_new conf fx)) = ''fake-ticket-1''"
  by (simp add: gw_mint_ticket_def gateway_new_def ticket_name_def Let_def show_nat.simps digit_def
      char_of_def bit_0)

lemma ticket_admits_once_witness:
  "fst (take_ticket ''fake-ticket-1'' (gw_run [Sec_Mint] (gateway_new sample_conf sample_fixtures))) \<and>
   \<not> fst (take_ticket ''fake-ticket-1''
       (gw_run ([Sec_Mint] @ Sec_Take ''fake-ticket-1'' # [Sec_Mint]) (gateway_new sample_conf sample_fixtures)))"
proof -
  have "gw_tickets (gw_run [Sec_Mint] (gateway_new sample_conf sample_fixtures)) ''fake-ticket-1'' = Some True"
    using ticket_one [of sample_conf sample_fixtures] by (simp add: gw_mint_ticket_def Let_def)
  then have live: "fst (take_ticket ''fake-ticket-1'' (gw_run [Sec_Mint] (gateway_new sample_conf sample_fixtures)))"
    by (simp add: take_ticket_def)
  have bound: "mints [Sec_Mint] + mints [Sec_Mint] < 2 ^ 64 - 2" by simp
  from ticket_admits_once [OF live bound] live show ?thesis by blast
qed

definition sample_streaming :: gateway where
  "sample_streaming = gw_run [Sec_Claim ''0'' ''s'', Sec_Spawn ''s'' sample_turn 0] sample_gateway"

lemma sample_streaming_facts:
  "sample_streaming =
     gw_run (sample_start @ [Sec_Claim ''0'' ''s'', Sec_Spawn ''s'' sample_turn 0])
       (gateway_new sample_conf sample_fixtures)"
  "gw_turns sample_streaming 0 = Some \<lparr>gt_sid = ''s'', gt_frames = sample_turn, gt_out = 0\<rparr>"
  by (simp_all add: sample_streaming_def sample_gateway_def [symmetric] spawn_turn_def Let_def
      sample_gateway_facts claim_session_def entry_session_def frame_simps split: option.split)




lemma chunking_does_not_matter_witness:
  "serve_http word_serde id (map Inr [''GET /api/sta'', ''tus HTTP/1.1'' @ [cr], [nl, cr, nl]]) sample_gateway =
   serve_http word_serde id (map Inr [''GET /api/status HTTP/1.1'' @ [cr, nl, cr, nl]]) sample_gateway"
  by (rule chunking_does_not_matter) simp_all

end
