(* ===== verification/Gateway_Client.thy ===== *)
theory Gateway_Client
  imports Gateway_Props Core_Props
begin

text \<open>
  The client against the stand-in gateway: the typed RPC wrappers of \<open>rpc/api.rs\<close> and the
  routes of \<open>auth/client.rs\<close> run on the gateway's own handlers, and the frames and replies
  of the gateway are decoded by the client's codec. What the two sides promise together is
  stated here: filling a gap from the replay log is the same as having been connected.
\<close>

section \<open>Frames and the replay log\<close>

text \<open>What a recorded frame must be for the client to take it as an event with a number.\<close>

definition event_shaped :: "json \<Rightarrow> bool" where
  "event_shaped f \<longleftrightarrow>
     Option.bind (get_key f ''jsonrpc'') as_str = Some ''2.0'' \<and>
     Option.bind (get_key f ''method'') as_str = Some ''event'' \<and>
     (case get_key f ''params'' of
        Some (JObj ps) \<Rightarrow> Option.bind (map_of ps ''type'') as_str \<noteq> None \<and> map_of ps ''seq'' \<noteq> None
      | _ \<Rightarrow> False)"

definition logged_event :: "json \<Rightarrow> int \<Rightarrow> event_record" where
  "logged_event f n = \<lparr>er_seq = n, er_type = unwrap_or '''' (frame_type f), er_payload = frame_payload f\<rparr>"

fun logged_events :: "int \<Rightarrow> json list \<Rightarrow> event_record list" where
  "logged_events n [] = []"
| "logged_events n (f # fs) = logged_event f (n + 1) # logged_events (n + 1) fs"

lemma fold_log_frame:
  "gs_events (fold log_frame fs r) = gs_events r @ logged_events (gs_seq r) fs \<and>
   gs_seq (fold log_frame fs r) = gs_seq r + int (length fs)"
  by (induction fs arbitrary: r) (simp_all add: log_frame_def push_event_def logged_event_def)

definition decode_replayed :: "string \<Rightarrow> event_record \<Rightarrow> event_params" where
  "decode_replayed sid e = replay_params (replayed_from_value (event_json sid e))"

lemma bind_as_str_iff: "Option.bind x as_str = Some s \<longleftrightarrow> x = Some (JStr s)"
  by (cases x) (auto simp: as_str_def split: json.splits)

text \<open>The live frame and the replayed event are the same event to the client.\<close>

lemma live_is_replayed:
  assumes "event_shaped f" and "is_i64 n"
  shows "decode_value sj (rewrite_frame f sid n) = Decoded_Event (decode_replayed sid (logged_event f n))"
proof -
  from assms(1) obtain kvs ps ty where f: "f = JObj kvs" "map_of kvs ''params'' = Some (JObj ps)"
    "map_of ps ''type'' = Some (JStr ty)" "map_of ps ''seq'' \<noteq> None"
    "Option.bind (map_of kvs ''jsonrpc'') as_str = Some ''2.0''"
    "Option.bind (map_of kvs ''method'') as_str = Some ''event''"
    by (cases f) (auto simp: event_shaped_def bind_as_str_iff split: option.splits json.splits)
  define ps' where "ps' = rewrite_params sid n ps"
  have ps': "map_of ps' ''type'' = Some (JStr ty)" "map_of ps' ''session_id'' = Some (JStr sid)"
    "map_of ps' ''seq'' = Some (JNum (IntNum n))" "map_of ps' ''payload'' = map_of ps ''payload''"
    using f(3,4) by (auto simp: ps'_def rewrite_params_def Let_def)
  have rw: "rewrite_frame f sid n = JObj (obj_insert ''params'' (JObj ps') kvs)"
    using f(1,2) by (simp add: rewrite_frame_def set_key_def ps'_def)
  have "decode_value sj (rewrite_frame f sid n) = Decoded_Event (decode_event (rewrite_frame f sid n))"
    using f(5,6) by (intro decode_value_event) (simp_all add: rw)
  also have "decode_event (rewrite_frame f sid n) = decode_replayed sid (logged_event f n)"
    unfolding rw
    using assms(2) ps' f(1-3)
    by (simp add: decode_event_def decode_replayed_def replay_params_def replayed_from_value_def
        event_json_def logged_event_def frame_type_def frame_payload_def i64_at_def as_i64_def Let_def)
  finally show ?thesis .
qed

text \<open>The client's parse of the answer to \<open>session.events.since\<close>.\<close>

lemma since_parsed:
  assumes "gw_lookup g sid = Some r" and "session_wf sid r" and "is_i64 (gs_seq r)"
  shows "events_since_from_value (since_result sid (int k) g) =
     \<lparr>es_events = map (\<lambda>e. replayed_from_value (event_json sid e)) (drop k (gs_events r)),
      es_latest_seq = gs_seq r, es_truncated = False,
      es_epoch = str_at (ready_payload (gw_fixtures g)) ''replay_epoch''\<rparr>"
  using assms
  by (simp add: since_result_def events_since_from_value_def events_after_drop i64_at_def as_i64_def comp_def)

text \<open>Delivering the frames of the wire, as the event loop does.\<close>

definition deliver_live :: "'u core_env \<Rightarrow> nat \<Rightarrow> json list \<Rightarrow> ('u core, unit) act" where
  "deliver_live env snk frames =
     act_each (\<lambda>f. case decode_value (ce_json env) f of
                     Decoded_Event ev \<Rightarrow> act_checked (deliver_event (ce_json env) ev snk)
                   | _ \<Rightarrow> act_ok ()) frames"

lemma act_each_cong_map:
  "length xs = length ys \<Longrightarrow> (\<And>i. i < length xs \<Longrightarrow> f (xs ! i) = h (ys ! i)) \<Longrightarrow> act_each f xs = act_each h ys"
proof (induction xs ys rule: list_induct2)
  case (Cons x xs y ys)
  have "f x = h y" using Cons.prems [of 0] by simp
  moreover have "act_each f xs = act_each h ys"
    using Cons.prems [of "Suc i" for i] by (intro Cons.IH) simp
  ultimately show ?case by simp
qed simp

lemma live_equals_logged:
  "\<forall>f \<in> set fs. event_shaped f \<Longrightarrow> i64_min \<le> n \<Longrightarrow> n + int (length fs) \<le> i64_max \<Longrightarrow>
   deliver_live env snk (sent_frames sid n fs) =
     replay_all env snk (map (\<lambda>e. replayed_from_value (event_json sid e)) (logged_events n fs))"
proof (induction fs arbitrary: n)
  case (Cons f fs)
  have "decode_value (ce_json env) (rewrite_frame f sid (n + 1)) =
      Decoded_Event (decode_replayed sid (logged_event f (n + 1)))"
    using Cons.prems by (intro live_is_replayed) auto
  moreover have "deliver_live env snk (sent_frames sid (n + 1) fs) =
      replay_all env snk (map (\<lambda>e. replayed_from_value (event_json sid e)) (logged_events (n + 1) fs))"
    using Cons.prems by (intro Cons.IH) auto
  ultimately show ?case by (simp add: deliver_live_def replay_all_def decode_replayed_def)
qed (simp add: deliver_live_def replay_all_def)

text \<open>
  Filling a gap equals having been connected. When a prompt streams a turn of event
  frames, a client that received every frame live and a client that was away for the whole
  turn and replays what the gateway answers above its watermark do the same to the core:
  the same transcripts, watermarks and callbacks. The answer is complete, not truncated, and
  its last number is the new watermark.
\<close>

lemma catch_up_equals_live:
  assumes "g = gw_run secs (gateway_new conf fx)" and "gw_lookup g sid = Some r"
    and "\<not> gs_running r" and "gw_conns g c = Some cn"
    and "fs = turn (gw_fixtures g) (select_kind prompt)" and "\<forall>f \<in> set fs. event_shaped f"
    and "gs_seq r + int (length fs) \<le> i64_max"
    and "g' = gw_run (replicate (Suc (length fs)) (Sec_Turn (gw_next_turn g)))
                (handle_prompt_submit now c i
                   (JObj [(''session_id'', JStr sid), (''text'', JStr prompt)]) g)"
    and "repl = events_since_from_value (since_result sid (gs_seq r) g')"
  shows "replay_all env snk (es_events repl) = deliver_live env snk (sent_frames sid (gs_seq r) fs) \<and>
     \<not> es_truncated repl \<and> es_latest_seq repl = gs_seq r + int (length fs) \<and>
     (\<exists>cn' reply. gw_conns g' c = Some cn' \<and>
        gn_queue cn' = gn_queue cn @ reply # sent_frames sid (gs_seq r) fs)"
proof -
  define r' where "r' = (fold log_frame fs r)\<lparr>gs_running := False, gs_turn := None\<rparr>"
  have wf: "session_wf sid r"
    using gw_wf_session [OF gw_run_wf [OF gw_wf_new]] assms(1,2) by blast
  then have k: "gs_seq r = int (length (gs_events r))" by (simp add: session_wf_def)
  have run: "gw_lookup g' sid = Some r'"
    "\<exists>cn' reply. gw_conns g' c = Some cn' \<and>
        gn_queue cn' = gn_queue cn @ reply # sent_frames sid (gs_seq r) fs"
    using prompt_run [where now = now and i = i, OF assms(2-5) refl refl] unfolding r'_def assms(8) by blast+
  have "session_wf s q \<Longrightarrow> session_wf s (log_frame f q)" for s q f
    by (simp add: log_frame_def session_wf_push)
  then have "session_wf s q \<Longrightarrow> session_wf s (fold log_frame fs q)" for s q fs
    by (induction fs arbitrary: q) simp_all
  with wf have wf': "session_wf sid r'" by (simp add: r'_def)
  have r': "gs_events r' = gs_events r @ logged_events (gs_seq r) fs" "gs_seq r' = gs_seq r + int (length fs)"
    using fold_log_frame [of fs r] by (simp_all add: r'_def)
  have "is_i64 (gs_seq r')" using assms(7) k by (simp add: r' i64_min_def)
  from since_parsed [OF run(1) wf' this, of "length (gs_events r)"] have repl:
    "es_events repl = map (\<lambda>e. replayed_from_value (event_json sid e)) (logged_events (gs_seq r) fs)"
    "\<not> es_truncated repl" "es_latest_seq repl = gs_seq r + int (length fs)"
    by (simp_all add: assms(9) k [symmetric] r')
  have "deliver_live env snk (sent_frames sid (gs_seq r) fs) = replay_all env snk (es_events repl)"
    using live_equals_logged [OF assms(6), of "gs_seq r"] assms(7) k repl(1) by (simp add: i64_min_def)
  with repl run(2) show ?thesis by simp
qed

lemma sample_turn_shaped: "\<forall>f \<in> set sample_turn. event_shaped f"
  by (simp add: sample_turn_def word_frame_def event_shaped_def)

lemma catch_up_equals_live_witness:
  "\<exists>repl :: events_since. es_latest_seq repl = 3 \<and> \<not> es_truncated repl \<and>
     replay_all plain_env 1 (es_events repl) = deliver_live plain_env 1 (sent_frames ''s'' 0 sample_turn)"
proof -
  obtain cn where cn: "gw_conns sample_gateway 0 = Some cn" using sample_gateway_facts(2) by blast
  have idle: "\<not> gs_running (session_new ''s'' '''' ''0'' 0)"
    and fs: "sample_turn = turn (gw_fixtures sample_gateway) (select_kind ''hi'')"
    and bound: "gs_seq (session_new ''s'' '''' ''0'' 0) + int (length sample_turn) \<le> i64_max"
    by (simp_all add: session_new_def sample_gateway_facts sample_turn_facts i64_max_def)
  have seq: "gs_seq (session_new ''s'' '''' ''0'' 0) = 0" by (simp add: session_new_def)
  have seq: "gs_seq (session_new ''s'' '''' ''0'' 0) = 0" by (simp add: session_new_def)
  define g' where "g' = gw_run (replicate (Suc (length sample_turn)) (Sec_Turn (gw_next_turn sample_gateway)))
      (handle_prompt_submit ''1'' 0 JNull
        (JObj [(''session_id'', JStr ''s''), (''text'', JStr ''hi'')]) sample_gateway)"
  define repl where
    "repl = events_since_from_value (since_result ''s'' (gs_seq (session_new ''s'' '''' ''0'' 0)) g')"
  have "replay_all plain_env 1 (es_events repl) =
        deliver_live plain_env 1 (sent_frames ''s'' (gs_seq (session_new ''s'' '''' ''0'' 0)) sample_turn) \<and>
      \<not> es_truncated repl \<and>
      es_latest_seq repl = gs_seq (session_new ''s'' '''' ''0'' 0) + int (length sample_turn)"
    using catch_up_equals_live [OF sample_gateway_def sample_gateway_facts(1) idle cn fs
        sample_turn_shaped bound g'_def repl_def] by blast
  then show ?thesis by (intro exI [of _ repl]) (simp add: seq sample_turn_facts(2))
qed

text \<open>
  A recorded frame without a number is logged under one all the same, but sent without it:
  the client's watermark stays below it, and the event is replayed although it was received.
\<close>

lemma unnumbered_frame_is_replayed:
  assumes "get_key f ''params'' = Some (JObj ps)" and "map_of ps ''seq'' = None" and "f = JObj kvs"
  shows "ev_seq (decode_event (rewrite_frame f sid (gs_seq r + 1))) = None \<and>
     last (gs_events (log_frame f r)) \<in> set (events_after (gs_seq r) (log_frame f r))"
proof -
  have "map_of (rewrite_params sid (gs_seq r + 1) ps) ''seq'' = None"
    using assms(2) by (simp add: rewrite_params_def Let_def)
  then have "ev_seq (decode_event (rewrite_frame f sid (gs_seq r + 1))) = None"
    using assms(1,3) by (simp add: rewrite_frame_def set_key_def decode_event_def Let_def)
  then show ?thesis by (simp add: log_frame_def push_event_def events_after_def)
qed

section \<open>RPCs\<close>

text \<open>
  One call of the client on connection \<open>c\<close>: the gateway handles the request and the client
  decodes what was put last on the channel. It is a \<open>caller\<close> of the RPC wrappers, with the
  gateway as its world.
\<close>

definition gw_call :: "serde \<Rightarrow> string \<Rightarrow> nat \<Rightarrow> gateway caller" where
  "gw_call sj now c meth params g =
     (let g' = dispatch_method now meth c (JStr ''1'') params g
      in case gw_conns g' c of
           None \<Rightarrow> (Inl (ClientError_Closed ''connection ended''), g')
         | Some cn \<Rightarrow>
             (case decode_value sj (last (gn_queue cn)) of
                Decoded_Result _ v \<Rightarrow> (Inr v, g')
              | Decoded_Error _ e \<Rightarrow> (Inl (ClientError_Rpc (err_code e) (err_message e)), g')
              | _ \<Rightarrow> (Inl (ClientError_Timeout 0), g')))"

lemma gw_send_conns:
  "gw_conns g c = Some cn \<Longrightarrow>
   gw_conns (gw_send c v g) c = Some (cn\<lparr>gn_queue := gn_queue cn @ [v]\<rparr>)"
  by (simp add: gw_send_def)

lemma decode_reply:
  "decode_value sj (JObj [(''jsonrpc'', JStr ''2.0''), (''id'', JStr i), (''result'', v)]) = Decoded_Result i v"
  by (simp add: decode_value_def id_to_string_def)

lemma gw_call_reply:
  assumes "dispatch_method now meth c (JStr ''1'') params g = reply_ok c (JStr ''1'') v g1"
    and "gw_conns g1 c = Some cn"
  shows "gw_call sj now c meth params g = (Inr v, reply_ok c (JStr ''1'') v g1)"
  using assms gw_send_conns [OF assms(2)]
  by (simp add: gw_call_def reply_ok_def decode_reply)

lemma dispatch_simps:
  "dispatch_method now ''session.title'' c i params g = handle_session_title now c i params g"
  "dispatch_method now ''session.create'' c i params g = handle_session_create now c i params g"
  "dispatch_method now ''session.list'' c i params g = handle_session_list c i params g"
  "dispatch_method now ''session.resume'' c i params g = handle_session_resume now c i params g"
  "dispatch_method now ''session.events.since'' c i params g = handle_events_since c i params g"
  "dispatch_method now ''session.interrupt'' c i params g = handle_session_interrupt c i params g"
  "dispatch_method now ''session.close'' c i params g = handle_session_close c i params g"
  "dispatch_method now ''prompt.submit'' c i params g = handle_prompt_submit now c i params g"
  "dispatch_method now ''command.dispatch'' c i params g = handle_command_dispatch c i params g"
  "dispatch_method now ''slash.exec'' c i params g = handle_slash_exec c i params g"
  by (simp_all add: dispatch_method_def)

section \<open>Login and tickets\<close>

text \<open>
  The HTTP stack of the auth client with the gateway at its other end: the request reaches
  \<open>route_http\<close> with the cookies of the jar, and the jar takes the cookies of the response (a
  cookie with \<open>Max-Age=0\<close> is removed).
\<close>

record wire_world =
  ww_gateway :: gateway
  ww_cookies :: "(string \<times> string) list"

fun cookie_header :: "(string \<times> string) list \<Rightarrow> string" where
  "cookie_header [] = ''''"
| "cookie_header [(n, v)] = n @ ''='' @ v"
| "cookie_header ((n, v) # x # xs) = n @ ''='' @ v @ ''; '' @ cookie_header (x # xs)"

definition set_cookie :: "string \<Rightarrow> (string \<times> string) list \<Rightarrow> (string \<times> string) list" where
  "set_cookie line jar =
     (case split_once CHR ''='' (takeWhile (\<lambda>c. c \<noteq> CHR '';'') line) of
        None \<Rightarrow> jar
      | Some (n, v) \<Rightarrow>
          if contains_str ''Max-Age=0'' line then AList.delete n jar else AList.update n v jar)"

definition method_name :: "http_method \<Rightarrow> string" where
  "method_name m = (case m of Http_Get \<Rightarrow> ''GET'' | Http_Post \<Rightarrow> ''POST'')"

definition gateway_http :: "'u url_api \<Rightarrow> serde \<Rightarrow> ('u, wire_world) http_stack" where
  "gateway_http api sj req w =
     (let body = (case rq_body req of None \<Rightarrow> '''' | Some b \<Rightarrow> to_compact_string sj b);
          ((status, reply, cookies), g') =
            route_http sj (method_name (rq_method req)) (url_path api (rq_url req))
              (cookie_header (ww_cookies w)) body (ww_gateway w)
      in (Http_Response status (Inr reply),
          \<lparr>ww_gateway = g', ww_cookies = fold set_cookie cookies (ww_cookies w)\<rparr>))"

definition session_cookies :: "(string \<times> string) list" where
  "session_cookies =
     [(''hermes_session_at'', ''fake-access-token''), (''hermes_session_rt'', ''fake-refresh-token'')]"

lemma login_cookies:
  "fold set_cookie [''hermes_session_at=fake-access-token; Path=/; HttpOnly'',
       ''hermes_session_rt=fake-refresh-token; Path=/; HttpOnly''] [] = session_cookies"
  "fold set_cookie [''hermes_session_at=; Path=/; HttpOnly; Max-Age=0'',
       ''hermes_session_rt=; Path=/; HttpOnly; Max-Age=0''] session_cookies = []"
  "contains_str ''hermes_session_at'' (cookie_header session_cookies)"
  "\<not> contains_str ''hermes_session_at'' (cookie_header [])"
  "\<not> contains_str ''hermes_session_rt'' (cookie_header [])"
  by code_simp+

text \<open>What the gateway answers to the requests of the client.\<close>

lemma route_http_cases:
  "route_http sj ''POST'' ep_login ck body g = (gw_login sj body g, g)"
  "route_http sj ''POST'' ep_logout ck body g =
     ((200, JObj [(''ok'', JBool True)],
       [''hermes_session_at=; Path=/; HttpOnly; Max-Age=0'',
        ''hermes_session_rt=; Path=/; HttpOnly; Max-Age=0'']), g)"
  "contains_str ''hermes_session_at'' ck \<Longrightarrow>
   route_http sj ''POST'' ep_ws_ticket ck body g =
     ((200, JObj [(''ticket'', JStr (fst (gw_mint_ticket g))), (''ttl_seconds'', JNum (IntNum 30))], []),
      snd (gw_mint_ticket g))"
  "\<not> contains_str ''hermes_session_at'' ck \<Longrightarrow> \<not> contains_str ''hermes_session_rt'' ck \<Longrightarrow>
   route_http sj ''POST'' ep_ws_ticket ck body g = ((401, detail ''unauthorized'', []), g)"
  by (simp_all add: route_http_def ep_login_def ep_logout_def ep_ws_ticket_def case_prod_unfold Let_def)

text \<open>A route under a base URL without a path of its own.\<close>

lemma plain_route:
  assumes "url_laws api" and "url_parse api base = Inr u" and "url_path api u = ''/''"
    and "path \<in> {ep_login, ep_logout, ep_ws_ticket}"
  shows "\<exists>url. route_url api base path = Inr url \<and> url_path api url = path"
proof -
  have "prefix ''/'' path" using assms(4) by (auto simp: ep_login_def ep_logout_def ep_ws_ticket_def)
  with assms(1) have "url_path api (url_set_path api path u) = path" by (simp add: url_laws_def)
  moreover have "trim_end_matches CHR ''/'' ''/'' = ''''" by code_simp
  ultimately show ?thesis using assms(2,3) by (simp add: route_url_def Let_def)
qed

lemma auth_route_gateway:
  assumes "route_url api base path = Inr url" and "url_path api url = path"
    and "route_http sj (method_name meth) path (cookie_header (ww_cookies w))
           (case body of None \<Rightarrow> '''' | Some b \<Rightarrow> to_compact_string sj b) (ww_gateway w) =
         ((status, reply, cookies), g')"
  shows "auth_route api (gateway_http api sj) (\<lambda>w. w) meth base path body ctx shape w =
     ((if is_success status then Inr (shape reply) else Inl (map_status status ctx)),
      \<lparr>ww_gateway = g', ww_cookies = fold set_cookie cookies (ww_cookies w)\<rparr>)"
  using assms
  by (simp add: auth_route_def http_send_def gateway_http_def Let_def)

lemma gw_login_accepts:
  assumes "from_str sj (to_compact_string sj (login_body user pw)) = Some (login_body user pw)"
  shows "gw_login sj (to_compact_string sj (login_body user pw)) g =
     (if user = gc_user (gw_conf g) \<and> pw = gc_password (gw_conf g)
      then (200, JObj [(''ok'', JBool True), (''next'', JStr '''')],
            [''hermes_session_at=fake-access-token; Path=/; HttpOnly'',
             ''hermes_session_rt=fake-refresh-token; Path=/; HttpOnly''])
      else (401, detail ''invalid credentials'', []))"
  by (simp add: gw_login_def assms) (auto simp: login_body_def)

text \<open>The three routes of the client with the gateway behind them.\<close>

lemma login_at_gateway:
  assumes "route_url api base ep_login = Inr url" and "url_path api url = ep_login"
    and "from_str sj (to_compact_string sj (login_body user pw)) = Some (login_body user pw)"
  shows "auth_login api (gateway_http api sj) (\<lambda>w. w) base user pw \<lparr>ww_gateway = g, ww_cookies = []\<rparr> =
     (if user = gc_user (gw_conf g) \<and> pw = gc_password (gw_conf g)
      then (Inr (), \<lparr>ww_gateway = g, ww_cookies = session_cookies\<rparr>)
      else (Inl CoreError_InvalidCredentials, \<lparr>ww_gateway = g, ww_cookies = []\<rparr>))"
proof (cases "user = gc_user (gw_conf g) \<and> pw = gc_password (gw_conf g)")
  case True
  have r: "route_http sj (method_name Http_Post) ep_login
      (cookie_header (ww_cookies \<lparr>ww_gateway = g, ww_cookies = []\<rparr>))
      (case Some (login_body user pw) of None \<Rightarrow> '''' | Some b \<Rightarrow> to_compact_string sj b)
      (ww_gateway \<lparr>ww_gateway = g, ww_cookies = []\<rparr>) =
    ((200, JObj [(''ok'', JBool True), (''next'', JStr '''')],
       [''hermes_session_at=fake-access-token; Path=/; HttpOnly'',
        ''hermes_session_rt=fake-refresh-token; Path=/; HttpOnly'']), g)"
    by (simp add: method_name_def route_http_cases(1) gw_login_accepts [OF assms(3)] if_P [OF True] del: if_P)
  from auth_route_gateway [OF assms(1,2) r, of Ctx_Login "\<lambda>_. ()"] login_cookies(1) True show ?thesis
    by (simp add: auth_login_def is_success_def)
next
  case False
  have r: "route_http sj (method_name Http_Post) ep_login
      (cookie_header (ww_cookies \<lparr>ww_gateway = g, ww_cookies = []\<rparr>))
      (case Some (login_body user pw) of None \<Rightarrow> '''' | Some b \<Rightarrow> to_compact_string sj b)
      (ww_gateway \<lparr>ww_gateway = g, ww_cookies = []\<rparr>) =
    ((401, detail ''invalid credentials'', []), g)"
    using False by (auto simp: method_name_def route_http_cases(1) gw_login_accepts [OF assms(3)])
  from auth_route_gateway [OF assms(1,2) r, of Ctx_Login "\<lambda>_. ()"] False show ?thesis
    by (auto simp: auth_login_def is_success_def map_status_def)
qed

lemma ticket_at_gateway:
  assumes "route_url api base ep_ws_ticket = Inr url" and "url_path api url = ep_ws_ticket"
  shows "mint_ticket api (gateway_http api sj) (\<lambda>w. w) base \<lparr>ww_gateway = g, ww_cookies = session_cookies\<rparr> =
      (Inr \<lparr>tk_ticket = fst (gw_mint_ticket g), tk_ttl_seconds = 30\<rparr>,
       \<lparr>ww_gateway = snd (gw_mint_ticket g), ww_cookies = session_cookies\<rparr>)"
    and "mint_ticket api (gateway_http api sj) (\<lambda>w. w) base \<lparr>ww_gateway = g, ww_cookies = []\<rparr> =
      (Inl CoreError_SessionExpired, \<lparr>ww_gateway = g, ww_cookies = []\<rparr>)"
proof -
  let ?body = "case Some (JObj []) of None \<Rightarrow> '''' | Some b \<Rightarrow> to_compact_string sj b"
  have r1: "route_http sj (method_name Http_Post) ep_ws_ticket
      (cookie_header (ww_cookies \<lparr>ww_gateway = g, ww_cookies = session_cookies\<rparr>)) ?body
      (ww_gateway \<lparr>ww_gateway = g, ww_cookies = session_cookies\<rparr>) =
    ((200, JObj [(''ticket'', JStr (fst (gw_mint_ticket g))), (''ttl_seconds'', JNum (IntNum 30))], []),
      snd (gw_mint_ticket g))"
    using login_cookies(3) by (simp add: method_name_def route_http_cases(3))
  have r2: "route_http sj (method_name Http_Post) ep_ws_ticket
      (cookie_header (ww_cookies \<lparr>ww_gateway = g, ww_cookies = []\<rparr>)) ?body
      (ww_gateway \<lparr>ww_gateway = g, ww_cookies = []\<rparr>) = ((401, detail ''unauthorized'', []), g)"
    using login_cookies(4,5) by (simp only: method_name_def http_method.case wire_world.select_convs route_http_cases(4) not_False_eq_True)
  show "mint_ticket api (gateway_http api sj) (\<lambda>w. w) base \<lparr>ww_gateway = g, ww_cookies = session_cookies\<rparr> =
      (Inr \<lparr>tk_ticket = fst (gw_mint_ticket g), tk_ttl_seconds = 30\<rparr>,
       \<lparr>ww_gateway = snd (gw_mint_ticket g), ww_cookies = session_cookies\<rparr>)"
    unfolding mint_ticket_def auth_route_gateway [OF assms r1]
    by (simp add: is_success_def i64_at_def as_i64_def i64_min_def i64_max_def)
  show "mint_ticket api (gateway_http api sj) (\<lambda>w. w) base \<lparr>ww_gateway = g, ww_cookies = []\<rparr> =
      (Inl CoreError_SessionExpired, \<lparr>ww_gateway = g, ww_cookies = []\<rparr>)"
    unfolding mint_ticket_def auth_route_gateway [OF assms r2]
    by (simp add: is_success_def map_status_def)
qed

lemma logout_at_gateway:
  assumes "route_url api base ep_logout = Inr url" and "url_path api url = ep_logout"
  shows "auth_logout api (gateway_http api sj) (\<lambda>w. w) base \<lparr>ww_gateway = g, ww_cookies = session_cookies\<rparr> =
      (Inr (), \<lparr>ww_gateway = g, ww_cookies = []\<rparr>)"
proof -
  have r: "route_http sj (method_name Http_Post) ep_logout
      (cookie_header (ww_cookies \<lparr>ww_gateway = g, ww_cookies = session_cookies\<rparr>))
      (case None of None \<Rightarrow> '''' | Some b \<Rightarrow> to_compact_string sj b)
      (ww_gateway \<lparr>ww_gateway = g, ww_cookies = session_cookies\<rparr>) =
    ((200, JObj [(''ok'', JBool True)],
       [''hermes_session_at=; Path=/; HttpOnly; Max-Age=0'',
        ''hermes_session_rt=; Path=/; HttpOnly; Max-Age=0'']), g)"
    by (simp add: method_name_def route_http_cases(2))
  show ?thesis
    unfolding auth_logout_def auth_route_gateway [OF assms r]
    using login_cookies(2) by (simp add: is_success_def)
qed


text \<open>A URL type whose base parses to a root, and JSON text that is the login, for the witness.\<close>

definition root_api :: "plain_url url_api" where
  "root_api = plain_api\<lparr>url_parse := (\<lambda>_. Inr \<lparr>pu_scheme = ''http'', pu_host = ''h'', pu_path = '''',
                                             pu_query = '''', pu_pairs = []\<rparr>)\<rparr>"

definition login_serde :: serde where
  "login_serde =
     \<lparr>to_string = (\<lambda>_. Some ''login''), from_str = (\<lambda>_. Some (login_body ''hermo'' ''pw'')),
      parse_error = (\<lambda>_. ''''), num_to_string = (\<lambda>_. ''1'')\<rparr>"


section \<open>Pairing\<close>

text \<open>The bytes that percent-encoding leaves, and the query of a pairing payload made of them.\<close>

definition unreserved :: string where
  "unreserved = ''ABCDEFGHIJKLMNOPQRSTUVWXYZabcdefghijklmnopqrstuvwxyz0123456789-._~%''"

text \<open>
  What is relied on of the percent-encoding and URL crates: encoding leaves only unreserved
  bytes and is undone by decoding, decoding leaves plain letters and digits alone, and a
  \<open>hermes\<close> URL has the scheme, host and query it is written with.
\<close>

definition pairing_laws :: "'u url_api \<Rightarrow> (string \<Rightarrow> string) \<Rightarrow> string list \<Rightarrow> bool" where
  "pairing_laws api enc texts \<longleftrightarrow>
     (\<forall>s \<in> set texts. set (enc s) \<subseteq> set unreserved \<and> pct_decode api (enc s) = s) \<and>
     (\<forall>w \<in> {''v'', ''1'', ''url'', ''user'', ''name''}. pct_decode api w = w) \<and>
     (\<forall>q. set q \<subseteq> set (unreserved @ ''&='') \<longrightarrow>
        (\<exists>url. url_parse api (''hermes://connect?'' @ q) = Inr url \<and> url_scheme api url = ''hermes'' \<and>
           url_host_str api url = Some ''connect'' \<and> url_query api url = Some q))"

lemma strip_front_fix:
  assumes "\<forall>w \<in> set ws. w = [] \<or> s = [] \<or> hd w \<noteq> hd s"
  shows "strip_front ws s = s"
proof -
  have "find (\<lambda>w. w \<noteq> [] \<and> prefix w s) ws = None"
  proof (subst find_None_iff, rule notI)
    assume "\<exists>w. w \<in> set ws \<and> w \<noteq> [] \<and> prefix w s"
    then obtain w where "w \<in> set ws" "w \<noteq> []" "prefix w s" by blast
    with assms show False by (auto simp: prefix_def)
  qed
  then show ?thesis by (simp add: strip_front.simps [of ws s])
qed

lemma ws_first_bytes:
  "\<forall>w \<in> set ws_seqs. w \<noteq> [] \<and> hd w \<notin> set (unreserved @ ''&='')"
  "\<forall>w \<in> set (map rev ws_seqs). w \<noteq> [] \<and> hd w \<notin> set (unreserved @ ''&='')"
  by code_simp+

lemma trim_fix:
  assumes "s \<noteq> []" and "hd s \<in> set (unreserved @ ''&='')" and "last s \<in> set (unreserved @ ''&='')"
  shows "trim s = s"
proof -
  have "trim_start s = s"
    unfolding trim_start_def using assms(2) ws_first_bytes(1) by (intro strip_front_fix) metis
  moreover have "trim_end s = s"
    unfolding trim_end_def using assms(1,3) ws_first_bytes(2)
    by (subst strip_front_fix) (metis hd_rev rev_is_Nil_conv, simp)
  ultimately show ?thesis by (simp add: trim_def)
qed

lemma split_once_at: "c \<notin> set a \<Longrightarrow> split_once c (a @ c # b) = Some (a, b)"
  by (simp add: split_once_def takeWhile_append dropWhile_append)

lemma split_pair_at: "CHR ''='' \<notin> set a \<Longrightarrow> split_pair (a @ ''='' @ b) = (a, b)"
  by (simp add: split_pair_def split_once_at)

definition query_bytes :: "char set" where
  "query_bytes = set (unreserved @ ''&='')"

definition pairing_query :: "string \<Rightarrow> string \<Rightarrow> string \<Rightarrow> string" where
  "pairing_query b u n = ''v=1&url='' @ b @ ''&user='' @ u @ ''&name='' @ n"

lemma query_literals:
  "set ''v=1&url='' \<subseteq> query_bytes" "set ''&user='' \<subseteq> query_bytes" "set ''&name='' \<subseteq> query_bytes"
  "set unreserved \<subseteq> query_bytes" "CHR ''h'' \<in> query_bytes"
  "CHR ''&'' \<notin> set unreserved" "CHR ''='' \<notin> set unreserved"
  unfolding query_bytes_def by code_simp+

lemma pairing_query_bytes:
  assumes "set b \<subseteq> set unreserved" and "set u \<subseteq> set unreserved" and "set n \<subseteq> set unreserved"
  shows "set (pairing_query b u n) \<subseteq> query_bytes"
  unfolding pairing_query_def set_append
  using assms query_literals(1-4) by (intro Un_least) (assumption | rule subset_trans)+

lemma pairing_query_parts:
  assumes "set b \<subseteq> set unreserved" and "set u \<subseteq> set unreserved" and "set n \<subseteq> set unreserved"
  shows "map split_pair (split_on CHR ''&'' (pairing_query b u n)) =
     [(''v'', ''1''), (''url'', b), (''user'', u), (''name'', n)]"
proof -
  have amp: "CHR ''&'' \<notin> set b" "CHR ''&'' \<notin> set u" "CHR ''&'' \<notin> set n"
    using assms query_literals(6) by blast+
  have "split_on CHR ''&'' (''v=1'' @ CHR ''&'' # (''url='' @ b) @ CHR ''&'' # (''user='' @ u) @ CHR ''&'' # (''name='' @ n)) =
      [''v=1'', ''url='' @ b, ''user='' @ u, ''name='' @ n]"
  proof -
    have "CHR ''&'' \<notin> set ''v=1''" "CHR ''&'' \<notin> set (''url='' @ b)" "CHR ''&'' \<notin> set (''user='' @ u)"
      "CHR ''&'' \<notin> set (''name='' @ n)" using amp by simp_all
    then show ?thesis by (simp only: split_on_append split_on_id not_False_eq_True)
  qed
  moreover have "pairing_query b u n =
      ''v=1'' @ CHR ''&'' # (''url='' @ b) @ CHR ''&'' # (''user='' @ u) @ CHR ''&'' # (''name='' @ n)"
    by (simp add: pairing_query_def)
  moreover have "split_pair ''v=1'' = (''v'', ''1'')" by code_simp
  moreover have "split_pair (''url='' @ x) = (''url'', x)" "split_pair (''user='' @ x) = (''user'', x)"
    "split_pair (''name='' @ x) = (''name'', x)" for x
    using split_pair_at [of "''url''" x] split_pair_at [of "''user''" x] split_pair_at [of "''name''" x] by simp_all
  ultimately show ?thesis by (simp only: list.map)
qed

lemma pairing_trim:
  assumes "set q \<subseteq> query_bytes" and "q \<noteq> []"
  shows "trim (''hermes://connect?'' @ q) = ''hermes://connect?'' @ q"
proof (rule trim_fix)
  show "hd (''hermes://connect?'' @ q) \<in> set (unreserved @ ''&='')"
    using query_literals(5) unfolding query_bytes_def by simp
  show "last (''hermes://connect?'' @ q) \<in> set (unreserved @ ''&='')"
    unfolding last_appendR [OF assms(2)] query_bytes_def [symmetric]
    using assms(1) last_in_set [OF assms(2)] by (rule subsetD)
qed simp

text \<open>
  C28: scanning what the gateway prints pairs with the gateway: for an http or https base URL
  without credentials, the client reads from the pairing payload exactly that base, user and
  display name, whatever characters they hold.
\<close>

theorem pairing_round_trip:
  assumes "pairing_laws api enc [base, user, name]"
    and "url_parse api base = Inr u" and "url_scheme api u \<in> {''http'', ''https''}"
    and "url_username api u = ''''" and "url_password api u = None"
  shows "parse_qr_payload api (pairing_payload enc base user name) = Inr (endpoint_new api u user name)"
proof -
  have enc: "set (enc s) \<subseteq> set unreserved" "pct_decode api (enc s) = s" if "s \<in> {base, user, name}" for s
    using assms(1) that unfolding pairing_laws_def by auto
  have fixed: "pct_decode api w = w" if "w \<in> {''v'', ''1'', ''url'', ''user'', ''name''}" for w
    using assms(1) that unfolding pairing_laws_def by blast
  define q where "q = pairing_query (enc base) (enc user) (enc name)"
  have pay: "pairing_payload enc base user name = ''hermes://connect?'' @ q"
    unfolding pairing_payload_def q_def pairing_query_def by simp
  have e: "set (enc base) \<subseteq> set unreserved" "set (enc user) \<subseteq> set unreserved" "set (enc name) \<subseteq> set unreserved"
    by (rule enc(1), simp)+
  note bytes = pairing_query_bytes [OF e, folded q_def]
  have "set q' \<subseteq> query_bytes \<Longrightarrow>
      \<exists>url. url_parse api (''hermes://connect?'' @ q') = Inr url \<and> url_scheme api url = ''hermes'' \<and>
        url_host_str api url = Some ''connect'' \<and> url_query api url = Some q'" for q'
    using assms(1) unfolding pairing_laws_def query_bytes_def by blast
  from this [OF bytes] obtain url where url: "url_parse api (''hermes://connect?'' @ q) = Inr url"
    "url_scheme api url = ''hermes''" "url_host_str api url = Some ''connect''" "url_query api url = Some q"
    by (elim exE conjE)
  have trim: "trim (''hermes://connect?'' @ q) = ''hermes://connect?'' @ q"
    by (rule pairing_trim [OF bytes]) (simp add: q_def pairing_query_def)
  have fields: "query_fields api q = [(''v'', ''1''), (''url'', base), (''user'', user), (''name'', name)]"
  proof -
    have "query_fields api q =
        map (\<lambda>kv. (pct_decode api (fst kv), pct_decode api (snd kv))) (map split_pair (split_on CHR ''&'' q))"
      by (simp add: query_fields_def comp_def)
    also have "\<dots> = [(''v'', ''1''), (''url'', base), (''user'', user), (''name'', name)]"
      unfolding q_def pairing_query_parts [OF e] by (simp add: fixed enc(2))
    finally show ?thesis .
  qed
  have keys: "last_field ''v'' [(''v'', ''1''), (''url'', base), (''user'', user), (''name'', name)] = Some ''1''"
    "last_field ''url'' [(''v'', ''1''), (''url'', base), (''user'', user), (''name'', name)] = Some base"
    "last_field ''user'' [(''v'', ''1''), (''url'', base), (''user'', user), (''name'', name)] = Some user"
    "last_field ''name'' [(''v'', ''1''), (''url'', base), (''user'', user), (''name'', name)] = Some name"
    by (simp_all add: last_field_def)
  have host: "ascii_lower ''connect'' = ''connect''" by code_simp
  show ?thesis
    unfolding pay parse_qr_payload_def trim url(1)
    using assms(2-5) by (auto simp: url(2-4) fields keys host Let_def)
qed

text \<open>A percent encoding and a URL parser that satisfy the laws, for the witness.\<close>

definition hex_char :: "nat \<Rightarrow> char" where
  "hex_char n = ''0123456789ABCDEF'' ! n"

definition pct_encode_text :: "string \<Rightarrow> string" where
  "pct_encode_text s =
     concat (map (\<lambda>c. if c \<in> set unreserved \<and> c \<noteq> CHR 0x25 then [c]
                      else [CHR 0x25, hex_char (of_char c div 16), hex_char (of_char c mod 16)]) s)"

definition hex_value :: "char \<Rightarrow> nat" where
  "hex_value c = (let n = of_char c in if n < 58 then n - 48 else n - 55)"

fun pct_decode_text :: "string \<Rightarrow> string" where
  "pct_decode_text [] = []"
| "pct_decode_text (c # s) =
     (case s of
        a # b # s' \<Rightarrow> if c = CHR 0x25 then char_of (16 * hex_value a + hex_value b) # pct_decode_text s'
                       else c # pct_decode_text s
      | _ \<Rightarrow> c # pct_decode_text s)"

definition qr_api :: "plain_url url_api" where
  "qr_api = plain_api\<lparr>
     url_parse := (\<lambda>s. if prefix ''hermes://connect?'' s
                       then Inr \<lparr>pu_scheme = ''hermes'', pu_host = ''connect'', pu_path = '''',
                                 pu_query = drop 17 s, pu_pairs = []\<rparr>
                       else Inr \<lparr>pu_scheme = ''http'', pu_host = s, pu_path = '''', pu_query = '''', pu_pairs = []\<rparr>),
     pct_decode := pct_decode_text\<rparr>"

lemma pct_encoded_samples:
  "pct_encode_text ''http://h'' = ''http%3A%2F%2Fh''" "pct_encode_text ''a&b='' = ''a%26b%3D''"
  "pct_encode_text ''f'' = ''f''"
  by (simp_all add: pct_encode_text_def unreserved_def hex_char_def)

lemma pct_round_trip_samples:
  "set (pct_encode_text ''http://h'') \<subseteq> set unreserved" "pct_decode_text (pct_encode_text ''http://h'') = ''http://h''"
  "set (pct_encode_text ''a&b='') \<subseteq> set unreserved" "pct_decode_text (pct_encode_text ''a&b='') = ''a&b=''"
  "set (pct_encode_text ''f'') \<subseteq> set unreserved" "pct_decode_text (pct_encode_text ''f'') = ''f''"
  "pct_decode_text ''v'' = ''v''" "pct_decode_text ''1'' = ''1''" "pct_decode_text ''url'' = ''url''"
  "pct_decode_text ''user'' = ''user''" "pct_decode_text ''name'' = ''name''"
  unfolding pct_encoded_samples by (simp_all add: unreserved_def hex_value_def Let_def char_of_def bit_0)

lemma qr_api_select:
  "pct_decode qr_api = pct_decode_text" "url_scheme qr_api = pu_scheme"
  "url_host_str qr_api u = Some (pu_host u)" "url_query qr_api u = Some (pu_query u)"
  "url_username qr_api u = ''''" "url_password qr_api u = None"
  by (simp_all add: qr_api_def plain_api_def)

lemma qr_api_parse:
  "url_parse qr_api (''hermes://connect?'' @ q) =
     Inr \<lparr>pu_scheme = ''hermes'', pu_host = ''connect'', pu_path = '''', pu_query = q, pu_pairs = []\<rparr>"
  "\<not> prefix ''hermes://connect?'' s \<Longrightarrow> url_parse qr_api s =
     Inr \<lparr>pu_scheme = ''http'', pu_host = s, pu_path = '''', pu_query = '''', pu_pairs = []\<rparr>"
  by (simp_all add: qr_api_def)

lemma qr_api_laws: "pairing_laws qr_api pct_encode_text [''http://h'', ''a&b='', ''f'']"
  unfolding pairing_laws_def qr_api_select(1)
proof (intro conjI)
  show "\<forall>s \<in> set [''http://h'', ''a&b='', ''f''].
      set (pct_encode_text s) \<subseteq> set unreserved \<and> pct_decode_text (pct_encode_text s) = s"
    by (simp only: list.set ball_simps pct_round_trip_samples simp_thms)
  show "\<forall>w \<in> {''v'', ''1'', ''url'', ''user'', ''name''}. pct_decode_text w = w"
    by (simp only: ball_simps pct_round_trip_samples)
  show "\<forall>q. set q \<subseteq> set (unreserved @ ''&='') \<longrightarrow>
        (\<exists>url. url_parse qr_api (''hermes://connect?'' @ q) = Inr url \<and> url_scheme qr_api url = ''hermes'' \<and>
           url_host_str qr_api url = Some ''connect'' \<and> url_query qr_api url = Some q)"
    unfolding qr_api_parse(1) qr_api_select by auto
qed

lemma pairing_round_trip_witness:
  "\<exists>u. parse_qr_payload qr_api (pairing_payload pct_encode_text ''http://h'' ''a&b='' ''f'') =
     Inr (endpoint_new qr_api u ''a&b='' ''f'') \<and> pu_host u = ''http://h''"
proof -
  let ?u = "\<lparr>pu_scheme = ''http'', pu_host = ''http://h'', pu_path = '''', pu_query = '''', pu_pairs = []\<rparr>"
  have "\<not> prefix ''hermes://connect?'' ''http://h''" by code_simp
  then have u: "url_parse qr_api ''http://h'' = Inr ?u" "url_scheme qr_api ?u \<in> {''http'', ''https''}"
    "url_username qr_api ?u = ''''" "url_password qr_api ?u = None"
    by (simp_all add: qr_api_parse(2) qr_api_select)
  have "pu_host ?u = ''http://h''" by simp
  with pairing_round_trip [OF qr_api_laws u] show ?thesis by blast
qed

section \<open>What calls return\<close>

lemma modify_session_conns: "gw_conns (modify_session sid f g) = gw_conns g"
  by (simp add: frame_simps)

lemma reply_ok_lookup [simp]: "gw_lookup (reply_ok c i v g) = gw_lookup g"
  by (simp add: reply_ok_def frame_simps)

lemma handle_title_write:
  assumes "str_at params ''session_id'' = sid" and "get_key params ''title'' = Some (JStr title)"
  shows "\<exists>g1 r. handle_session_title now c i params g =
       reply_ok c i (JObj [(''title'', JStr title), (''pending'', JBool False)]) g1 \<and>
     gw_lookup g1 sid = Some r \<and> gs_title r = title \<and> gw_conns g1 = gw_conns g"
proof -
  define g1 where "g1 = modify_session sid (set_title title) (entry_session now sid g)"
  obtain q where "gw_lookup (entry_session now sid g) sid = Some q"
    by (cases "gw_lookup g sid") (simp_all add: entry_session_def)
  then have "gw_lookup g1 sid = Some (set_title title q)" by (simp add: g1_def lookup_modify_session)
  moreover have "gw_conns g1 = gw_conns g" by (simp add: g1_def frame_simps)
  ultimately show ?thesis
    by (intro exI [of _ g1] exI [of _ "set_title title q"])
      (simp add: handle_session_title_def assms Let_def g1_def [symmetric], simp add: set_title_def)
qed

lemma handle_title_read:
  assumes "str_at params ''session_id'' = sid" and "get_key params ''title'' = None"
    and "gw_lookup g sid = Some r"
  shows "handle_session_title now c i params g =
       reply_ok c i (JObj [(''title'', JStr (gs_title r)), (''pending'', JBool False)]) g"
proof -
  have "entry_session now sid g = g" by (simp add: entry_session_def assms(3))
  then show ?thesis by (simp add: handle_session_title_def assms Let_def)
qed

text \<open>A title that was set is the title that is read, whatever it was before.\<close>

lemma title_round_trip:
  assumes "gw_conns g c = Some cn"
  shows "\<exists>g1 g2. session_title (gw_call sj now c) sid (Some title) g = (Inr \<lparr>st_title = title, st_pending = False\<rparr>, g1) \<and>
     session_title (gw_call sj now' c) sid None g1 = (Inr \<lparr>st_title = title, st_pending = False\<rparr>, g2)"
proof -
  let ?v = "JObj [(''title'', JStr title), (''pending'', JBool False)]"
  define p1 where "p1 = set_opt ''title'' (Some title) (JObj [(''session_id'', JStr sid)])"
  define p2 where "p2 = set_opt ''title'' None (JObj [(''session_id'', JStr sid)])"
  have p: "str_at p1 ''session_id'' = sid" "get_key p1 ''title'' = Some (JStr title)"
    "str_at p2 ''session_id'' = sid" "get_key p2 ''title'' = None"
    by (simp_all add: p1_def p2_def set_opt_def set_key_def)
  from handle_title_write [OF p(1,2)] obtain g1 r
    where g1: "dispatch_method now ''session.title'' c (JStr ''1'') p1 g = reply_ok c (JStr ''1'') ?v g1"
      "gw_lookup g1 sid = Some r" "gs_title r = title" "gw_conns g1 c = Some cn"
    using assms by (metis dispatch_simps(1))
  have l2: "gw_lookup (reply_ok c (JStr ''1'') ?v g1) sid = Some r" using g1(2) by simp
  obtain cn2 where c2: "gw_conns (reply_ok c (JStr ''1'') ?v g1) c = Some cn2"
    using gw_send_conns [OF g1(4)] by (simp add: reply_ok_def)
  have d2: "dispatch_method now' ''session.title'' c (JStr ''1'') p2 (reply_ok c (JStr ''1'') ?v g1) =
      reply_ok c (JStr ''1'') ?v (reply_ok c (JStr ''1'') ?v g1)"
    using handle_title_read [OF p(3,4) l2] g1(3) by (simp add: dispatch_simps(1))
  have "session_title_from_value ?v = \<lparr>st_title = title, st_pending = False\<rparr>"
    by (simp add: session_title_from_value_def)
  with gw_call_reply [OF g1(1,4), of sj] gw_call_reply [OF d2 c2, of sj] show ?thesis
    unfolding session_title_def p1_def [symmetric] p2_def [symmetric]
    by (simp add: call_and_parse_def)
qed

text \<open>
  A gateway that was restarted counts its session ids from 1 again: the next created session
  takes the id of one that a client resumed, and its record and log replace the old ones.
\<close>

lemma created_session_replaces_resumed:
  assumes "g = gw_run [Sec_Entry ''0'' ''fake-session-1'', Sec_Record ''fake-session-1'' ''message.start'' JNull]
                 (gateway_new conf fx)"
    and "create_record now title g = (sid, g')"
  shows "sid = ''fake-session-1'' \<and>
     map_option (length \<circ> gs_events) (gw_lookup g sid) = Some 1 \<and>
     gw_lookup g' sid = Some (session_new sid title now 1)"
proof -
  have "session_name 1 = ''fake-session-1''"
    by (simp add: session_name_def show_nat.simps digit_def char_of_def bit_0)
  then show ?thesis
    using assms
    by (auto simp: create_record_def Let_def insert_session_def gateway_new_def entry_session_def
        next_seq_and_record_def modify_session_def push_event_def session_new_def)
qed

end
