(* ===== verification/Tools.thy ===== *)
theory Tools
  imports Core_Extras Gateway_Client
begin

text \<open>
  The command line tools: the protocol probe (\<open>hermes_core/src/bin/hermes-probe.rs\<close>) and the
  flags of the stand-in gateway (\<open>tools/fake_gateway/src/main.rs\<close>). An exit of the process is
  \<open>Inl\<close> with its code; what they print on the error stream is left out.
\<close>

section \<open>Flags of the gateway\<close>

record gw_args =
  ga_port :: "16 word"
  ga_user :: string
  ga_password :: string
  ga_fixture :: string
  ga_synthetic :: string
  ga_clarify :: "string option"
  ga_drop_after :: "nat option"
  ga_fail_profiles :: nat
  ga_name :: string

text \<open>The defaults: the two fixture directories, and whether the clarify file exists.\<close>

definition gw_default_args :: "string \<Rightarrow> string \<Rightarrow> bool \<Rightarrow> gw_args" where
  "gw_default_args core_fixtures crate_fixtures has_clarify =
     \<lparr>ga_port = 9123, ga_user = ''hermo'', ga_password = ''hermo'',
      ga_fixture = join_path core_fixtures ''events.jsonl'',
      ga_synthetic = join_path core_fixtures ''events_synthetic.jsonl'',
      ga_clarify = (if has_clarify then Some (join_path crate_fixtures ''clarify_synthetic.jsonl'') else None),
      ga_drop_after = None, ga_fail_profiles = 0, ga_name = ''fake''\<rparr>"

text \<open>A flag that takes a value: \<open>None\<close> when the value is no number of the wanted range.\<close>

definition gw_set_flag :: "string \<Rightarrow> string \<Rightarrow> gw_args \<Rightarrow> gw_args option" where
  "gw_set_flag flag v a =
     (if flag = ''--port'' then map_option (\<lambda>n. a\<lparr>ga_port := of_nat n\<rparr>) (parse_bounded (2 ^ 16) v)
      else if flag = ''--user'' then Some (a\<lparr>ga_user := v\<rparr>)
      else if flag = ''--password'' then Some (a\<lparr>ga_password := v\<rparr>)
      else if flag = ''--fixture'' then Some (a\<lparr>ga_fixture := v\<rparr>)
      else if flag = ''--synthetic'' then Some (a\<lparr>ga_synthetic := v\<rparr>)
      else if flag = ''--clarify'' then Some (a\<lparr>ga_clarify := Some v\<rparr>)
      else if flag = ''--fail-profiles'' then map_option (\<lambda>n. a\<lparr>ga_fail_profiles := n\<rparr>) (parse_usize v)
      else if flag = ''--drop-after'' then map_option (\<lambda>n. a\<lparr>ga_drop_after := Some n\<rparr>) (parse_usize v)
      else if flag = ''--name'' then Some (a\<lparr>ga_name := v\<rparr>)
      else None)"

definition gw_value_flags :: "string list" where
  "gw_value_flags =
     [''--port'', ''--user'', ''--password'', ''--fixture'', ''--synthetic'', ''--clarify'',
      ''--fail-profiles'', ''--drop-after'', ''--name'']"

fun gw_parse_args :: "string list \<Rightarrow> gw_args \<Rightarrow> nat + gw_args" where
  "gw_parse_args [] a = Inr a"
| "gw_parse_args (flag # rest) a =
     (if flag \<in> set gw_value_flags
      then (case rest of
              [] \<Rightarrow> Inl 2
            | v # rest' \<Rightarrow>
                (case gw_set_flag flag v a of None \<Rightarrow> Inl 2 | Some a' \<Rightarrow> gw_parse_args rest' a'))
      else if flag = ''--help'' then Inl 0
      else Inl 2)"

definition gw_config_of :: "gw_args \<Rightarrow> gw_config" where
  "gw_config_of a =
     \<lparr>gc_port = ga_port a, gc_user = ga_user a, gc_password = ga_password a,
      gc_fixture = ga_fixture a, gc_synthetic = Some (ga_synthetic a), gc_clarify = ga_clarify a,
      gc_fail_profiles = of_nat (ga_fail_profiles a), gc_drop_after = ga_drop_after a\<rparr>"

text \<open>
  \<open>start\<close> after the socket is bound to \<open>addr\<close>: the fixtures are loaded and the state built;
  \<open>main\<close> then prints the base URL and the pairing payload with the display name.
\<close>

definition gw_start ::
  "line_reader \<Rightarrow> serde \<Rightarrow> (string \<Rightarrow> string) \<Rightarrow> string \<Rightarrow> gw_config \<Rightarrow> string + gateway \<times> string \<times> string" where
  "gw_start rd sj enc addr conf =
     (case (case gc_synthetic conf of
              Some synthetic \<Rightarrow> load_with_synthetic rd sj (gc_fixture conf) synthetic (gc_clarify conf)
            | None \<Rightarrow> fixtures_load rd sj (gc_fixture conf)) of
        Inl e \<Rightarrow> Inl e
      | Inr loaded \<Rightarrow>
          (let base = ''http://'' @ addr
           in Inr (gateway_new conf loaded, base, pairing_payload enc base (gc_user conf) ''fake'')))"

definition gw_main ::
  "line_reader \<Rightarrow> serde \<Rightarrow> (string \<Rightarrow> string) \<Rightarrow> string \<Rightarrow> gw_args \<Rightarrow> string list
     \<Rightarrow> nat + gateway \<times> string list" where
  "gw_main rd sj enc addr defaults argv =
     (case gw_parse_args argv defaults of
        Inl code \<Rightarrow> Inl code
      | Inr a \<Rightarrow>
          (case gw_start rd sj enc addr (gw_config_of a) of
             Inl _ \<Rightarrow> Inl 1
           | Inr (g, base, _) \<Rightarrow>
               Inr (g, [base, pairing_payload enc base (ga_user a) (ga_name a)])))"

section \<open>Flags of the probe\<close>

record probe_args =
  pa_url :: string
  pa_token :: "string option"
  pa_user :: "string option"
  pa_password_file :: "string option"
  pa_prompt :: string
  pa_record :: "string option"
  pa_data_dir :: string
  pa_verbose :: bool

definition probe_default_args :: "string \<Rightarrow> probe_args" where
  "probe_default_args temp_dir =
     \<lparr>pa_url = '''', pa_token = None, pa_user = None, pa_password_file = None, pa_prompt = '''',
      pa_record = None, pa_data_dir = join_path temp_dir ''hermo-probe-data'', pa_verbose = False\<rparr>"

definition probe_set_flag :: "string \<Rightarrow> string \<Rightarrow> probe_args \<Rightarrow> probe_args" where
  "probe_set_flag flag v a =
     (if flag = ''--url'' then a\<lparr>pa_url := v\<rparr>
      else if flag = ''--token'' then a\<lparr>pa_token := Some v\<rparr>
      else if flag = ''--user'' then a\<lparr>pa_user := Some v\<rparr>
      else if flag = ''--password-file'' then a\<lparr>pa_password_file := Some v\<rparr>
      else if flag = ''--prompt'' then a\<lparr>pa_prompt := v\<rparr>
      else if flag = ''--record'' then a\<lparr>pa_record := Some v\<rparr>
      else a\<lparr>pa_data_dir := v\<rparr>)"

definition probe_value_flags :: "string list" where
  "probe_value_flags =
     [''--url'', ''--token'', ''--user'', ''--password-file'', ''--prompt'', ''--record'', ''--data-dir'']"

fun probe_parse_args :: "string list \<Rightarrow> probe_args \<Rightarrow> nat + probe_args" where
  "probe_parse_args [] a = Inr a"
| "probe_parse_args (flag # rest) a =
     (if flag \<in> set probe_value_flags
      then (case rest of [] \<Rightarrow> Inl 2 | v # rest' \<Rightarrow> probe_parse_args rest' (probe_set_flag flag v a))
      else if flag = ''--verbose-http'' then probe_parse_args rest (a\<lparr>pa_verbose := True\<rparr>)
      else Inl 2)"

definition probe_check_args :: "probe_args \<Rightarrow> nat + probe_args" where
  "probe_check_args a =
     (if pa_url a = '''' then Inl 2
      else if pa_prompt a = '''' then Inl 2
      else if pa_password_file a \<noteq> None \<and> pa_user a = None then Inl 2
      else Inr a)"

text \<open>The environment variable, then the file, trimmed.\<close>

definition read_password ::
  "string option \<Rightarrow> (string \<Rightarrow> string + string) \<Rightarrow> string option \<Rightarrow> string + string" where
  "read_password env_var read_file password_file =
     (case env_var of
        Some p \<Rightarrow> if p \<noteq> '''' then Inr p
                   else (case password_file of
                           Some path \<Rightarrow> (case read_file path of Inl e \<Rightarrow> Inl e | Inr s \<Rightarrow> Inr (trim s))
                         | None \<Rightarrow> Inl ''--user requires HERMO_PASSWORD or --password-file'')
      | None \<Rightarrow> (case password_file of
                   Some path \<Rightarrow> (case read_file path of Inl e \<Rightarrow> Inl e | Inr s \<Rightarrow> Inr (trim s))
                 | None \<Rightarrow> Inl ''--user requires HERMO_PASSWORD or --password-file''))"

section \<open>The sink of the probe\<close>

record probe_sink =
  ps_key :: "string option"
  ps_final :: "string option"
  ps_record :: "json list option"

text \<open>An assistant row's text and whether it still streams.\<close>

definition row_text :: "serde \<Rightarrow> string \<Rightarrow> (string \<times> bool) option" where
  "row_text sj js =
     (case from_str sj js of
        None \<Rightarrow> None
      | Some v \<Rightarrow>
          (case Option.bind (get_key v ''kind'') as_str of
             None \<Rightarrow> None
           | Some kd \<Rightarrow>
               if kd \<noteq> ''assistant'' then None
               else (case Option.bind (get_key v ''text'') as_str of
                       None \<Rightarrow> None
                     | Some t \<Rightarrow> Some (t, bool_at v ''streaming''))))"

definition change_kind_name :: "change_kind \<Rightarrow> string" where
  "change_kind_name k =
     (case k of
        Kind_RowAppended \<Rightarrow> ''RowAppended''
      | Kind_RowUpdated \<Rightarrow> ''RowUpdated''
      | Kind_Reset \<Rightarrow> ''Reset''
      | Kind_HeaderUpdated \<Rightarrow> ''HeaderUpdated'')"

definition record_line :: "serde \<Rightarrow> change_dto \<Rightarrow> json" where
  "record_line sj d =
     JObj [(''kind'', JStr ''change''), (''session_key'', JStr (dto_key d)),
           (''change_type'', JStr (change_kind_name (dto_kind d))),
           (''row'', unwrap_or JNull (from_str sj (dto_row_json d)))]"

definition probe_on_transcript :: "serde \<Rightarrow> change_dto \<Rightarrow> probe_sink \<Rightarrow> probe_sink" where
  "probe_on_transcript sj d ps =
     (let ps1 = ps\<lparr>ps_record := map_option (\<lambda>ls. ls @ [record_line sj d]) (ps_record ps)\<rparr>
      in if ps_key ps \<noteq> Some (dto_key d) then ps1
         else (case row_text sj (dto_row_json d) of
                 Some (text, is_open) \<Rightarrow> if is_open then ps1 else ps1\<lparr>ps_final := Some text\<rparr>
               | None \<Rightarrow> ps1))"

definition probe_sink_call :: "serde \<Rightarrow> nat \<Rightarrow> nat \<times> sink_call \<Rightarrow> probe_sink \<Rightarrow> probe_sink" where
  "probe_sink_call sj snk call ps =
     (case call of
        (s, On_Transcript d) \<Rightarrow> if s = snk then probe_on_transcript sj d ps else ps
      | (s, On_Connection _) \<Rightarrow> ps)"

section \<open>A run of the probe\<close>

text \<open>
  One step of \<open>main\<close>: an operation of the core whose error ends the process with a code, and
  whose panic is a panic.
\<close>

definition or_exit :: "nat \<Rightarrow> ('w, 'a) act \<Rightarrow> ('a \<Rightarrow> 'w \<Rightarrow> (nat + 'b) panics) \<Rightarrow> 'w \<Rightarrow> (nat + 'b) panics" where
  "or_exit code m k w =
     (case m w of
        None \<Rightarrow> None
      | Some (Inl _, w') \<Rightarrow> Some (Inl code)
      | Some (Inr x, w') \<Rightarrow> k x w')"

text \<open>The pairing payload it makes of \<open>--url\<close> and \<open>--user\<close>: the URL is encoded, the user is not.\<close>

definition probe_payload :: "(string \<Rightarrow> string) \<Rightarrow> string \<Rightarrow> string option \<Rightarrow> string" where
  "probe_payload form_enc url user =
     ''hermes://connect?v=1&url='' @ form_enc url @ ''&user='' @ unwrap_or ''probe'' user @ ''&name=probe''"

definition probe_pair ::
  "'u core_env \<Rightarrow> (string \<Rightarrow> string) \<Rightarrow> probe_args \<Rightarrow> ('u core \<Rightarrow> (nat + 'b) panics) \<Rightarrow> 'u core \<Rightarrow> (nat + 'b) panics" where
  "probe_pair env form_enc a k w =
     (if saved_endpoint env w \<noteq> None then k w
      else if pa_token a = None \<and> pa_user a = None then Some (Inl 2)
      else or_exit 1 (pair env (probe_payload form_enc (pa_url a) (pa_user a))) (\<lambda>_. k) w)"

definition probe_login ::
  "'u core_env \<Rightarrow> 'u net \<Rightarrow> string + string \<Rightarrow> probe_args \<Rightarrow> ('u core \<Rightarrow> (nat + 'b) panics) \<Rightarrow> 'u core \<Rightarrow> (nat + 'b) panics" where
  "probe_login env net password a k w =
     (if pa_user a = None then k w
      else case password of
             Inl _ \<Rightarrow> Some (Inl 2)
           | Inr pw \<Rightarrow> or_exit 1 (login env net pw) (\<lambda>_. k) w)"

text \<open>
  What the sink holds in the end: it was given the key of the session after the first
  \<open>n\<close> calls, and saw every later call to its handle. The wait loop only decides when to look.
\<close>

definition probe_sink_after :: "serde \<Rightarrow> nat \<Rightarrow> string \<Rightarrow> nat \<Rightarrow> bool \<Rightarrow> (nat \<times> sink_call) list \<Rightarrow> probe_sink" where
  "probe_sink_after sj snk key n recording calls =
     fold (probe_sink_call sj snk) (drop n calls)
       ((fold (probe_sink_call sj snk) (take n calls)
           \<lparr>ps_key = None, ps_final = None, ps_record = (if recording then Some [] else None)\<rparr>)\<lparr>ps_key := Some key\<rparr>)"

definition probe_session ::
  "'u core_env \<Rightarrow> 'u net \<Rightarrow> 'u rpc \<Rightarrow> ('u core \<Rightarrow> 'u core) \<Rightarrow> nat \<Rightarrow> probe_args \<Rightarrow> 'u core \<Rightarrow> (nat + json) panics" where
  "probe_session env net rpc waited snk a =
     or_exit 1 (connect_inner env net snk) (\<lambda>_.
       or_exit 1 (open_session env rpc None 48) (\<lambda>key w1.
         or_exit 1 (send env rpc key (pa_prompt a)) (\<lambda>_ w2.
           (let w3 = disconnect env (waited w2);
                ps = probe_sink_after (ce_json env) snk key (length (sink_calls w1)) (pa_record a \<noteq> None)
                       (sink_calls w3)
            in case ps_final ps of
                 Some text \<Rightarrow> Some (Inr (JObj [(''final'', JStr text), (''session'', JStr key)]))
               | None \<Rightarrow> Some (Inl 1))) w1))"

definition probe_main ::
  "'u core_env \<Rightarrow> 'u net \<Rightarrow> 'u rpc \<Rightarrow> (string \<Rightarrow> string) \<Rightarrow> ('u core \<Rightarrow> 'u core) \<Rightarrow> nat \<Rightarrow> bool \<Rightarrow> files
     \<Rightarrow> string + string \<Rightarrow> string \<Rightarrow> string list \<Rightarrow> (nat + json) panics" where
  "probe_main env net rpc form_enc waited snk auth_ok fs password temp_dir argv =
     (case probe_parse_args argv (probe_default_args temp_dir) of
        Inl code \<Rightarrow> Some (Inl code)
      | Inr a \<Rightarrow>
          (case probe_check_args a of
             Inl code \<Rightarrow> Some (Inl code)
           | Inr a \<Rightarrow>
               (let env' = env\<lparr>ce_dir := pa_data_dir a\<rparr>
                in probe_pair env' form_enc a
                     (probe_login env' net password a (probe_session env' net rpc waited snk a))
                     (core_new env' auth_ok fs))))"

section \<open>Properties\<close>

text \<open>The flags of the gateway and their meaning: written out and read again, they are the same.\<close>

definition gw_print_args :: "gw_args \<Rightarrow> string list" where
  "gw_print_args a =
     [''--port'', show_nat (unat (ga_port a)), ''--user'', ga_user a, ''--password'', ga_password a,
      ''--fixture'', ga_fixture a, ''--synthetic'', ga_synthetic a] @
     (case ga_clarify a of Some p \<Rightarrow> [''--clarify'', p] | None \<Rightarrow> []) @
     (case ga_drop_after a of Some n \<Rightarrow> [''--drop-after'', show_nat n] | None \<Rightarrow> []) @
     [''--fail-profiles'', show_nat (ga_fail_profiles a), ''--name'', ga_name a]"

lemma digits_value_append:
  "digits_value acc (xs @ ys) =
     (case digits_value acc xs of None \<Rightarrow> None | Some n \<Rightarrow> digits_value n ys)"
  by (induction xs arbitrary: acc) (auto split: option.split)

lemma digit_value_digit: "d < 10 \<Longrightarrow> digit_value (digit d) = Some d"
  by (simp add: digit_value_def of_char_digit Let_def)

lemma digits_value_show: "digits_value 0 (show_nat n) = Some n"
proof (induction n rule: show_nat.induct)
  case (1 n)
  then show ?case
    by (cases "n < 10") (simp_all add: show_nat.simps [of n] digits_value_append digit_value_digit)
qed

lemma show_nat_digits: "c \<in> set (show_nat n) \<Longrightarrow> digit_value c \<noteq> None"
proof (induction n rule: show_nat.induct)
  case (1 n)
  then show ?case
    by (cases "n < 10") (auto simp: show_nat.simps [of n] digit_value_digit)
qed

lemma parse_bounded_show:
  assumes "n < bound"
  shows "parse_bounded bound (show_nat n) = Some n"
proof -
  obtain c cs where s: "show_nat n = c # cs" using show_nat_nonempty by (cases "show_nat n") blast+
  have "digit_value CHR ''+'' = None" by code_simp
  with show_nat_digits [of c n] s have "c \<noteq> CHR ''+''" by auto
  with s assms digits_value_show [of n] show ?thesis by (simp add: parse_bounded_def Let_def)
qed

lemma gw_parse_flag:
  "flag \<in> set gw_value_flags \<Longrightarrow> gw_set_flag flag v a = Some a' \<Longrightarrow>
   gw_parse_args (flag # v # rest) a = gw_parse_args rest a'"
  by simp

lemma gw_args_round_trip:
  assumes "ga_fail_profiles a < 2 ^ 64" and "\<forall>n. ga_drop_after a = Some n \<longrightarrow> n < 2 ^ 64"
  shows "gw_parse_args (gw_print_args a) (gw_default_args core crate False) = Inr a"
proof -
  have port: "parse_bounded (2 ^ 16) (show_nat (unat (ga_port a))) = Some (unat (ga_port a))"
    by (rule parse_bounded_show) (use unsigned_less [of "ga_port a"] in simp)
  show ?thesis
    using assms port
    by (cases a; cases "ga_clarify a"; cases "ga_drop_after a")
      (simp_all add: gw_print_args_def gw_default_args_def gw_value_flags_def gw_set_flag_def parse_usize_def
        parse_bounded_show)
qed

text \<open>Only a sealed assistant row of the probe's own session becomes the final text.\<close>

lemma final_is_sealed_row:
  assumes "ps_final (probe_on_transcript sj d ps) \<noteq> ps_final ps"
  shows "ps_key ps = Some (dto_key d) \<and>
     (\<exists>t. row_text sj (dto_row_json d) = Some (t, False) \<and> ps_final (probe_on_transcript sj d ps) = Some t)"
  using assms by (auto simp: probe_on_transcript_def Let_def split: if_splits option.splits prod.splits)

text \<open>
  The row that \<open>message.interim\<close> seals in the middle of a turn is one, so the probe can print
  an interim text as the final one.
\<close>

lemma interim_row_taken_for_final:
  assumes "\<And>k. from_str sj (to_compact_string sj (row_payload k)) = Some (row_payload k)"
    and "streaming r = Some i" and "i < length (r_rows r)"
    and "kind (r_rows r ! i) = Assistant slot True u warn" and "bool_at payload ''already_streamed''"
    and "on_message_interim r payload = (r', changes)" and "ps_key ps = Some key"
  shows "changes = [RowUpdated i] \<and>
     ps_final (probe_on_transcript sj (change_to_dto sj key (RowUpdated i) (r_rows r') title) ps) = Some slot"
proof -
  have "kind (r_rows r' ! i) = Assistant slot False u warn" "i < length (r_rows r')" "changes = [RowUpdated i]"
    using assms(2-6) by (auto simp: on_message_interim_def modify_kind_def Let_def)
  with assms(1) [of "Assistant slot False u warn"] assms(7) show ?thesis
    by (simp add: probe_on_transcript_def row_text_def row_json_def row_at_def)
qed

text \<open>
  The probe does not encode the user: the part after an ampersand is read as another field, so
  that a user \<open>a&user=b\<close> pairs as \<open>b\<close>.
\<close>

lemma probe_user_is_not_encoded:
  "map split_pair (split_on CHR ''&'' (drop 17 (probe_payload (\<lambda>_. ''h'') ''x'' (Some ''a&user=b'')))) =
     [(''v'', ''1''), (''url'', ''h''), (''user'', ''a''), (''user'', ''b''), (''name'', ''probe'')] \<and>
   last_field ''user'' [(''v'', ''1''), (''url'', ''h''), (''user'', ''a''), (''user'', ''b''), (''name'', ''probe'')] =
     Some ''b''"
  by code_simp

end
