(* ===== verification/Test_Server.thy ===== *)
theory Test_Server
  imports Gateway_Client
begin

text \<open>
  The HTTP server of the auth client's unit tests (\<open>hermes_core/src/auth/test_http_server.rs\<close>):
  static routes, a cookie gate, and a counter per kind of route, which the tests take for
  the truth about what the client did. Sockets are lists of reads as in \<open>Gateway_Http\<close>; the
  names of status codes are those of the HTTP crate (the argument \<open>reason\<close>).
\<close>

section \<open>Routes\<close>

datatype route_kind =
    Rk_Status | Rk_Login | Rk_Ticket | Rk_Me | Rk_Logout | Rk_Denied | Rk_Profiles

record test_route =
  tr_kind :: route_kind
  tr_status :: nat
  tr_body :: json
  tr_set_cookie :: "string option"
  tr_require_cookie :: "string option"

definition route_plain :: "route_kind \<Rightarrow> nat \<Rightarrow> json \<Rightarrow> test_route" where
  "route_plain k status body =
     \<lparr>tr_kind = k, tr_status = status, tr_body = body, tr_set_cookie = None, tr_require_cookie = None\<rparr>"

definition route_status :: "nat \<Rightarrow> json \<Rightarrow> test_route" where
  "route_status status body = route_plain Rk_Status status body"

definition route_login_ok :: test_route where
  "route_login_ok =
     (route_plain Rk_Login 200 (JObj [(''ok'', JBool True), (''next'', JStr ''/'')]))
       \<lparr>tr_set_cookie := Some ''hermes_session_at=test-access-cookie; Path=/''\<rparr>"

definition route_login_status :: "nat \<Rightarrow> test_route" where
  "route_login_status status = route_plain Rk_Login status (detail ''invalid credentials'')"

definition route_ticket_gated :: test_route where
  "route_ticket_gated =
     (route_plain Rk_Ticket 200
        (JObj [(''ticket'', JStr ''test-ticket-1''), (''ttl_seconds'', JNum (IntNum 30))]))
       \<lparr>tr_require_cookie := Some ''hermes_session_at=test-access-cookie''\<rparr>"

definition route_ticket_status :: "nat \<Rightarrow> test_route" where
  "route_ticket_status status = route_plain Rk_Ticket status (detail ''unauthorized'')"

definition route_me_ok :: test_route where
  "route_me_ok =
     route_plain Rk_Me 200 (JObj [(''username'', JStr ''hermo-test''), (''provider'', JStr ''basic'')])"

definition route_logout_ok :: test_route where
  "route_logout_ok = route_plain Rk_Logout 200 (JObj [(''ok'', JBool True)])"

definition route_profiles_ok :: test_route where
  "route_profiles_ok = route_plain Rk_Profiles 200 (JObj [(''profiles'', JArr [])])"

definition route_profiles_status :: "nat \<Rightarrow> test_route" where
  "route_profiles_status status = route_plain Rk_Profiles status (detail ''unauthorized'')"

definition kind_for_path :: "string \<Rightarrow> route_kind option" where
  "kind_for_path path =
     (if path = ''/api/status'' then Some Rk_Status
      else if path = ''/auth/password-login'' then Some Rk_Login
      else if path = ''/api/auth/ws-ticket'' then Some Rk_Ticket
      else if path = ''/api/auth/me'' then Some Rk_Me
      else if path = ''/auth/logout'' then Some Rk_Logout
      else if path = ''/api/profiles'' then Some Rk_Profiles
      else None)"

section \<open>Counters and answers\<close>

type_synonym route_counts = "route_kind \<rightharpoonup> nat"

definition count_hit :: "route_kind \<Rightarrow> route_counts \<Rightarrow> route_counts" where
  "count_hit k counts = counts(k \<mapsto> unwrap_or 0 (counts k) + 1)"

definition ts_count :: "route_counts \<Rightarrow> route_kind \<Rightarrow> nat" where
  "ts_count counts k = unwrap_or 0 (counts k)"

text \<open>A gated route wants its cookie on the wire.\<close>

definition gate_open :: "test_route \<Rightarrow> string \<Rightarrow> bool" where
  "gate_open r cookie_hdr =
     (case tr_require_cookie r of None \<Rightarrow> True | Some required \<Rightarrow> contains_str required cookie_hdr)"

text \<open>A status with its name, the cookie it sets, and the body.\<close>

type_synonym test_answer = "nat \<times> string \<times> string option \<times> json"

definition ts_answer ::
  "(nat \<Rightarrow> string option) \<Rightarrow> test_route list \<Rightarrow> string \<Rightarrow> string \<Rightarrow> route_counts \<Rightarrow> test_answer \<times> route_counts" where
  "ts_answer reason routes path cookie_hdr counts =
     (case Option.bind (kind_for_path path) (\<lambda>k. find (\<lambda>r. tr_kind r = k) routes) of
        Some r \<Rightarrow>
          (if \<not> gate_open r cookie_hdr
           then ((401, ''Unauthorized'', None, detail ''unauthorized: missing session cookie''),
                 count_hit Rk_Denied counts)
           else ((tr_status r, unwrap_or '''' (reason (tr_status r)), tr_set_cookie r, tr_body r),
                 count_hit (tr_kind r) counts))
      | None \<Rightarrow> ((404, ''Not Found'', None, detail ''no such route''), counts))"

definition ts_response :: "serde \<Rightarrow> test_answer \<Rightarrow> string" where
  "ts_response sj ans =
     (let (status, name, cookie, body) = ans; body_text = to_compact_string sj body
      in ''HTTP/1.1 '' @ show_nat status @ '' '' @ name @ crlf @
         ''Content-Type: application/json'' @ crlf @
         (case cookie of Some c \<Rightarrow> ''Set-Cookie: '' @ c @ crlf | None \<Rightarrow> '''') @
         ''Content-Length: '' @ show_nat (length body_text) @ crlf @
         ''Connection: close'' @ crlf @ crlf @ body_text)"

section \<open>One exchange\<close>

text \<open>A header by either of the two spellings the server knows.\<close>

definition header_after :: "string \<Rightarrow> string \<Rightarrow> string \<Rightarrow> string option" where
  "header_after upper lower head =
     find_map (\<lambda>l. case strip_prefix upper l of Some v \<Rightarrow> Some v | None \<Rightarrow> strip_prefix lower l)
       (split_crlf head)"

definition ts_content_length :: "string \<Rightarrow> nat" where
  "ts_content_length head =
     unwrap_or 0 (Option.bind (header_after ''Content-Length: '' ''content-length: '' head)
                    (\<lambda>v. parse_usize (trim v)))"

definition ts_path :: "string \<Rightarrow> string" where
  "ts_path head =
     hd (split_on CHR ''?'' (word_at 1 (split_whitespace (hd (split_crlf head)))))"

definition ts_cookie :: "string \<Rightarrow> string" where
  "ts_cookie head = unwrap_or '''' (header_after ''Cookie: '' ''cookie: '' head)"

text \<open>The body is read and dropped; a test build checks the sum of its length for overflow.\<close>

definition serve_one ::
  "serde \<Rightarrow> (nat \<Rightarrow> string option) \<Rightarrow> (string \<Rightarrow> string) \<Rightarrow> test_route list \<Rightarrow> reads \<Rightarrow> route_counts
     \<Rightarrow> (string + string) panics \<times> route_counts" where
  "serve_one sj reason lossy routes rs counts =
     (case read_head [] rs of
        Inl e \<Rightarrow> (Some (Inl e), counts)
      | Inr None \<Rightarrow> (Some (Inr ''''), counts)
      | Inr (Some (pos, data, rs')) \<Rightarrow>
          (let head = lossy (take pos data); body_end = pos + 4 + ts_content_length head
           in if usize_bound \<le> body_end then (panic, counts)
              else case read_body body_end data rs' of
                     Inl e \<Rightarrow> (Some (Inl e), counts)
                   | Inr _ \<Rightarrow>
                       (let (ans, counts') = ts_answer reason routes (ts_path head) (ts_cookie head) counts
                        in (Some (Inr (ts_response sj ans)), counts'))))"

section \<open>The auth client at this server\<close>

record test_world =
  tw_counts :: route_counts
  tw_cookies :: "(string \<times> string) list"

definition test_http :: "'u url_api \<Rightarrow> (nat \<Rightarrow> string option) \<Rightarrow> test_route list \<Rightarrow> ('u, test_world) http_stack" where
  "test_http api reason routes req w =
     (let ((status, _, cookie, body), counts) =
            ts_answer reason routes (url_path api (rq_url req)) (cookie_header (tw_cookies w)) (tw_counts w)
      in (Http_Response status (Inr body),
          \<lparr>tw_counts = counts,
           tw_cookies = (case cookie of Some c \<Rightarrow> set_cookie c (tw_cookies w) | None \<Rightarrow> tw_cookies w)\<rparr>))"

section \<open>The counters tell what happened\<close>

text \<open>A request is counted once, under its route or as denied, unless no route matches.\<close>

lemma ts_answer_counts_once:
  assumes "ts_answer reason routes path ck counts = ((status, name, cookie, body), counts')"
  shows "counts' = counts \<and> status = 404 \<or>
    (\<exists>k r. kind_for_path path = Some k \<and> find (\<lambda>r. tr_kind r = k) routes = Some r \<and>
       (if gate_open r ck then counts' = count_hit k counts \<and> status = tr_status r \<and> body = tr_body r
        else counts' = count_hit Rk_Denied counts \<and> status = 401))"
proof (cases "Option.bind (kind_for_path path) (\<lambda>k. find (\<lambda>r. tr_kind r = k) routes)")
  case None
  with assms show ?thesis by (simp add: ts_answer_def)
next
  case (Some r)
  then obtain k where k: "kind_for_path path = Some k" "find (\<lambda>r. tr_kind r = k) routes = Some r"
    by (auto simp: bind_eq_Some_conv)
  then have "tr_kind r = k" by (simp add: find_Some_iff) blast
  with assms Some k show ?thesis by (auto simp: ts_answer_def split: if_splits)
qed

lemma ts_count_hit: "ts_count (count_hit k counts) j = ts_count counts j + (if j = k then 1 else 0)"
  by (simp add: ts_count_def count_hit_def)

text \<open>The calls of the tests: login, ticket and logout, with the routes that answer them.\<close>

datatype test_call = Call_Login string string | Call_Ticket | Call_Logout

definition gated_routes :: "test_route list" where
  "gated_routes = [route_login_ok, route_ticket_gated, route_logout_ok]"

definition call_once ::
  "'u url_api \<Rightarrow> (nat \<Rightarrow> string option) \<Rightarrow> string \<Rightarrow> test_call \<Rightarrow> test_world \<Rightarrow> (core_error + unit) \<times> test_world" where
  "call_once api reason base call w =
     (let http = test_http api reason gated_routes
      in case call of
           Call_Login user pw \<Rightarrow> auth_login api http (\<lambda>w. w) base user pw w
         | Call_Ticket \<Rightarrow>
             (case mint_ticket api http (\<lambda>w. w) base w of
                (Inl e, w') \<Rightarrow> (Inl e, w') | (Inr _, w') \<Rightarrow> (Inr (), w'))
         | Call_Logout \<Rightarrow> auth_logout api http (\<lambda>w. w) base w)"

fun calls_run ::
  "'u url_api \<Rightarrow> (nat \<Rightarrow> string option) \<Rightarrow> string \<Rightarrow> test_call list \<Rightarrow> test_world \<Rightarrow>
     (test_call \<times> (core_error + unit)) list \<times> test_world" where
  "calls_run api reason base [] w = ([], w)"
| "calls_run api reason base (c # cs) w =
     (let (res, w1) = call_once api reason base c w; (rest, w2) = calls_run api reason base cs w1
      in ((c, res) # rest, w2))"

definition access_jar :: "(string \<times> string) list" where
  "access_jar = [(''hermes_session_at'', ''test-access-cookie'')]"

lemma access_jar_facts:
  "set_cookie ''hermes_session_at=test-access-cookie; Path=/'' [] = access_jar"
  "set_cookie ''hermes_session_at=test-access-cookie; Path=/'' access_jar = access_jar"
  "contains_str ''hermes_session_at=test-access-cookie'' (cookie_header access_jar)"
  "\<not> contains_str ''hermes_session_at=test-access-cookie'' (cookie_header [])"
  by code_simp+

lemma gated_routes_at:
  "find (\<lambda>r. tr_kind r = Rk_Login) gated_routes = Some route_login_ok"
  "find (\<lambda>r. tr_kind r = Rk_Ticket) gated_routes = Some route_ticket_gated"
  "find (\<lambda>r. tr_kind r = Rk_Logout) gated_routes = Some route_logout_ok"
  "kind_for_path ep_login = Some Rk_Login" "kind_for_path ep_ws_ticket = Some Rk_Ticket"
  "kind_for_path ep_logout = Some Rk_Logout"
  by (simp_all add: gated_routes_def route_login_ok_def route_ticket_gated_def route_logout_ok_def
      route_plain_def kind_for_path_def ep_login_def ep_ws_ticket_def ep_logout_def)

lemma auth_route_at_server:
  assumes "route_url api base path = Inr url" and "url_path api url = path"
    and "ts_answer reason routes path (cookie_header (tw_cookies w)) (tw_counts w) =
         ((status, name, cookie, body), counts)"
  shows "auth_route api (test_http api reason routes) (\<lambda>w. w) meth base path b ctx shape w =
     ((if is_success status then Inr (shape body) else Inl (map_status status ctx)),
      \<lparr>tw_counts = counts,
       tw_cookies = (case cookie of Some c \<Rightarrow> set_cookie c (tw_cookies w) | None \<Rightarrow> tw_cookies w)\<rparr>)"
  using assms by (simp add: auth_route_def http_send_def test_http_def Let_def)

text \<open>What a call does to the counters and the jar, by whether the jar holds the cookie.\<close>

lemma call_once_at_server:
  assumes "url_laws api" and "url_parse api base = Inr u" and "url_path api u = ''/''"
    and "tw_cookies w \<in> {[], access_jar}"
  shows "call_once api reason base call w =
    (case call of
       Call_Login user pw \<Rightarrow> (Inr (), \<lparr>tw_counts = count_hit Rk_Login (tw_counts w), tw_cookies = access_jar\<rparr>)
     | Call_Ticket \<Rightarrow>
         if tw_cookies w = access_jar then (Inr (), w\<lparr>tw_counts := count_hit Rk_Ticket (tw_counts w)\<rparr>)
         else (Inl CoreError_SessionExpired, w\<lparr>tw_counts := count_hit Rk_Denied (tw_counts w)\<rparr>)
     | Call_Logout \<Rightarrow> (Inr (), w\<lparr>tw_counts := count_hit Rk_Logout (tw_counts w)\<rparr>))"
proof -
  have jar: "access_jar \<noteq> []" by (simp add: access_jar_def)
  have "\<exists>url. route_url api base p = Inr url \<and> url_path api url = p"
    if "p \<in> {ep_login, ep_logout, ep_ws_ticket}" for p
    by (rule plain_route [OF assms(1-3) that])
  from this [of ep_login] this [of ep_ws_ticket] this [of ep_logout]
  obtain u1 u2 u3 where urls: "route_url api base ep_login = Inr u1" "url_path api u1 = ep_login"
    "route_url api base ep_ws_ticket = Inr u2" "url_path api u2 = ep_ws_ticket"
    "route_url api base ep_logout = Inr u3" "url_path api u3 = ep_logout"
    by auto
  show ?thesis
  proof (cases call)
    case (Call_Login user pw)
    have "ts_answer reason gated_routes ep_login (cookie_header (tw_cookies w)) (tw_counts w) =
        ((200, unwrap_or '''' (reason 200), Some ''hermes_session_at=test-access-cookie; Path=/'',
          tr_body route_login_ok), count_hit Rk_Login (tw_counts w))"
      unfolding ts_answer_def gated_routes_at
      by (simp add: gated_routes_at gate_open_def route_login_ok_def route_plain_def)
    from auth_route_at_server [OF urls(1,2) this, of Http_Post _ Ctx_Login "\<lambda>_. ()"] Call_Login assms(4)
    show ?thesis by (auto simp: call_once_def auth_login_def is_success_def access_jar_facts)
  next
    case Call_Ticket
    have "ts_answer reason gated_routes ep_ws_ticket (cookie_header (tw_cookies w)) (tw_counts w) =
        (if tw_cookies w = access_jar
         then ((200, unwrap_or '''' (reason 200), None, tr_body route_ticket_gated),
               count_hit Rk_Ticket (tw_counts w))
         else ((401, ''Unauthorized'', None, detail ''unauthorized: missing session cookie''),
               count_hit Rk_Denied (tw_counts w)))"
      unfolding ts_answer_def gated_routes_at
      using assms(4) jar
      by (auto simp: gated_routes_at gate_open_def route_ticket_gated_def route_plain_def access_jar_facts)
    note at = auth_route_at_server [OF urls(3,4), of reason gated_routes w, unfolded this]
    show ?thesis
    proof (cases "tw_cookies w = access_jar")
      case True
      show ?thesis
        using Call_Ticket True
        by (simp add: call_once_def mint_ticket_def at [unfolded if_P [OF True], OF refl] is_success_def)
    next
      case False
      show ?thesis
        using Call_Ticket False
        by (simp add: call_once_def mint_ticket_def at [unfolded if_not_P [OF False], OF refl] is_success_def
            map_status_def)
    qed
  next
    case Call_Logout
    have "ts_answer reason gated_routes ep_logout (cookie_header (tw_cookies w)) (tw_counts w) =
        ((200, unwrap_or '''' (reason 200), None, tr_body route_logout_ok), count_hit Rk_Logout (tw_counts w))"
      unfolding ts_answer_def gated_routes_at
      by (simp add: gated_routes_at gate_open_def route_logout_ok_def route_plain_def)
    from auth_route_at_server [OF urls(5,6) this, of Http_Post _ Ctx_Cookie "\<lambda>_. ()"] Call_Logout show ?thesis
      by (simp add: call_once_def auth_logout_def is_success_def)
  qed
qed

text \<open>
  The counters are what the client saw: whatever logins, tickets and logouts a client makes,
  the ticket counter is the number of tickets it got, the denied counter the number of its
  expired sessions, the login counter the number of its logins; and a ticket is refused
  exactly before the first login.
\<close>

lemma counters_tell_what_happened:
  assumes "url_laws api" and "url_parse api base = Inr u" and "url_path api u = ''/''"
    and "tw_cookies w \<in> {[], access_jar}" and "calls_run api reason base cs w = (hist, w')"
  shows "ts_count (tw_counts w') Rk_Ticket =
       ts_count (tw_counts w) Rk_Ticket + length (filter (\<lambda>e. e = (Call_Ticket, Inr ())) hist) \<and>
     ts_count (tw_counts w') Rk_Denied =
       ts_count (tw_counts w) Rk_Denied +
       length (filter (\<lambda>e. e = (Call_Ticket, Inl CoreError_SessionExpired)) hist) \<and>
     ts_count (tw_counts w') Rk_Login =
       ts_count (tw_counts w) Rk_Login + length (filter (\<lambda>e. \<exists>us pw. e = (Call_Login us pw, Inr ())) hist) \<and>
     map fst hist = cs \<and> tw_cookies w' \<in> {[], access_jar} \<and>
     (tw_cookies w = access_jar \<longrightarrow> (\<forall>e \<in> set hist. snd e = Inr ()) \<and> tw_cookies w' = access_jar)"
  using assms(4,5)
proof (induction cs arbitrary: w hist)
  case Nil
  then show ?case by simp
next
  case (Cons c cs)
  obtain res w1 where 1: "call_once api reason base c w = (res, w1)" by fastforce
  obtain rest where 2: "calls_run api reason base cs w1 = (rest, w')" "hist = (c, res) # rest"
    using Cons.prems(2) 1 by (auto split: prod.splits)
  note step = 1 [unfolded call_once_at_server [OF assms(1-3) Cons.prems(1)]]
  have "tw_cookies w1 \<in> {[], access_jar}" using step Cons.prems(1) by (auto split: test_call.splits if_splits)
  note IH = Cons.IH [OF this 2(1)]
  have jar: "access_jar \<noteq> []" by (simp add: access_jar_def)
  show ?case
  proof (cases c)
    case (Call_Login us pw)
    with step have "res = Inr ()" "w1 = \<lparr>tw_counts = count_hit Rk_Login (tw_counts w), tw_cookies = access_jar\<rparr>"
      by simp_all
    with IH Call_Login show ?thesis by (simp add: 2(2) ts_count_hit)
  next
    case Call_Logout
    with step have "res = Inr ()" "w1 = w\<lparr>tw_counts := count_hit Rk_Logout (tw_counts w)\<rparr>" by simp_all
    with IH Call_Logout show ?thesis by (simp add: 2(2) ts_count_hit)
  next
    case Call_Ticket
    show ?thesis
    proof (cases "tw_cookies w = access_jar")
      case True
      with Call_Ticket step have "res = Inr ()" "w1 = w\<lparr>tw_counts := count_hit Rk_Ticket (tw_counts w)\<rparr>"
        by simp_all
      with IH Call_Ticket True show ?thesis by (simp add: 2(2) ts_count_hit)
    next
      case False
      with Call_Ticket step have "res = Inl CoreError_SessionExpired"
        "w1 = w\<lparr>tw_counts := count_hit Rk_Denied (tw_counts w)\<rparr>" by simp_all
      with IH Call_Ticket False show ?thesis by (simp add: 2(2) ts_count_hit)
    qed
  qed
qed

end
