(* ===== verification/Gateway_Wire.thy ===== *)
theory Gateway_Wire
  imports Gateway_Props Ws_Facts
begin

text \<open>
  From the channel of a gateway connection (\<open>serve_ws\<close> of \<open>tools/fake_gateway/src/server.rs\<close>)
  over the wire into the broadcast of the client (\<open>spawn_reader\<close> of
  \<open>hermes_core/src/rpc/client.rs\<close>): nothing is lost, repeated or reordered while a connection
  lives.
\<close>

section \<open>A connection is first in, first out\<close>

definition conn_trace :: "gw_conn \<Rightarrow> json list" where
  "conn_trace cn = gn_wire cn @ gn_queue cn"

text \<open>What a section may do to a connection: send more, write out what is queued, or end it.\<close>

definition conn_grows :: "gw_conn \<Rightarrow> gw_conn \<Rightarrow> bool" where
  "conn_grows cn cn' \<longleftrightarrow> prefix (conn_trace cn) (conn_trace cn') \<and> prefix (gn_wire cn) (gn_wire cn')"

lemma conn_grows_refl [simp]: "conn_grows cn cn"
  by (simp add: conn_grows_def)

lemma conn_grows_trans: "conn_grows a b \<Longrightarrow> conn_grows b c \<Longrightarrow> conn_grows a c"
  unfolding conn_grows_def by (meson prefix_order.trans)

text \<open>
  A connection that is open after a section was open before it and has grown, or is new and
  starts with \<open>gateway.ready\<close>.
\<close>

definition conns_grow :: "gateway \<Rightarrow> gateway \<Rightarrow> bool" where
  "conns_grow g g' \<longleftrightarrow>
     (\<forall>c cn'. gw_conns g' c = Some cn' \<longrightarrow>
        (\<exists>cn. gw_conns g c = Some cn \<and> conn_grows cn cn') \<or>
        (gw_next_conn g \<le> c \<and> c < gw_next_conn g' \<and> (\<exists>t. gn_wire cn' = ready_frame g # t))) \<and>
     gw_next_conn g \<le> gw_next_conn g' \<and> gw_fixtures g' = gw_fixtures g"

lemma conns_grow_same:
  "gw_conns g' = gw_conns g \<Longrightarrow> gw_next_conn g' = gw_next_conn g \<Longrightarrow> gw_fixtures g' = gw_fixtures g \<Longrightarrow>
   conns_grow g g'"
  by (simp add: conns_grow_def)

lemma conns_grow_trans:
  assumes "conns_grow g1 g2" and "conns_grow g2 g3"
  shows "conns_grow g1 g3"
  unfolding conns_grow_def
proof (intro conjI allI impI)
  note a = assms [unfolded conns_grow_def]
  show "gw_next_conn g1 \<le> gw_next_conn g3" "gw_fixtures g3 = gw_fixtures g1" using a by simp_all
  fix c cn3
  assume "gw_conns g3 c = Some cn3"
  with a(2) consider (old) cn2 where "gw_conns g2 c = Some cn2" "conn_grows cn2 cn3"
    | (new) t where "gw_next_conn g2 \<le> c" "c < gw_next_conn g3" "gn_wire cn3 = ready_frame g2 # t" by blast
  then show "(\<exists>cn. gw_conns g1 c = Some cn \<and> conn_grows cn cn3) \<or>
      (gw_next_conn g1 \<le> c \<and> c < gw_next_conn g3 \<and> (\<exists>t. gn_wire cn3 = ready_frame g1 # t))"
  proof cases
    case old
    with a(1) consider cn where "gw_conns g1 c = Some cn" "conn_grows cn cn2"
      | t where "gw_next_conn g1 \<le> c" "c < gw_next_conn g2" "gn_wire cn2 = ready_frame g1 # t" by blast
    then show ?thesis
    proof cases
      case 1
      then show ?thesis using old(2) conn_grows_trans by blast
    next
      case 2
      moreover obtain u where "gn_wire cn3 = gn_wire cn2 @ u"
        using old(2) by (auto simp: conn_grows_def prefix_def)
      ultimately show ?thesis using a(2) by auto
    qed
  next
    case new
    then show ?thesis using a(1) by (auto simp: ready_frame_def)
  qed
qed

lemma conns_grow_send: "conns_grow g (gw_send c v g)"
  by (auto simp: conns_grow_def gw_send_def conn_grows_def conn_trace_def split: option.split)

lemma sink_send_keeps_more [simp]:
  "gw_next_conn (sink_send ok c cn v g) = gw_next_conn g" "gw_fixtures (sink_send ok c cn v g) = gw_fixtures g"
  by (simp_all add: sink_send_def should_drop_def drop_conn_def Let_def split: option.split)

lemma sink_send_other: "c' \<noteq> c \<Longrightarrow> gw_conns (sink_send ok c cn v g) c' = gw_conns g c'"
  by (simp add: sink_send_def should_drop_def drop_conn_def Let_def split: option.split)

lemma sink_send_wire:
  "gw_conns (sink_send ok c cn v g) c = Some cn' \<Longrightarrow>
   gn_wire cn' = gn_wire cn @ [v] \<and> gn_queue cn' = gn_queue cn"
  by (auto simp: sink_send_def should_drop_def drop_conn_def Let_def split: option.splits if_splits)

lemma conns_grow_sink_send:
  assumes "gw_conns g c = Some cn0" and "gn_wire cn = gn_wire cn0" and "gn_queue cn0 = v # gn_queue cn"
  shows "conns_grow g (sink_send ok c cn v g)"
proof -
  have "\<exists>cn1. gw_conns g c' = Some cn1 \<and> conn_grows cn1 cn'"
    if "gw_conns (sink_send ok c cn v g) c' = Some cn'" for c' cn'
  proof (cases "c' = c")
    case True
    with that sink_send_wire assms show ?thesis by (fastforce simp: conn_grows_def conn_trace_def)
  qed (use that sink_send_other in auto)
  then show ?thesis by (simp add: conns_grow_def)
qed

lemma modify_session_next_conn [simp]: "gw_next_conn (modify_session sid f g) = gw_next_conn g"
  by (simp add: modify_session_def split: option.split)

lemma gw_send_next_conn [simp]: "gw_next_conn (gw_send c v g) = gw_next_conn g"
  by (simp add: gw_send_def split: option.split)

lemma turn_step_conns: "conns_grow g (turn_step t g)"
proof (cases "gw_turns g t")
  case (Some task)
  show ?thesis
  proof (cases "gt_frames task")
    case Nil
    with Some show ?thesis by (auto simp: turn_step_def frame_simps intro!: conns_grow_same)
  next
    case (Cons f fs)
    show ?thesis
    proof (cases "gw_lookup g (gt_sid task)")
      case None
      with Some Cons show ?thesis
        by (auto simp: turn_step_def next_seq_and_record_def frame_simps intro!: conns_grow_same)
    next
      case (Some r)
      let ?g = "(modify_session (gt_sid task) (push_event (unwrap_or '''' (frame_type f)) (frame_payload f)) g)
        \<lparr>gw_turns := (gw_turns g)(t \<mapsto> task\<lparr>gt_frames := fs\<rparr>)\<rparr>"
      have "turn_step t g = gw_send (gt_out task) (rewrite_frame f (gt_sid task) (gs_seq r + 1)) ?g"
        using \<open>gw_turns g t = Some task\<close> Cons Some
        by (simp add: turn_step_def next_seq_and_record_def frame_simps)
      moreover have "conns_grow g ?g" by (rule conns_grow_same) (simp_all add: frame_simps)
      ultimately show ?thesis using conns_grow_trans [OF _ conns_grow_send] by simp
    qed
  qed
qed (simp add: turn_step_def conns_grow_same)

lemma conns_grow_open: "conns_grow g (ws_open ok g)"
proof -
  let ?g = "g\<lparr>gw_next_conn := gw_next_conn g + 1\<rparr>" and ?c = "gw_next_conn g"
  let ?cn = "\<lparr>gn_queue = [], gn_sent = 0, gn_wire = []\<rparr>"
  have o: "ws_open ok g = sink_send ok ?c ?cn (ready_frame g) ?g" by (simp add: ws_open_def Let_def)
  show ?thesis
    unfolding conns_grow_def o
  proof (intro conjI allI impI)
    fix c cn'
    assume c: "gw_conns (sink_send ok ?c ?cn (ready_frame g) ?g) c = Some cn'"
    show "(\<exists>cn. gw_conns g c = Some cn \<and> conn_grows cn cn') \<or> (?c \<le> c \<and>
        c < gw_next_conn (sink_send ok ?c ?cn (ready_frame g) ?g) \<and> (\<exists>t. gn_wire cn' = ready_frame g # t))"
    proof (cases "c = ?c")
      case True
      with c sink_send_wire show ?thesis by fastforce
    next
      case False
      with c show ?thesis by (simp add: sink_send_other)
    qed
  qed simp_all
qed

lemma handler_fixtures [simp]:
  "gw_fixtures (snd (create_record now title g)) = gw_fixtures g"
  "gw_fixtures (snd (next_seq_and_record sid ty p g)) = gw_fixtures g"
  "gw_fixtures (delay_frame c f g) = gw_fixtures g"
  "gw_fixtures (snd (spawn_turn sid fs c g)) = gw_fixtures g"
  "gw_fixtures (register_turn sid t g) = gw_fixtures g"
  "gw_fixtures (snd (gw_mint_ticket g)) = gw_fixtures g"
  "gw_fixtures (snd (take_ticket tk g)) = gw_fixtures g"
  "gw_fixtures (snd (take_profile_failure g)) = gw_fixtures g"
  by (simp_all add: create_record_def insert_session_def next_seq_and_record_def frame_simps
      delay_frame_def spawn_turn_def register_turn_def gw_mint_ticket_def take_ticket_def
      take_profile_failure_def Let_def split: option.split)

lemma handler_fixtures2 [simp]:
  "gw_fixtures (snd (interrupt_section sid g)) = gw_fixtures g"
  "gw_fixtures (gw_close_session sid g) = gw_fixtures g"
  "gw_fixtures (snd (claim_session now sid g)) = gw_fixtures g"
  by (simp_all add: interrupt_section_def gw_close_session_def claim_session_def frame_simps Let_def
      split: option.split)

lemma handler_next_conn [simp]:
  "gw_next_conn (entry_session now sid g) = gw_next_conn g"
  "gw_next_conn (snd (create_record now title g)) = gw_next_conn g"
  "gw_next_conn (snd (next_seq_and_record sid ty p g)) = gw_next_conn g"
  "gw_next_conn (delay_frame c f g) = gw_next_conn g"
  "gw_next_conn (abort_turn h g) = gw_next_conn g"
  "gw_next_conn (snd (spawn_turn sid fs c g)) = gw_next_conn g"
  "gw_next_conn (register_turn sid t g) = gw_next_conn g"
  "gw_next_conn (snd (gw_mint_ticket g)) = gw_next_conn g"
  "gw_next_conn (snd (take_ticket tk g)) = gw_next_conn g"
  "gw_next_conn (snd (take_profile_failure g)) = gw_next_conn g"
  by (simp_all add: entry_session_def create_record_def insert_session_def next_seq_and_record_def
      delay_frame_def abort_turn_def spawn_turn_def register_turn_def gw_mint_ticket_def take_ticket_def
      take_profile_failure_def Let_def split: option.split)

lemma handler_next_conn2 [simp]:
  "gw_next_conn (snd (interrupt_section sid g)) = gw_next_conn g"
  "gw_next_conn (gw_close_session sid g) = gw_next_conn g"
  "gw_next_conn (snd (claim_session now sid g)) = gw_next_conn g"
  by (simp_all add: interrupt_section_def gw_close_session_def claim_session_def Let_def split: option.split)

lemma ticket_conns [simp]:
  "gw_conns (snd (gw_mint_ticket g)) = gw_conns g"
  "gw_conns (snd (take_ticket tk g)) = gw_conns g"
  "gw_conns (snd (take_profile_failure g)) = gw_conns g"
  by (simp_all add: gw_mint_ticket_def take_ticket_def take_profile_failure_def Let_def)

lemma conns_grow_delayed: "conns_grow g (delayed_step n g)"
proof (cases "n < length (gw_delayed g)")
  case True
  obtain c f where cf: "gw_delayed g ! n = (c, f)" by fastforce
  let ?g = "g\<lparr>gw_delayed := take n (gw_delayed g) @ drop (Suc n) (gw_delayed g)\<rparr>"
  have "conns_grow g ?g" by (rule conns_grow_same) simp_all
  from conns_grow_trans [OF this conns_grow_send [of ?g c f]] show ?thesis
    using True cf by (simp add: delayed_step_def)
qed (simp add: delayed_step_def conns_grow_same)

lemma conns_grow_pump: "conns_grow g (ws_pump ok c g)"
proof (cases "gw_conns g c")
  case (Some cn)
  show ?thesis
  proof (cases "gn_queue cn")
    case Nil
    with Some show ?thesis by (simp add: ws_pump_def conns_grow_same)
  next
    case (Cons v vs)
    have "conns_grow g (sink_send ok c (cn\<lparr>gn_queue := vs\<rparr>) v g)"
      by (rule conns_grow_sink_send [OF Some]) (simp_all add: Cons)
    with Some Cons show ?thesis by (simp add: ws_pump_def)
  qed
qed (simp add: ws_pump_def conns_grow_same)

lemma section_conns: "conns_grow g (gw_sec s g)"
proof (cases s)
  case (Sec_Send c v) then show ?thesis by (simp add: conns_grow_send)
next
  case (Sec_Delayed n) then show ?thesis by (simp add: conns_grow_delayed)
next
  case (Sec_Turn t) then show ?thesis by (simp add: turn_step_conns)
next
  case (Sec_Open ok) then show ?thesis by (simp add: conns_grow_open)
next
  case (Sec_Pump ok c) then show ?thesis by (simp add: conns_grow_pump)
next
  case (Sec_Gone c) then show ?thesis by (auto simp: conns_grow_def drop_conn_def)
qed (rule conns_grow_same; simp add: frame_simps)+

lemma run_conns: "conns_grow g (gw_run secs g)"
proof (induction secs arbitrary: g)
  case (Cons s ss)
  from conns_grow_trans [OF section_conns [of g s] Cons.IH] show ?case by simp
qed (simp add: conns_grow_same)

section \<open>The wire into the client\<close>

definition client_events :: "serde \<Rightarrow> json list \<Rightarrow> event_params list" where
  "client_events sj vs =
     concat (map (\<lambda>v. case decode_value sj v of Decoded_Event ev \<Rightarrow> [ev] | _ \<Rightarrow> []) vs)"

text \<open>The reader takes the frames of the wire one after the other, each as one text message.\<close>

definition read_wire :: "serde \<Rightarrow> nat \<Rightarrow> json list \<Rightarrow> ws \<Rightarrow> ws" where
  "read_wire sj now vs s = fold (\<lambda>v. reader_step sj now (Msg_Text (to_compact_string sj v))) vs s"

lemma read_wire_append: "read_wire sj now (xs @ ys) s = read_wire sj now ys (read_wire sj now xs s)"
  by (simp add: read_wire_def)

lemma read_line_published:
  "ws_published (read_line sj l s) = ws_published s @
     (case decode sj l of Some (Decoded_Event ev) \<Rightarrow> [ev] | _ \<Rightarrow> [])"
  by (simp add: read_line_def settle_def split: option.split decoded.split)

lemma read_wire_published:
  "\<forall>v \<in> set vs. wire_ok sj v \<Longrightarrow>
   ws_published (read_wire sj now vs s) = ws_published s @ client_events sj vs"
proof (induction vs arbitrary: s)
  case (Cons v vs)
  from Cons.prems have ok: "wire_ok sj v" by simp
  then have line: "split_lines (to_compact_string sj v) = [to_compact_string sj v]"
    by (intro split_lines_single) (simp_all add: wire_ok_def Let_def)
  have dec: "decode sj (to_compact_string sj v) = Some (decode_value sj v)"
    using ok by (simp add: wire_ok_def decode_def Let_def)
  have "ws_published (reader_step sj now (Msg_Text (to_compact_string sj v)) s) =
      ws_published s @ (case decode_value sj v of Decoded_Event ev \<Rightarrow> [ev] | _ \<Rightarrow> [])"
    by (simp add: line read_line_published dec)
  with Cons.IH [of "reader_step sj now (Msg_Text (to_compact_string sj v)) s"] Cons.prems show ?case
    by (simp add: read_wire_def client_events_def)
qed (simp add: read_wire_def client_events_def)

definition conns_ready :: "gateway \<Rightarrow> bool" where
  "conns_ready g \<longleftrightarrow> (\<forall>c cn. gw_conns g c = Some cn \<longrightarrow> c < gw_next_conn g \<and> (\<exists>t. gn_wire cn = ready_frame g # t))"

lemma conns_ready_run: "conns_ready (gw_run secs (gateway_new conf fx))"
proof -
  have "conns_grow (gateway_new conf fx) (gw_run secs (gateway_new conf fx))" by (rule run_conns)
  moreover have "gw_conns (gateway_new conf fx) = Map.empty" by (simp add: gateway_new_def)
  ultimately show ?thesis by (auto simp: conns_grow_def conns_ready_def ready_frame_def)
qed

text \<open>
  C13: a connection delivers in order, without loss and without repetition. The first frame on
  the wire of every connection is \<open>gateway.ready\<close>. Whatever the gateway and its other clients
  do, as long as the connection lives, what was sent on it stays sent in that order, the wire
  carries a growing prefix of it, and a client that reads the wire publishes exactly the
  events among the new frames, in order, after those it had published before.
\<close>

theorem wire_delivers_in_order:
  assumes "g = gw_run earlier (gateway_new conf fx)" and "gw_conns g c = Some cn"
    and "gw_conns (gw_run secs g) c = Some cn'" and "\<forall>v \<in> set (gn_wire cn'). wire_ok sj v"
    and "s1 = read_wire sj now (gn_wire cn) s"
  shows "\<exists>t new more. gn_wire cn = ready_frame g # t \<and>
     gn_wire cn' @ gn_queue cn' = gn_wire cn @ gn_queue cn @ new \<and>
     gn_wire cn' = gn_wire cn @ more \<and> prefix more (gn_queue cn @ new) \<and>
     read_wire sj now (gn_wire cn') s = read_wire sj now more s1 \<and>
     ws_published (read_wire sj now more s1) = ws_published s1 @ client_events sj more"
proof -
  have "conns_ready g" unfolding assms(1) by (rule conns_ready_run)
  with assms(2) obtain t where t: "gn_wire cn = ready_frame g # t" "c < gw_next_conn g"
    unfolding conns_ready_def by blast
  have "conns_grow g (gw_run secs g)" by (rule run_conns)
  with assms(2,3) t(2) have gr: "conn_grows cn cn'" by (fastforce simp: conns_grow_def)
  then obtain new where new: "gn_wire cn' @ gn_queue cn' = (gn_wire cn @ gn_queue cn) @ new"
    by (auto simp: conn_grows_def conn_trace_def prefix_def)
  from gr obtain more where more: "gn_wire cn' = gn_wire cn @ more" by (auto simp: conn_grows_def prefix_def)
  then have "more @ gn_queue cn' = gn_queue cn @ new" using new by simp
  then have "prefix more (gn_queue cn @ new)" by (metis prefixI)
  moreover have "\<forall>v \<in> set more. wire_ok sj v" using assms(4) more by simp
  moreover have "read_wire sj now (gn_wire cn') s = read_wire sj now more s1"
    unfolding more assms(5) by (rule read_wire_append)
  ultimately show ?thesis
    using t(1) new more read_wire_published [of more sj now s1] by auto
qed

definition two_frames :: "json list" where
  "two_frames = [ready_frame sample_gateway, event_frame ''error'' ''s'' 1 JNull]"

definition two_serde :: serde where
  "two_serde =
     \<lparr>to_string = (\<lambda>v. Some (if v = two_frames ! 0 then ''r'' else ''e'')),
      from_str = (\<lambda>t. if t = ''r'' then Some (two_frames ! 0) else Some (two_frames ! 1)),
      parse_error = (\<lambda>_. ''''), num_to_string = (\<lambda>_. '''')\<rparr>"

lemma two_events:
  "map event_type (client_events two_serde [two_frames ! 0] @ client_events two_serde [two_frames ! 1]) =
     [''gateway.ready'', ''error'']"
  by (simp add: client_events_def two_frames_def ready_frame_def event_frame_def decode_value_def
      decode_event_def Let_def)

lemma wire_delivers_in_order_witness:
  "\<exists>cn'. gw_conns (gw_run [Sec_Send 0 (event_frame ''error'' ''s'' 1 JNull), Sec_Pump True 0] sample_gateway) 0 = Some cn' \<and>
     map event_type (ws_published (read_wire two_serde 5 (gn_wire cn') (ws_connecting client_config_default 0))) =
       [''gateway.ready'', ''error'']"
proof -
  let ?secs = "[Sec_Send 0 (event_frame ''error'' ''s'' 1 JNull), Sec_Pump True 0]"
  define cn where "cn = \<lparr>gn_queue = [], gn_sent = 1, gn_wire = [two_frames ! 0]\<rparr>"
  define cn' where "cn' = \<lparr>gn_queue = [], gn_sent = 2, gn_wire = two_frames\<rparr>"
  have ne: "two_frames ! 1 \<noteq> two_frames ! 0"
    by (simp add: two_frames_def event_frame_def ready_frame_def)
  have trims: "trim ''r'' = ''r''" "trim ''e'' = ''e''" by code_simp+
  have ok: "wire_ok two_serde v" if "v \<in> set two_frames" for v
    using that ne trims by (auto simp: two_frames_def wire_ok_def two_serde_def to_compact_string_def Let_def)
  have cn: "gw_conns sample_gateway 0 = Some cn"
    by (simp add: sample_gateway_def sample_start_def gateway_new_def ws_open_def sink_send_def cn_def
        should_drop_def entry_session_def sample_conf_def two_frames_def ready_frame_def Let_def)
  have conf: "gc_drop_after (gw_conf sample_gateway) = None" by (simp add: sample_gateway_facts sample_conf_def)
  have cn': "gw_conns (gw_run ?secs sample_gateway) 0 = Some cn'"
    by (simp add: gw_send_def cn cn_def cn'_def two_frames_def ws_pump_def sink_send_def should_drop_def conf Let_def)
  define s1 where "s1 = read_wire two_serde 5 (gn_wire cn) (ws_connecting client_config_default 0)"
  have "\<forall>v \<in> set (gn_wire cn'). wire_ok two_serde v" using ok by (simp add: cn'_def)
  from wire_delivers_in_order [OF sample_gateway_def cn cn' this s1_def] obtain t new more where
    more: "gn_wire cn' = gn_wire cn @ more"
    "read_wire two_serde 5 (gn_wire cn') (ws_connecting client_config_default 0) = read_wire two_serde 5 more s1"
    "ws_published (read_wire two_serde 5 more s1) = ws_published s1 @ client_events two_serde more" by meson
  have "cn' = cn\<lparr>gn_sent := 2, gn_wire := gn_wire cn @ [two_frames ! 1]\<rparr>"
    by (simp add: cn_def cn'_def two_frames_def)
  then have m: "more = [two_frames ! 1]" using more(1) by simp
  have "ws_published s1 = client_events two_serde [two_frames ! 0]"
    unfolding s1_def using read_wire_published [of "gn_wire cn" two_serde] ok
    by (simp add: cn_def ws_connecting_def two_frames_def)
  with more(2,3) m cn' show ?thesis using two_events by simp
qed

end
