(* ===== verification/Gateway_Recovery.thy ===== *)
theory Gateway_Recovery
  imports Gateway_Client Gateway_Wire Core_Behaviour
begin

text \<open>
  The whole path of a lost connection: the gateway streams a turn, the connection drops
  somewhere in it, and the supervisor resumes the tab. The resume of \<open>hermes_core/src/core.rs\<close>
  runs on the handlers of the gateway (\<open>tools/fake_gateway/src/server.rs\<close>), and ends where the
  client would be had it received the frames live.
\<close>

section \<open>A turn under interference\<close>

text \<open>What may happen around a turn: connections, HTTP requests, frames of others.\<close>

fun wire_section :: "gw_section \<Rightarrow> bool" where
  "wire_section (Sec_Send _ _) = True"
| "wire_section (Sec_Delay _ _) = True"
| "wire_section (Sec_Delayed _) = True"
| "wire_section Sec_Mint = True"
| "wire_section (Sec_Take _) = True"
| "wire_section Sec_Failure = True"
| "wire_section (Sec_Open _) = True"
| "wire_section (Sec_Pump _ _) = True"
| "wire_section (Sec_Gone _) = True"
| "wire_section _ = False"

lemma wire_section_keeps:
  assumes "wire_section s"
  shows "gw_sessions (gw_sec s g) = gw_sessions g" "gw_turns (gw_sec s g) = gw_turns g"
    "gw_fixtures (gw_sec s g) = gw_fixtures g"
  using assms
  by (cases s; simp add: delay_frame_def delayed_step_def gw_mint_ticket_def take_ticket_def
      take_profile_failure_def ws_open_def ws_pump_def drop_conn_def frame_simps Let_def
      split: option.split list.split prod.split)+

definition turn_rest :: "nat \<Rightarrow> gateway \<Rightarrow> json list" where
  "turn_rest t g = (case gw_turns g t of None \<Rightarrow> [] | Some k \<Rightarrow> gt_frames k)"

definition turn_of :: "nat \<Rightarrow> string \<Rightarrow> gateway \<Rightarrow> bool" where
  "turn_of t sid g \<longleftrightarrow> (\<forall>k. gw_turns g t = Some k \<longrightarrow> gt_sid k = sid)"

text \<open>One step of a turn's task logs its next frame, if there is one, wherever its frames go.\<close>

lemma turn_step_logs:
  assumes "turn_of t sid g" and "gw_lookup g sid = Some r"
  shows "\<exists>r'. gw_lookup (turn_step t g) sid = Some r' \<and> turn_of t sid (turn_step t g) \<and>
     turn_rest t (turn_step t g) = drop 1 (turn_rest t g) \<and>
     gs_events r' = gs_events r @ logged_events (gs_seq r) (take 1 (turn_rest t g)) \<and>
     gs_seq r' = gs_seq r + int (length (take 1 (turn_rest t g))) \<and>
     gw_fixtures (turn_step t g) = gw_fixtures g"
proof (cases "gw_turns g t")
  case None
  with assms show ?thesis by (simp add: turn_step_def turn_rest_def)
next
  case (Some k)
  then have k: "gt_sid k = sid" using assms(1) by (simp add: turn_of_def)
  show ?thesis
  proof (cases "gt_frames k")
    case Nil
    with Some k assms(2) show ?thesis
      by (simp add: turn_step_def turn_rest_def turn_of_def modify_session_def)
  next
    case (Cons f fs)
    with Some k assms(2) show ?thesis
      by (simp add: turn_step_def turn_rest_def turn_of_def next_seq_and_record_def lookup_modify_session
          push_event_def logged_event_def frame_simps)
  qed
qed

lemma turn_progress:
  assumes "\<forall>s \<in> set secs. s = Sec_Turn t \<or> wire_section s"
    and "turn_of t sid g" and "gw_lookup g sid = Some r" and "k = steps_of t secs"
  shows "\<exists>r'. gw_lookup (gw_run secs g) sid = Some r' \<and>
     gs_events r' = gs_events r @ logged_events (gs_seq r) (take k (turn_rest t g)) \<and>
     gs_seq r' = gs_seq r + int (length (take k (turn_rest t g))) \<and>
     gw_fixtures (gw_run secs g) = gw_fixtures g"
  using assms
proof (induction secs arbitrary: g r k)
  case Nil
  then show ?case by (simp add: steps_of_def)
next
  case (Cons s ss)
  show ?case
  proof (cases "s = Sec_Turn t")
    case True
    from turn_step_logs [OF Cons.prems(2,3)] obtain r1 where r1:
      "gw_lookup (turn_step t g) sid = Some r1" "turn_of t sid (turn_step t g)"
      "turn_rest t (turn_step t g) = drop 1 (turn_rest t g)"
      "gs_events r1 = gs_events r @ logged_events (gs_seq r) (take 1 (turn_rest t g))"
      "gs_seq r1 = gs_seq r + int (length (take 1 (turn_rest t g)))"
      "gw_fixtures (turn_step t g) = gw_fixtures g" by blast
    from Cons.IH [OF _ r1(2,1) refl] Cons.prems(1) obtain r' where
      "gw_lookup (gw_run ss (turn_step t g)) sid = Some r'"
      "gs_events r' = gs_events r1 @ logged_events (gs_seq r1) (take (steps_of t ss) (turn_rest t (turn_step t g)))"
      "gs_seq r' = gs_seq r1 + int (length (take (steps_of t ss) (turn_rest t (turn_step t g))))"
      "gw_fixtures (gw_run ss (turn_step t g)) = gw_fixtures (turn_step t g)" by auto
    then show ?thesis
      using r1 True Cons.prems(4) by (cases "turn_rest t g") (simp_all add: steps_of_def)
  next
    case False
    with Cons.prems(1) have "wire_section s" by simp
    note keep = wire_section_keeps [OF this, of g]
    from Cons.IH [of "gw_sec s g" r k] Cons.prems False keep show ?thesis
      by (simp add: turn_of_def turn_rest_def steps_of_def)
  qed
qed

section \<open>A tab that is in step with its session\<close>

text \<open>
  The tab of a session whose durable key is its live id (as this gateway makes them), with
  the watermark at \<open>n\<close> and the replay epoch \<open>e\<close> in its registry record.
\<close>

definition tab_at :: "string \<Rightarrow> int \<Rightarrow> string \<Rightarrow> 'u core \<Rightarrow> bool" where
  "tab_at sid n e w \<longleftrightarrow>
     core_wf w \<and> sid \<noteq> '''' \<and> sid_index w sid = Some sid \<and>
     (\<exists>live. chats w sid = Some live \<and> live_sid live = sid) \<and>
     (\<exists>rec. registry_get (reg w) sid = Some rec \<and> last_seen_seq rec = n \<and> rec_epoch rec = e)"

lemma note_delivery_record:
  assumes "registry_get rg key = Some rec" and "ev_seq ev = Some s"
  shows "\<exists>rec'. registry_get (note_delivery ev key cs title rg) key = Some rec' \<and>
     last_seen_seq rec' = max (last_seen_seq rec) s \<and> rec_epoch rec' = rec_epoch rec"
  using assms
  by (simp add: note_delivery_def Let_def registry_get_modify get_touch touch_record_def)

lemma deliver_numbered:
  assumes "tab_at sid n e w" and "ev_session_id ev = sid" and "ev_seq ev = Some (n + 1)"
  shows "\<exists>w'. deliver_event sj ev snk w = Some w' \<and> tab_at sid (n + 1) e w'"
proof -
  obtain live rec where t: "core_wf w" "sid \<noteq> ''''" "sid_index w sid = Some sid" "chats w sid = Some live"
    "live_sid live = sid" "registry_get (reg w) sid = Some rec" "last_seen_seq rec = n" "rec_epoch rec = e"
    using assms(1) unfolding tab_at_def by blast
  have key: "route_key w (ev_session_id ev) = Some sid" using t assms(2) by (simp add: route_key_def)
  from t(1) show ?thesis
  proof (cases rule: route_event_cases [where sj = sj and ev = ev])
    case none
    with key t(4) show ?thesis by (auto simp: route_event_def Let_def split: option.splits)
  next
    case (routed k lv r cs)
    with key t(4) have kl: "k = sid" "lv = live" by simp_all
    define w' where "w' = emit sj snk sid cs (r_rows r) (h_title (header (r_state r)))
      (w\<lparr>chats := (chats w)(sid \<mapsto> live\<lparr>l_reducer := r, l_last_seen := max (l_last_seen live) (n + 1)\<rparr>),
         reg := note_delivery ev sid cs (h_title (header (r_state r))) (reg w), registry_dirty := True\<rparr>)"
    have d: "deliver_event sj ev snk w = Some w'"
      using routed(5) kl assms(3) by (simp add: deliver_event_def rows_of_def w'_def)
    have "core_wf w'"
      using core_wf_put(2) [OF t(1,4) routed(4), of "max (l_last_seen live) (n + 1)"]
      by (simp add: w'_def core_wf_def)
    moreover obtain rec' where "registry_get (reg w') sid = Some rec'"
      "last_seen_seq rec' = n + 1" "rec_epoch rec' = e"
      using note_delivery_record [OF t(6) assms(3), of cs "h_title (header (r_state r))"] t(7,8)
      by (auto simp: w'_def)
    ultimately have "tab_at sid (n + 1) e w'" using t(2,3,5) by (simp add: tab_at_def w'_def)
    with d show ?thesis by blast
  qed
qed

lemma act_each_append: "act_each f (xs @ ys) = act_bind (act_each f xs) (\<lambda>_. act_each f ys)"
  by (induction xs) (auto simp: act_bind_def act_ok_def fun_eq_iff split: option.split sum.split prod.split)

lemma deliver_live_append:
  "deliver_live env snk (xs @ ys) = act_bind (deliver_live env snk xs) (\<lambda>_. deliver_live env snk ys)"
  by (simp add: deliver_live_def act_each_append)

lemma sent_frames_append:
  "sent_frames sid n (xs @ ys) = sent_frames sid n xs @ sent_frames sid (n + int (length xs)) ys"
  by (induction xs arbitrary: n) (simp_all add: algebra_simps)

lemma deliver_live_tab:
  assumes "\<forall>f \<in> set fs. event_shaped f" and "i64_min \<le> n" and "n + int (length fs) \<le> i64_max"
    and "tab_at sid n e w"
  shows "\<exists>w'. deliver_live env snk (sent_frames sid n fs) w = Some (Inr (), w') \<and>
     tab_at sid (n + int (length fs)) e w'"
  using assms
proof (induction fs arbitrary: n w)
  case Nil
  then show ?case by (simp add: deliver_live_def act_ok_def)
next
  case (Cons f fs)
  define ev where "ev = decode_replayed sid (logged_event f (n + 1))"
  have i: "is_i64 (n + 1)" using Cons.prems(2,3) by simp
  have dec: "decode_value (ce_json env) (rewrite_frame f sid (n + 1)) = Decoded_Event ev"
    unfolding ev_def using Cons.prems i by (intro live_is_replayed) auto
  have "ev_session_id ev = sid" "ev_seq ev = Some (n + 1)"
    using i by (simp_all add: ev_def decode_replayed_def replay_params_def replayed_from_value_def
        event_json_def logged_event_def i64_at_def as_i64_def)
  from deliver_numbered [OF Cons.prems(4) this] obtain w1 where
    w1: "deliver_event (ce_json env) ev snk w = Some w1" "tab_at sid (n + 1) e w1" by blast
  from Cons.IH [OF _ _ _ w1(2)] Cons.prems obtain w' where
    "deliver_live env snk (sent_frames sid (n + 1) fs) w1 = Some (Inr (), w')"
    "tab_at sid (n + 1 + int (length fs)) e w'" by auto
  then show ?case
    using w1(1) dec by (simp add: deliver_live_def act_bind_def act_checked_def algebra_simps)
qed

section \<open>The resume on the gateway\<close>

text \<open>
  The RPCs of a reconnected client, answered by the gateway as it is then. The calls of a
  resume leave the sessions of the gateway alone, so each is answered from the same state.
\<close>

definition gateway_rpc :: "string \<Rightarrow> gateway \<Rightarrow> serde \<Rightarrow> 'u rpc" where
  "gateway_rpc now g sj c meth params w = (fst (gw_call sj now c meth params g), w)"

definition gateway_epoch :: "gateway \<Rightarrow> string" where
  "gateway_epoch g = str_at (ready_payload (gw_fixtures g)) ''replay_epoch''"

lemma resume_at_gateway:
  assumes "gw_lookup g sid = Some r" and "gw_conns g c = Some cn"
  shows "\<exists>res. resume_session (gateway_rpc now g sj c) sid profile w = (Inr res, w) \<and> rs_session_id res = sid"
    and "snd (gw_call sj now c ''session.resume'' (resume_params sid profile) g) =
       reply_ok c (JStr ''1'') (JObj [(''session_id'', JStr sid), (''resumed'', JBool True),
                  (''message_count'', JNum (IntNum 0)), (''messages'', JArr []),
                  (''running'', JBool (gs_running r)), (''inflight'', JBool False),
                  (''info'', JObj [(''profile_name'', JStr '''')])]) g"
proof -
  let ?v = "JObj [(''session_id'', JStr sid), (''resumed'', JBool True),
                  (''message_count'', JNum (IntNum 0)), (''messages'', JArr []),
                  (''running'', JBool (gs_running r)), (''inflight'', JBool False),
                  (''info'', JObj [(''profile_name'', JStr '''')])]"
  have "get_key (resume_params sid profile) ''session_id'' = Some (JStr sid)"
    by (simp add: resume_params_def get_key_set_opt)
  then have sid: "str_at (resume_params sid profile) ''session_id'' = sid" by (simp add: str_at_def)
  have "dispatch_method now ''session.resume'' c (JStr ''1'') (resume_params sid profile) g =
      reply_ok c (JStr ''1'') ?v g"
    using assms(1) by (simp add: dispatch_simps handle_session_resume_def sid entry_session_def Let_def)
  from gw_call_reply [OF this assms(2)]
  have call: "gw_call sj now c ''session.resume'' (resume_params sid profile) g = (Inr ?v, reply_ok c (JStr ''1'') ?v g)" .
  show "snd (gw_call sj now c ''session.resume'' (resume_params sid profile) g) = reply_ok c (JStr ''1'') ?v g"
    by (simp add: call)
  show "\<exists>res. resume_session (gateway_rpc now g sj c) sid profile w = (Inr res, w) \<and> rs_session_id res = sid"
    by (simp add: resume_session_def call_and_parse_def gateway_rpc_def call resumed_from_value_def)
qed

lemma events_since_at_gateway:
  assumes "gw_conns g c = Some cn" and "is_i64 n"
  shows "api_events_since (gateway_rpc now g sj c) sid n w =
     (Inr (events_since_from_value (since_result sid n g)), w)"
proof -
  let ?p = "JObj [(''session_id'', JStr sid), (''last_seen'', JNum (IntNum n))]"
  have "dispatch_method now ''session.events.since'' c (JStr ''1'') ?p g =
      reply_ok c (JStr ''1'') (since_result sid n g) g"
    using assms(2) by (simp add: dispatch_simps handle_events_since_def value_i64_def as_i64_def Let_def)
  from gw_call_reply [OF this assms(1)] show ?thesis
    by (simp add: api_events_since_def call_and_parse_def gateway_rpc_def)
qed

lemma submit_starts_turn:
  assumes "gw_lookup g sid = Some r" and "\<not> gs_running r"
    and "g1 = handle_prompt_submit now c i (JObj [(''session_id'', JStr sid), (''text'', JStr prompt)]) g"
  shows "gw_turns g1 (gw_next_turn g) =
       Some \<lparr>gt_sid = sid, gt_frames = turn (gw_fixtures g) (select_kind prompt), gt_out = c\<rparr>"
    and "gw_lookup g1 sid = Some (r\<lparr>gs_running := True, gs_turn := Some (gw_next_turn g)\<rparr>)"
    and "gw_fixtures g1 = gw_fixtures g"
  using assms(1,2)
  by (simp_all add: assms(3) handle_prompt_submit_def claim_session_def entry_session_def modify_session_def
      spawn_turn_def register_turn_def frame_simps Let_def)

lemma length_logged_events [simp]: "length (logged_events k fs) = length fs"
  by (induction fs arbitrary: k) simp_all

lemma logged_events_append:
  "logged_events k (xs @ ys) = logged_events k xs @ logged_events (k + int (length xs)) ys"
  by (induction xs arbitrary: k) (simp_all add: algebra_simps)

lemma turn_logged:
  assumes "g = gw_run earlier (gateway_new conf fx)" and "gw_lookup g sid = Some r" and "\<not> gs_running r"
    and "fs = turn (gw_fixtures g) (select_kind prompt)"
    and "g' = gw_run secs (handle_prompt_submit now c i
                (JObj [(''session_id'', JStr sid), (''text'', JStr prompt)]) g)"
    and "\<forall>s \<in> set secs. s = Sec_Turn (gw_next_turn g) \<or> wire_section s"
    and "m = min (steps_of (gw_next_turn g) secs) (length fs)"
  shows "\<exists>r'. gw_lookup g' sid = Some r' \<and> session_wf sid r' \<and>
     gs_events r' = gs_events r @ logged_events (gs_seq r) (take m fs) \<and> gw_fixtures g' = gw_fixtures g"
proof -
  define g1 where "g1 = handle_prompt_submit now c i (JObj [(''session_id'', JStr sid), (''text'', JStr prompt)]) g"
  note g1 = submit_starts_turn [OF assms(2,3) g1_def]
  have take_m: "take (steps_of (gw_next_turn g) secs) fs = take m fs" by (simp add: assms(7) min_def)
  have "turn_of (gw_next_turn g) sid g1" "turn_rest (gw_next_turn g) g1 = fs"
    using g1(1) assms(4) by (simp_all add: turn_of_def turn_rest_def)
  from turn_progress [OF assms(6) this(1) g1(2) refl] this(2) take_m obtain r' where r':
    "gw_lookup g' sid = Some r'" "gs_events r' = gs_events r @ logged_events (gs_seq r) (take m fs)"
    "gw_fixtures g' = gw_fixtures g"
    by (auto simp: assms(5) g1_def [symmetric] g1(3))
  have "gw_reaches g g1"
    using dispatch_reaches [of g now "''prompt.submit''"] unfolding g1_def dispatch_simps .
  then have "gw_wf g'"
    unfolding assms(5) g1_def [symmetric]
    by (rule gw_run_wf [OF gw_reaches_wf]) (simp add: assms(1) gw_run_wf gw_wf_new)
  with r' show ?thesis using gw_wf_session by blast
qed

text \<open>
  Resuming a tab whose watermark lies inside the gateway's log delivers exactly the frames
  above it.
\<close>

lemma resume_catches_up:
  assumes "gw_lookup g sid = Some r" and "session_wf sid r" and "gw_conns g c = Some cn"
    and "gs_events r = evs @ logged_events n fs" and "n = int (length evs)"
    and "\<forall>f \<in> set fs. event_shaped f" and "n + int (length fs) \<le> i64_max"
    and "tab_at sid n e w" and "e = '''' \<or> e = gateway_epoch g"
  shows "\<exists>w'. deliver_live env snk (sent_frames sid n fs) w = Some (Inr (), w') \<and>
     resume_one env (gateway_rpc now g (ce_json env)) c (gateway_epoch g) snk sid w =
       Some (Inr (), touch_tab sid (n + int (length fs)) (gateway_epoch g) w')"
proof -
  have seq: "gs_seq r = n + int (length fs)" using assms(2,4,5) by (simp add: session_wf_def)
  then have i: "is_i64 (gs_seq r)" "is_i64 n" using assms(5,7) by (simp_all add: i64_min_def)
  define repl where "repl = events_since_from_value (since_result sid n g)"
  from since_parsed [OF assms(1,2) i(1), of "length evs"] have repl:
    "es_events repl = map (\<lambda>e. replayed_from_value (event_json sid e)) (logged_events n fs)"
    "es_latest_seq repl = n + int (length fs)" "\<not> es_truncated repl" "es_epoch repl = gateway_epoch g"
    by (simp_all add: repl_def assms(4,5) seq gateway_epoch_def)
  obtain live rec where t: "chats w sid = Some live" "live_sid live = sid"
    "registry_get (reg w) sid = Some rec" "last_seen_seq rec = n" "rec_epoch rec = e"
    using assms(8) by (auto simp: tab_at_def)
  obtain w' where w': "deliver_live env snk (sent_frames sid n fs) w = Some (Inr (), w')"
    using deliver_live_tab [OF assms(6) _ assms(7,8), of env snk] assms(5) by (auto simp: i64_min_def)
  then have replay: "replay_all env snk (es_events repl) w = Some (Inr (), w')"
    using live_equals_logged [OF assms(6) _ assms(7), of env snk sid] assms(5) by (simp add: repl(1) i64_min_def)
  obtain res where res: "resume_session (gateway_rpc now g (ce_json env) c) sid (resume_profile rec) w = (Inr res, w)"
    "rs_session_id res = sid" using resume_at_gateway(1) [OF assms(1,3)] by blast
  have since: "api_events_since (gateway_rpc now g (ce_json env) c) sid n w = (Inr repl, w)"
    unfolding repl_def by (rule events_since_at_gateway [OF assms(3) i(2)])
  have "\<not> needs_rebuild rec (gateway_epoch g) repl"
    using repl(3,4) t(5) assms(9) by (auto simp: needs_rebuild_def)
  then have "resume_one env (gateway_rpc now g (ce_json env)) c (gateway_epoch g) snk sid w =
      Some (Inr (), touch_tab sid (n + int (length fs)) (gateway_epoch g) w')"
    using t res since replay repl(2,4)
    by (simp add: resume_one_def act_bind_def act_get_def act_try_def act_modify_def repoint_live_sid_def
        apply_replay_def)
  with w' show ?thesis by blast
qed


text \<open>A tab of the session of the sample gateway, for the witness.\<close>

definition sample_tab :: "plain_url core" where
  "sample_tab = (core_new plain_env True Map.empty)
     \<lparr>client := Some 7, sink := Some 1, history_epoch := 1,
      chats := [''s'' \<mapsto> \<lparr>live_sid = ''s'', l_reducer = new_reducer, l_last_seen = 0, l_epoch = 1\<rparr>],
      sid_index := [''s'' \<mapsto> ''s''],
      reg := \<lparr>active_key = Some ''s'',
         sessions = [\<lparr>stored_id = ''s'', last_seen_seq = 0, rec_epoch = '''', rec_cols = 80,
                      rec_title = '''', rec_profile = ''''\<rparr>]\<rparr>\<rparr>"

lemma sample_tab_at: "tab_at ''s'' 0 '''' sample_tab"
  by (simp add: tab_at_def sample_tab_def core_wf_def wf_new registry_get_def)

lemma conf_kept:
  "gw_conf (turn_step t g) = gw_conf g" "gw_conf (drop_conn c g) = gw_conf g"
  "gw_conf (handle_prompt_submit now c i params g) = gw_conf g"
  by (simp_all add: turn_step_def next_seq_and_record_def handle_prompt_submit_def claim_session_def
      spawn_turn_def register_turn_def reply_ok_def frame_simps Let_def split: option.split list.split prod.split)


section \<open>A reconnect in the middle of a turn\<close>

text \<open>
  The task of a turn keeps the channel of the connection the prompt came from. A client that
  reconnects and resumes the session while the turn runs gets what is logged by then; every
  later frame of the turn goes to the old channel, so the new connection stays silent until
  the next catch-up.
\<close>

lemma rest_of_turn_misses_new_connection:
  assumes "gw_turns g t = Some task" and "gt_out task \<noteq> c"
  shows "gw_conns (gw_run (replicate k (Sec_Turn t)) (handle_session_resume now c i params g)) c =
    gw_conns (handle_session_resume now c i params g) c"
proof -
  have step: "gw_conns (turn_step t g) c = gw_conns g c \<and>
      (\<forall>tk. gw_turns (turn_step t g) t = Some tk \<longrightarrow> gt_out tk \<noteq> c)"
    if "\<forall>tk. gw_turns g t = Some tk \<longrightarrow> gt_out tk \<noteq> c" for g
  proof (cases "gw_turns g t")
    case (Some tk)
    then show ?thesis
      using that
      by (cases "gt_frames tk")
        (auto simp: turn_step_def next_seq_and_record_def gw_send_def frame_simps split: option.split)
  qed (simp add: turn_step_def)
  have run: "gw_conns (gw_run (replicate k (Sec_Turn t)) g) c = gw_conns g c"
    if "\<forall>tk. gw_turns g t = Some tk \<longrightarrow> gt_out tk \<noteq> c" for g
    using that
  proof (induction k arbitrary: g)
    case (Suc k)
    with step [of g] show ?case by simp
  qed simp
  show ?thesis
    by (rule run) (use assms in \<open>auto simp: handle_session_resume_def frame_simps Let_def\<close>)
qed

end
