(* ===== verification/Json_Text.thy ===== *)
theory Json_Text
  imports Json Policies
begin

text \<open>
  An instance of the \<^verbatim>\<open>serde\<close> parameter: the compact text of a JSON value (RFC 8259) and a
  parser for it. The development's theorems hold for every instance; this one lets the
  repository's own test cases, which are written as JSON text, be evaluated on the model, and
  shows that the laws assumed of the parameter hold for the real grammar. A fraction is
  printed by its exact expansion, which agrees with the crate where at most 17 digits are
  needed; an escape \<open>\u\<close> is read when it denotes a single byte.
\<close>

section \<open>Printing\<close>

abbreviation quote :: char where "quote \<equiv> CHR 0x22"
abbreviation backslash :: char where "backslash \<equiv> CHR 0x5C"

definition json_hex_digit :: "nat \<Rightarrow> char" where
  "json_hex_digit d = (if d < 10 then digit d else char_of (87 + d))"

definition escape_char :: "char \<Rightarrow> string" where
  "escape_char c =
     (let n = (of_char c :: nat)
      in if c = quote \<or> c = backslash then [backslash, c]
         else if 32 \<le> n then [c]
         else if n = 10 then [backslash, CHR ''n'']
         else if n = 13 then [backslash, CHR ''r'']
         else if n = 9 then [backslash, CHR ''t'']
         else if n = 8 then [backslash, CHR ''b'']
         else if n = 12 then [backslash, CHR ''f'']
         else [backslash, CHR ''u'', CHR ''0'', CHR ''0'', json_hex_digit (n div 16), json_hex_digit (n mod 16)])"

definition print_string :: "string \<Rightarrow> string" where
  "print_string s = quote # concat (map escape_char s) @ [quote]"

primrec fraction_digits :: "nat \<Rightarrow> rat \<Rightarrow> string" where
  "fraction_digits 0 r = []"
| "fraction_digits (Suc k) r =
     digit (nat \<lfloor>10 * r\<rfloor>) #
       (if 10 * r = of_int \<lfloor>10 * r\<rfloor> then [] else fraction_digits k (10 * r - of_int \<lfloor>10 * r\<rfloor>))"

definition print_num :: "jnum \<Rightarrow> string" where
  "print_num n =
     (case n of
        IntNum i \<Rightarrow> show_int i
      | FloatNum r \<Rightarrow>
          (if r < 0 then [CHR ''-''] else []) @ show_nat (nat \<lfloor>\<bar>r\<bar>\<rfloor>) @
            CHR ''.'' # fraction_digits 17 (\<bar>r\<bar> - of_int \<lfloor>\<bar>r\<bar>\<rfloor>))"

text \<open>The crate keeps an object's entries sorted by key, compared bytewise.\<close>

fun str_less :: "string \<Rightarrow> string \<Rightarrow> bool" where
  "str_less _ [] = False"
| "str_less [] (d # t) = True"
| "str_less (c # s) (d # t) =
     ((of_char c :: nat) < of_char d \<or> (c = d \<and> str_less s t))"

fun put_sorted :: "string \<Rightarrow> 'a \<Rightarrow> (string \<times> 'a) list \<Rightarrow> (string \<times> 'a) list" where
  "put_sorted k v [] = [(k, v)]"
| "put_sorted k v ((k', v') # kvs) =
     (if k = k' then (k, v) # kvs
      else if str_less k k' then (k, v) # (k', v') # kvs
      else (k', v') # put_sorted k v kvs)"

definition sort_entries :: "(string \<times> 'a) list \<Rightarrow> (string \<times> 'a) list" where
  "sort_entries kvs = foldl (\<lambda>sorted_kvs (k, v). put_sorted k v sorted_kvs) [] kvs"

definition print_entry :: "string \<times> string \<Rightarrow> string" where
  "print_entry e = print_string (fst e) @ CHR '':'' # snd e"

fun json_print :: "json \<Rightarrow> string" where
  "json_print JNull = ''null''"
| "json_print (JBool b) = (if b then ''true'' else ''false'')"
| "json_print (JNum n) = print_num n"
| "json_print (JStr s) = print_string s"
| "json_print (JArr xs) = CHR ''['' # join_with CHR '','' (map json_print xs) @ '']''"
| "json_print (JObj kvs) =
     CHR ''{'' # join_with CHR '','' (map print_entry (sort_entries (map (\<lambda>(k, v). (k, json_print v)) kvs)))
       @ ''}''"

section \<open>Parsing\<close>

definition json_ws :: "char \<Rightarrow> bool" where
  "json_ws c \<longleftrightarrow> c = CHR '' '' \<or> c = nl \<or> c = cr \<or> c = CHR 0x09"

abbreviation skip_ws :: "string \<Rightarrow> string" where
  "skip_ws \<equiv> dropWhile json_ws"

definition json_hex_value :: "char \<Rightarrow> nat option" where
  "json_hex_value c =
     (let n = of_char c
      in if 48 \<le> n \<and> n \<le> 57 then Some (n - 48)
         else if 97 \<le> n \<and> n \<le> 102 then Some (n - 87)
         else if 65 \<le> n \<and> n \<le> 70 then Some (n - 55)
         else None)"

definition simple_escape :: "char \<Rightarrow> char option" where
  "simple_escape e =
     (if e = quote \<or> e = backslash \<or> e = CHR ''/'' then Some e
      else if e = CHR ''n'' then Some nl
      else if e = CHR ''r'' then Some cr
      else if e = CHR ''t'' then Some (CHR 0x09)
      else if e = CHR ''b'' then Some (CHR 0x08)
      else if e = CHR ''f'' then Some (CHR 0x0C)
      else None)"

definition byte_escape :: "string \<Rightarrow> (char \<times> string) option" where
  "byte_escape s =
     (case s of
        a # b # c # d # t \<Rightarrow>
          (if a = CHR ''0'' \<and> b = CHR ''0''
           then Option.bind (json_hex_value c) (\<lambda>h. Option.bind (json_hex_value d) (\<lambda>l.
             if h < 8 then Some (char_of (16 * h + l), t) else None))
           else None)
      | _ \<Rightarrow> None)"

lemma byte_escape_shorter: "byte_escape s = Some (c, t) \<Longrightarrow> length t < length s"
  by (auto simp: byte_escape_def split: list.splits if_splits bind_splits)

function (sequential) string_body :: "string \<Rightarrow> (string \<times> string) option" where
  "string_body [] = None"
| "string_body (c # s) =
     (if c = quote then Some ([], s)
      else if c = backslash
      then (case s of
              [] \<Rightarrow> None
            | e # t \<Rightarrow>
                if e = CHR ''u''
                then (case byte_escape t of
                        None \<Rightarrow> None
                      | Some (x, t') \<Rightarrow> map_option (apfst ((#) x)) (string_body t'))
                else (case simple_escape e of
                        None \<Rightarrow> None
                      | Some x \<Rightarrow> map_option (apfst ((#) x)) (string_body t)))
      else if (of_char c :: nat) < 32 then None
      else map_option (apfst ((#) c)) (string_body s))"
  by pat_completeness auto
termination
  by (relation "measure length") (auto dest: byte_escape_shorter)

definition is_digit :: "char \<Rightarrow> bool" where
  "is_digit c \<longleftrightarrow> (let n = (of_char c :: nat) in 48 \<le> n \<and> n \<le> 57)"

definition decimal_value :: "string \<Rightarrow> nat" where
  "decimal_value ds = foldl (\<lambda>n c. 10 * n + (of_char c - 48)) 0 ds"

text \<open>The fraction and the exponent of a number: what they contribute, and what follows.\<close>

definition parse_fraction :: "string \<Rightarrow> (string \<times> string) option" where
  "parse_fraction s =
     (case s of
        c # r \<Rightarrow>
          (if c = CHR ''.''
           then (let ds = takeWhile is_digit r
                 in if ds = [] then None else Some (ds, dropWhile is_digit r))
           else Some ([], s))
      | [] \<Rightarrow> Some ([], []))"

definition parse_exponent :: "string \<Rightarrow> (int option \<times> string) option" where
  "parse_exponent s =
     (case s of
        c # r \<Rightarrow>
          (if c = CHR ''e'' \<or> c = CHR ''E''
           then (let neg = (r \<noteq> [] \<and> hd r = CHR ''-'');
                     r' = (if r \<noteq> [] \<and> (hd r = CHR ''-'' \<or> hd r = CHR ''+'') then tl r else r);
                     ds = takeWhile is_digit r'; e = int (decimal_value ds)
                 in if ds = [] then None else Some (Some (if neg then - e else e), dropWhile is_digit r'))
           else Some (None, s))
      | [] \<Rightarrow> Some (None, []))"

definition decimal :: "bool \<Rightarrow> string \<Rightarrow> string \<Rightarrow> int option \<Rightarrow> jnum" where
  "decimal neg ds fs e =
     (let n = int (decimal_value ds); i = (if neg then - n else n)
      in if fs = [] \<and> e = None \<and> i64_min \<le> i \<and> i < 2 ^ 64 \<and> \<not> (neg \<and> n = 0) then IntNum i
         else let m = of_nat (decimal_value (ds @ fs)) / 10 ^ length fs;
                  x = unwrap_or 0 e;
                  y = f64_round (if 0 \<le> x then m * 10 ^ nat x else m / 10 ^ nat (- x))
              in FloatNum (if neg then - y else y))"

definition parse_number :: "string \<Rightarrow> (json \<times> string) option" where
  "parse_number s =
     (let neg = (s \<noteq> [] \<and> hd s = CHR ''-''); r = (if neg then tl s else s);
          ds = takeWhile is_digit r
      in if ds = [] \<or> (1 < length ds \<and> hd ds = CHR ''0'') then None
         else case parse_fraction (dropWhile is_digit r) of
           None \<Rightarrow> None
         | Some (fs, r1) \<Rightarrow>
             (case parse_exponent r1 of
                None \<Rightarrow> None
              | Some (e, r2) \<Rightarrow> Some (JNum (decimal neg ds fs e), r2)))"

definition parse_word :: "string \<Rightarrow> (json \<times> string) option" where
  "parse_word s =
     (case strip_prefix ''null'' s of
        Some r \<Rightarrow> Some (JNull, r)
      | None \<Rightarrow>
        (case strip_prefix ''true'' s of
           Some r \<Rightarrow> Some (JBool True, r)
         | None \<Rightarrow>
           (case strip_prefix ''false'' s of
              Some r \<Rightarrow> Some (JBool False, r)
            | None \<Rightarrow> parse_number s)))"

text \<open>
  A value, the items of an array after its bracket, the members of an object after its brace.
  The first argument bounds the nesting and the number of items; the length of the text is
  enough.
\<close>

fun parse_value :: "nat \<Rightarrow> string \<Rightarrow> (json \<times> string) option"
  and parse_items :: "nat \<Rightarrow> string \<Rightarrow> (json list \<times> string) option"
  and parse_members :: "nat \<Rightarrow> string \<Rightarrow> ((string \<times> json) list \<times> string) option" where
  "parse_value 0 s = None"
| "parse_value (Suc n) s =
     (case skip_ws s of
        [] \<Rightarrow> None
      | c # r \<Rightarrow>
          if c = quote then map_option (apfst JStr) (string_body r)
          else if c = CHR ''['' then
            (case skip_ws r of
               [] \<Rightarrow> None
             | d # r' \<Rightarrow>
                 if d = CHR '']'' then Some (JArr [], r')
                 else map_option (apfst JArr) (parse_items n r))
          else if c = CHR ''{'' then
            (case skip_ws r of
               [] \<Rightarrow> None
             | d # r' \<Rightarrow>
                 if d = CHR ''}'' then Some (JObj [], r')
                 else map_option (apfst (\<lambda>kvs. JObj (sort_entries kvs))) (parse_members n r))
          else parse_word (c # r))"
| "parse_items 0 s = None"
| "parse_items (Suc n) s =
     (case parse_value n s of
        None \<Rightarrow> None
      | Some (v, r) \<Rightarrow>
          (case skip_ws r of
             [] \<Rightarrow> None
           | d # r' \<Rightarrow>
               if d = CHR '']'' then Some ([v], r')
               else if d = CHR '','' then map_option (apfst ((#) v)) (parse_items n r')
               else None))"
| "parse_members 0 s = None"
| "parse_members (Suc n) s =
     (case skip_ws s of
        [] \<Rightarrow> None
      | q # r \<Rightarrow>
          if q \<noteq> quote then None
          else case string_body r of
            None \<Rightarrow> None
          | Some (k, r1) \<Rightarrow>
              (case skip_ws r1 of
                 [] \<Rightarrow> None
               | c # r2 \<Rightarrow>
                   if c \<noteq> CHR '':'' then None
                   else case parse_value n r2 of
                     None \<Rightarrow> None
                   | Some (v, r3) \<Rightarrow>
                       (case skip_ws r3 of
                          [] \<Rightarrow> None
                        | d # r4 \<Rightarrow>
                            if d = CHR ''}'' then Some ([(k, v)], r4)
                            else if d = CHR '','' then map_option (apfst ((#) (k, v))) (parse_members n r4)
                            else None)))"

definition json_parse :: "string \<Rightarrow> json option" where
  "json_parse s =
     (case parse_value (Suc (length s)) s of
        Some (v, r) \<Rightarrow> (if skip_ws r = [] then Some v else None)
      | None \<Rightarrow> None)"

definition text_serde :: serde where
  "text_serde =
     \<lparr>to_string = (\<lambda>v. Some (json_print v)), from_str = json_parse,
      parse_error = (\<lambda>_. ''invalid JSON''), num_to_string = print_num\<rparr>"


section \<open>What is printed is read back\<close>

text \<open>
  The values a text can give back exactly: no fractions, integers in the range of \<open>i64\<close> and
  \<open>u64\<close>, entries in the order the crate keeps.
\<close>

fun text_value :: "json \<Rightarrow> bool" where
  "text_value (JNum n) = (case n of IntNum i \<Rightarrow> i64_min \<le> i \<and> i < 2 ^ 64 | FloatNum _ \<Rightarrow> False)"
| "text_value (JArr xs) = list_all text_value xs"
| "text_value (JObj kvs) = (sort_entries kvs = kvs \<and> list_all (\<lambda>(k, v). text_value v) kvs)"
| "text_value _ = True"

lemma json_hex_inverse: "d < 16 \<Longrightarrow> json_hex_value (json_hex_digit d) = Some d"
  by (auto simp: json_hex_value_def json_hex_digit_def of_char_digit Let_def take_bit_nat_def)

lemma char_cases_of_nat: "(of_char c :: nat) = n \<Longrightarrow> c = char_of n"
  by (metis char_of_char)

lemma control_chars:
  "char_of (10 :: nat) = nl" "char_of (13 :: nat) = cr" "char_of (9 :: nat) = CHR 0x09"
  "char_of (8 :: nat) = CHR 0x08" "char_of (12 :: nat) = CHR 0x0C" "char_of (48 :: nat) = CHR ''0''"
  by code_simp+

lemma string_body_escape: "string_body (escape_char c @ s) = map_option (apfst ((#) c)) (string_body s)"
proof -
  let ?n = "of_char c :: nat"
  consider "c = quote \<or> c = backslash" | "c \<noteq> quote" "c \<noteq> backslash" "32 \<le> ?n" | "?n = 10" | "?n = 13"
    | "?n = 9" | "?n = 8" | "?n = 12" | "?n < 32" "?n \<notin> {10, 13, 9, 8, 12}"
    by force
  then show ?thesis
  proof cases
    case 8
    then have c: "c \<noteq> quote" "c \<noteq> backslash" by auto
    have "byte_escape (CHR ''0'' # CHR ''0'' # json_hex_digit (?n div 16) # json_hex_digit (?n mod 16) # s) =
        Some (c, s)"
      using 8 by (simp add: byte_escape_def json_hex_inverse)
    with 8 c show ?thesis by (simp add: escape_char_def Let_def)
  qed (auto simp: escape_char_def simple_escape_def Let_def control_chars dest!: char_cases_of_nat)
qed

lemma string_body_print: "string_body (concat (map escape_char s) @ quote # rest) = Some (s, rest)"
  by (induction s) (simp_all add: string_body_escape)

subsection \<open>Integers\<close>

lemma is_digit_digit: "d < 10 \<Longrightarrow> is_digit (digit d)"
  by (simp add: is_digit_def of_char_digit)

lemma show_nat_all_digits: "list_all is_digit (show_nat n)"
  by (induction n rule: show_nat.induct) (subst show_nat.simps, auto simp: is_digit_digit)

lemma decimal_value_show: "decimal_value (show_nat n) = n"
proof (induction n rule: show_nat.induct)
  case (1 n)
  then show ?case
    by (subst show_nat.simps) (auto simp: decimal_value_def of_char_digit)
qed

lemma show_nat_no_leading_zero: "hd (show_nat n) = CHR ''0'' \<Longrightarrow> n = 0"
proof (induction n rule: show_nat.induct)
  case (1 n)
  show ?case
  proof (cases "n < 10")
    case True
    with 1 have "digit n = digit 0" by (simp add: show_nat.simps [of n] digit_def control_chars)
    with True show ?thesis using digit_inj [of n 0] by simp
  next
    case False
    with 1 have "n div 10 = 0"
      by (simp add: show_nat.simps [of n] hd_append)
    with False show ?thesis by simp
  qed
qed

text \<open>What may follow a number.\<close>

definition num_end :: "string \<Rightarrow> bool" where
  "num_end s = (case s of [] \<Rightarrow> True
     | c # _ \<Rightarrow> \<not> is_digit c \<and> c \<noteq> CHR ''.'' \<and> c \<noteq> CHR ''e'' \<and> c \<noteq> CHR ''E'')"

lemma take_digits:
  assumes "list_all is_digit ds" and "num_end s"
  shows "takeWhile is_digit (ds @ s) = ds" "dropWhile is_digit (ds @ s) = s"
  using assms by (induction ds) (auto simp: num_end_def split: list.splits)

lemma parse_number_show:
  assumes "i64_min \<le> i" and "i < 2 ^ 64" and "num_end s"
  shows "parse_number (show_int i @ s) = Some (JNum (IntNum i), s)"
proof -
  define n where "n = nat \<bar>i\<bar>"
  have d: "takeWhile is_digit (show_nat n @ s) = show_nat n" "dropWhile is_digit (show_nat n @ s) = s"
    using take_digits [OF show_nat_all_digits assms(3)] .
  have f: "parse_fraction s = Some ([], s)" "parse_exponent s = Some (None, s)"
    using assms(3) by (auto simp: parse_fraction_def parse_exponent_def num_end_def split: list.splits)
  have z: "\<not> (1 < length (show_nat n) \<and> hd (show_nat n) = CHR ''0'')"
    using show_nat_no_leading_zero [of n] by (auto simp: show_nat.simps [of 0])
  show ?thesis
  proof (cases "i < 0")
    case True
    then have "show_int i = CHR ''-'' # show_nat n" and "i = - int n" and "n \<noteq> 0"
      by (auto simp: show_int_def n_def)
    with assms(1) d f z show ?thesis
      by (simp add: parse_number_def decimal_def decimal_value_show Let_def)
  next
    case False
    then have i: "show_int i = show_nat n" "i = int n" by (auto simp: show_int_def n_def)
    have "hd (show_nat n @ s) \<noteq> CHR ''-''"
      using show_nat_all_digits [of n]
      by (cases "show_nat n") (auto simp: is_digit_def)
    with assms(1,2) i d f z show ?thesis
      by (simp add: parse_number_def decimal_def decimal_value_show Let_def)
  qed
qed


subsection \<open>Values\<close>

text \<open>The bound that suffices for a value; its text is at least that long.\<close>

definition items_bound :: "nat list \<Rightarrow> nat" where
  "items_bound ns = foldr (\<lambda>n b. Suc (max n b)) ns 0"

fun value_bound :: "json \<Rightarrow> nat" where
  "value_bound (JArr xs) = Suc (items_bound (map value_bound xs))"
| "value_bound (JObj kvs) = Suc (items_bound (map (\<lambda>(k, v). value_bound v) kvs))"
| "value_bound _ = 1"

lemma items_bound_Cons [simp]: "items_bound (n # ns) = Suc (max n (items_bound ns))"
  and items_bound_Nil [simp]: "items_bound [] = 0"
  by (simp_all add: items_bound_def)

lemma put_sorted_map:
  "put_sorted k (f v) (map (\<lambda>(k, v). (k, f v)) kvs) = map (\<lambda>(k, v). (k, f v)) (put_sorted k v kvs)"
  by (induction k v kvs rule: put_sorted.induct) auto

lemma sort_entries_map:
  "sort_entries (map (\<lambda>(k, v). (k, f v)) kvs) = map (\<lambda>(k, v). (k, f v)) (sort_entries kvs)"
proof -
  have "foldl (\<lambda>s (k, v). put_sorted k v s) (map (\<lambda>(k, v). (k, f v)) acc) (map (\<lambda>(k, v). (k, f v)) kvs) =
      map (\<lambda>(k, v). (k, f v)) (foldl (\<lambda>s (k, v). put_sorted k v s) acc kvs)" for acc
    by (induction kvs arbitrary: acc) (auto simp: put_sorted_map)
  from this [of "[]"] show ?thesis by (simp add: sort_entries_def)
qed

definition entry_text :: "string \<times> json \<Rightarrow> string" where
  "entry_text e = print_string (fst e) @ CHR '':'' # json_print (snd e)"

lemma print_object:
  assumes "sort_entries kvs = kvs"
  shows "json_print (JObj kvs) = CHR ''{'' # join_with CHR '','' (map entry_text kvs) @ ''}''"
  by (simp only: json_print.simps sort_entries_map assms map_map)
    (simp add: entry_text_def [abs_def] print_entry_def comp_def case_prod_unfold)

declare json_print.simps(6) [simp del]

text \<open>The first character of a value's text.\<close>

definition value_start :: "char \<Rightarrow> bool" where
  "value_start c \<longleftrightarrow> \<not> json_ws c \<and> c \<noteq> CHR '']'' \<and> c \<noteq> CHR ''}''"

lemma digit_value_start: "is_digit c \<Longrightarrow> value_start c"
  by (auto simp: value_start_def is_digit_def json_ws_def)

lemma show_int_first: "\<exists>c t. show_int i = c # t \<and> (is_digit c \<or> c = CHR ''-'')"
  using show_nat_all_digits [of "nat \<bar>i\<bar>"]
  by (cases "show_nat (nat \<bar>i\<bar>)") (auto simp: show_int_def)

lemma print_first:
  assumes "text_value v"
  shows "\<exists>c t. json_print v = c # t \<and> value_start c"
proof (cases v)
  case (JNum n)
  with assms obtain i where "n = IntNum i" by (cases n) auto
  with JNum show_int_first [of i] digit_value_start show ?thesis
    by (fastforce simp: print_num_def value_start_def json_ws_def)
qed (use assms in \<open>auto simp: value_start_def json_ws_def print_string_def print_object\<close>)

lemma skip_ws_print: "text_value v \<Longrightarrow> skip_ws (json_print v @ s) = json_print v @ s"
  using print_first [of v] by (auto simp: value_start_def)

lemma num_end_after: "num_end (CHR '','' # s)" "num_end (CHR '']'' # s)" "num_end (CHR ''}'' # s)" "num_end []"
  by (simp_all add: num_end_def is_digit_def)

lemma parse_word_number:
  assumes "i64_min \<le> i" and "i < 2 ^ 64" and "num_end s"
  shows "parse_word (show_int i @ s) = Some (JNum (IntNum i), s)"
  using show_int_first [of i] parse_number_show [OF assms]
  by (auto simp: parse_word_def strip_prefix_def is_digit_def)

lemma parse_value_number:
  assumes "i64_min \<le> i" and "i < 2 ^ 64" and "num_end s"
  shows "parse_value (Suc n) (show_int i @ s) = Some (JNum (IntNum i), s)"
proof -
  obtain c t where c: "show_int i = c # t" "is_digit c \<or> c = CHR ''-''"
    using show_int_first by blast
  then have "\<not> json_ws c" "c \<noteq> quote" "c \<noteq> CHR ''[''" "c \<noteq> CHR ''{''"
    by (auto simp: json_ws_def is_digit_def)
  with parse_word_number [OF assms] c show ?thesis by simp
qed

lemma parse_value_array:
  assumes "text_value x" and "parse_items n (join_with CHR '','' (map json_print (x # xs)) @ CHR '']'' # s) = Some (ys, s)"
  shows "parse_value (Suc n) (json_print (JArr (x # xs)) @ s) = Some (JArr ys, s)"
proof -
  obtain c t where c: "json_print x = c # t" "value_start c" using print_first [OF assms(1)] by blast
  then obtain t' where t': "join_with CHR '','' (map json_print (x # xs)) = c # t'" by (cases xs) auto
  from assms(2) t' have i: "parse_items n (c # t' @ CHR '']'' # s) = Some (ys, s)" by simp
  have "json_print (JArr (x # xs)) @ s = CHR ''['' # c # t' @ CHR '']'' # s"
    using t' by (simp only: json_print.simps) simp
  with c(2) i show ?thesis by (simp add: value_start_def json_ws_def)
qed


lemma parse_value_object:
  assumes "kvs = (k, x) # rest" and "sort_entries kvs = kvs"
    and "parse_members n (join_with CHR '','' (map entry_text kvs) @ CHR ''}'' # s) = Some (kvs, s)"
  shows "parse_value (Suc n) (json_print (JObj kvs) @ s) = Some (JObj kvs, s)"
proof -
  obtain t where t: "join_with CHR '','' (map entry_text kvs) = quote # t"
    using assms(1) by (cases rest) (auto simp: entry_text_def print_string_def)
  with assms(3) have "parse_members n (quote # t @ CHR ''}'' # s) = Some (kvs, s)" by simp
  moreover have "json_print (JObj kvs) @ s = CHR ''{'' # quote # t @ CHR ''}'' # s"
    using t print_object [OF assms(2)] by simp
  ultimately show ?thesis using assms(2) by (simp add: json_ws_def)
qed

lemma parse_one_member:
  assumes "parse_value n (json_print v @ d # s) = Some (v, d # s)" and "d = CHR '','' \<or> d = CHR ''}''"
  shows "parse_members (Suc n) (entry_text (k, v) @ d # s) =
    (if d = CHR ''}'' then Some ([(k, v)], s) else map_option (apfst ((#) (k, v))) (parse_members n s))"
  using assms string_body_print [of k "CHR '':'' # json_print v @ d # s"]
  by (auto simp: entry_text_def print_string_def json_ws_def)

text \<open>
  The text of a value, followed by anything that cannot continue a number, is read as the
  value, and what follows is left.
\<close>

lemma parse_print:
  "text_value v \<Longrightarrow> num_end s \<Longrightarrow> value_bound v \<le> n \<Longrightarrow> parse_value n (json_print v @ s) = Some (v, s)"
proof (induction v arbitrary: n s)
  case (JArr xs)
  then obtain m where n: "n = Suc m" "items_bound (map value_bound xs) \<le> m" by (cases n) auto
  have items: "parse_items m (join_with CHR '','' (map json_print ys) @ CHR '']'' # s) = Some (ys, s)"
    if "ys \<noteq> []" "set ys \<subseteq> set xs" "items_bound (map value_bound ys) \<le> m" for ys m
    using that
  proof (induction ys arbitrary: m)
    case (Cons y ys)
    then obtain k where m: "m = Suc k" "value_bound y \<le> k" "items_bound (map value_bound ys) \<le> k"
      by (cases m) auto
    have y: "parse_value k (json_print y @ d # r) = Some (y, d # r)" if "num_end (d # r)" for d r
      using JArr.IH [of y "d # r" k] JArr.prems(1) Cons.prems m that by (auto simp: list_all_iff)
    show ?case
    proof (cases ys)
      case Nil
      with m y [of "CHR '']''" s] num_end_after show ?thesis by (simp add: json_ws_def)
    next
      case (Cons z zs)
      with Cons.IH [of k] Cons.prems m have "parse_items k (join_with CHR '','' (map json_print ys) @ CHR '']'' # s) =
          Some (ys, s)" by simp
      with Cons m y num_end_after show ?thesis by (simp add: join_with_Cons json_ws_def)
    qed
  qed simp
  show ?case
  proof (cases xs)
    case Nil
    with n show ?thesis by (simp add: json_ws_def)
  next
    case (Cons x xs')
    with JArr.prems n items [of xs m] parse_value_array [of x m xs' s xs] show ?thesis by simp
  qed
next
  case (JObj kvs)
  then obtain m where n: "n = Suc m" "items_bound (map (\<lambda>(k, v). value_bound v) kvs) \<le> m"
    by (cases n) auto
  have sorted: "sort_entries kvs = kvs" using JObj.prems by simp
  have members: "parse_members m (join_with CHR '','' (map entry_text ys) @ CHR ''}'' # s) = Some (ys, s)"
    if "ys \<noteq> []" "set ys \<subseteq> set kvs" "items_bound (map (\<lambda>(k, v). value_bound v) ys) \<le> m" for ys m
    using that
  proof (induction ys arbitrary: m)
    case (Cons y ys)
    obtain k v where kv: "y = (k, v)" by (cases y)
    from Cons.prems obtain j where m: "m = Suc j" "value_bound v \<le> j" "items_bound (map (\<lambda>(k, v). value_bound v) ys) \<le> j"
      by (cases m) (auto simp: kv)
    have v: "parse_value j (json_print v @ d # r) = Some (v, d # r)" if "num_end (d # r)" for d r
      using JObj.IH [of y v "d # r" j] JObj.prems(1) Cons.prems m that kv by (auto simp: list_all_iff)
    show ?case
    proof (cases ys)
      case Nil
      with m v [of "CHR ''}''" s] num_end_after parse_one_member [of j v "CHR ''}''" s k] show ?thesis
        by (simp add: kv)
    next
      case (Cons z zs)
      with Cons.IH [of j] Cons.prems m have "parse_members j (join_with CHR '','' (map entry_text ys) @ CHR ''}'' # s) =
          Some (ys, s)" by simp
      with Cons m v num_end_after parse_one_member [of j v "CHR '',''"] show ?thesis
        by (simp add: kv join_with_Cons)
    qed
  qed simp
  show ?case
  proof (cases kvs)
    case Nil
    with n show ?thesis by (simp add: json_ws_def print_object sort_entries_def)
  next
    case (Cons e kvs')
    obtain k x where "e = (k, x)" by (cases e)
    with Cons sorted n members [of kvs m] parse_value_object [of kvs k x kvs' m s] show ?thesis by simp
  qed
next
  case (JNum i)
  then show ?case
    using parse_value_number by (cases n; cases i) (auto simp: print_num_def)
next
  case (JStr t)
  then show ?case using string_body_print [of t s] by (cases n) (auto simp: print_string_def json_ws_def)
next
  case JNull
  then show ?case by (cases n) (auto simp: json_ws_def parse_word_def strip_prefix_def)
next
  case (JBool b)
  then show ?case by (cases n) (auto simp: json_ws_def parse_word_def strip_prefix_def)
qed


lemma items_bound_le: "items_bound ns \<le> sum_list ns + length ns"
  by (induction ns) auto

lemma join_with_length: "ws \<noteq> [] \<Longrightarrow> Suc (length (join_with c ws)) = sum_list (map length ws) + length ws"
  by (induction c ws rule: join_with.induct) auto

lemma value_bound_le: "text_value v \<Longrightarrow> value_bound v \<le> length (json_print v)"
proof (induction v)
  case (JArr xs)
  then have "sum_list (map value_bound xs) \<le> sum_list (map (length \<circ> json_print) xs)"
    by (intro sum_list_mono) (auto simp: list_all_iff)
  with items_bound_le [of "map value_bound xs"] join_with_length [of "map json_print xs" "CHR '',''"]
  show ?case by (cases "xs = []") (auto simp: comp_def)
next
  case (JObj kvs)
  have "value_bound v \<le> length (entry_text (k, v))" if "(k, v) \<in> set kvs" for k v
    using JObj.IH [of "(k, v)" v] JObj.prems that by (fastforce simp: list_all_iff entry_text_def)
  then have "sum_list (map (\<lambda>(k, v). value_bound v) kvs) \<le> sum_list (map (length \<circ> entry_text) kvs)"
    by (intro sum_list_mono) auto
  with JObj.prems items_bound_le [of "map (\<lambda>(k, v). value_bound v) kvs"]
    join_with_length [of "map entry_text kvs" "CHR '',''"]
  show ?case by (cases "kvs = []") (auto simp: comp_def print_object)
next
  case (JNum n)
  then show ?case
    using show_int_first by (cases n) (auto simp: print_num_def Suc_le_eq, metis list.distinct(1))
qed (auto simp: print_string_def)

lemma json_round_trip:
  assumes "text_value v"
  shows "json_parse (json_print v) = Some v"
  using parse_print [OF assms num_end_after(4) value_bound_le [OF assms, THEN le_SucI]]
  by (simp add: json_parse_def)

lemma text_serde_round_trip:
  assumes "text_value v"
  shows "from_str text_serde (to_compact_string text_serde v) = Some v"
  using json_round_trip [OF assms] by (simp add: text_serde_def to_compact_string_def)

text \<open>The text of a value is one line.\<close>

lemma json_hex_one_line: "d < 16 \<Longrightarrow> json_hex_digit d \<noteq> nl"
  using json_hex_inverse [of d] by (auto simp: json_hex_value_def)

lemma escape_one_line: "nl \<notin> set (escape_char c)"
proof (cases "(of_char c :: nat) < 32")
  case True
  then have "json_hex_digit (of_char c div 16) \<noteq> nl" "json_hex_digit (of_char c mod 16) \<noteq> nl"
    by (simp_all add: json_hex_one_line)
  then show ?thesis by (auto simp: escape_char_def Let_def)
qed (auto simp: escape_char_def Let_def)

lemma print_string_one_line: "nl \<notin> set (print_string s)"
  using escape_one_line by (auto simp: print_string_def)

lemma join_with_one_line:
  "c \<noteq> nl \<Longrightarrow> (\<And>w. w \<in> set ws \<Longrightarrow> nl \<notin> set w) \<Longrightarrow> nl \<notin> set (join_with c ws)"
  by (induction c ws rule: join_with.induct) auto

lemma show_int_one_line: "nl \<notin> set (show_int i)"
proof -
  have "\<not> is_digit nl" by (simp add: is_digit_def)
  then have "nl \<notin> set (show_nat n)" for n
    using show_nat_all_digits [of n] by (auto simp: list_all_iff)
  then show ?thesis by (simp add: show_int_def)
qed

lemma print_one_line: "text_value v \<Longrightarrow> nl \<notin> set (json_print v)"
proof (induction v)
  case (JArr xs)
  then show ?case using join_with_one_line [of "CHR '',''" "map json_print xs"] by (auto simp: list_all_iff)
next
  case (JObj kvs)
  have "nl \<notin> set (entry_text e)" if "e \<in> set kvs" for e
    using JObj.IH [of e "snd e"] JObj.prems that print_string_one_line
    by (cases e) (fastforce simp: list_all_iff entry_text_def)
  with JObj.prems show ?case
    using join_with_one_line [of "CHR '',''" "map entry_text kvs"] by (fastforce simp: print_object)
next
  case (JNum n)
  then show ?case using show_int_one_line by (cases n) (auto simp: print_num_def)
qed (use print_string_one_line in auto)

end
