(* ===== verification/Unit_Tests_Pure.thy ===== *)
theory Unit_Tests_Pure
  imports Json_Text Frames Markdown Slash "HOL-Library.Code_Target_Nat"
begin

text \<open>
  The unit tests of the pure modules (\<open>json.rs\<close>, \<open>error.rs\<close>, \<open>reconnect.rs\<close>, \<open>bot_chat.rs\<close>,
  \<open>markdown.rs\<close>, \<open>slash.rs\<close>, \<open>frames.rs\<close>, \<open>rpc/client.rs\<close>), evaluated on the model: each definition
    is the conjunction of the assertions of the test of its name, and
  the lemma after it evaluates the model. They check that the model computes what the code
  is tested to compute. The JSON crate is \<^const>\<open>text_serde\<close>.
\<close>

section \<open>JSON accessors\<close>

definition str_at_returns_default_on_missing_or_wrong_type :: bool where
  "str_at_returns_default_on_missing_or_wrong_type \<longleftrightarrow>
     (let v = JObj [(''a'', JStr ''x''), (''b'', JNum (IntNum 1)), (''c'', JNull)]
      in str_at v ''a'' = ''x'' \<and> str_at v ''b'' = '''' \<and> str_at v ''c'' = '''' \<and>
         str_at v ''missing'' = '''')"

definition i64_at_handles_int_float_and_missing :: bool where
  "i64_at_handles_int_float_and_missing \<longleftrightarrow>
     (let v = JObj [(''i'', JNum (IntNum 42)), (''f'', JNum (FloatNum (8782019273372467 /
       2251799813685248))), (''neg'', JNum (IntNum (-7))), (''s'', JStr ''5''), (''n'', JNull)]
      in i64_at v ''i'' = 42 \<and> i64_at v ''f'' = 3 \<and> i64_at v ''neg'' = - 7 \<and> i64_at v ''s'' = 0 \<and>
         i64_at v ''n'' = 0 \<and> i64_at v ''missing'' = 0)"

definition bool_at_never_panics :: bool where
  "bool_at_never_panics \<longleftrightarrow>
     (let v = JObj [(''t'', JBool True), (''f'', JNum (IntNum 0)), (''n'', JNull)]
      in bool_at v ''t'' \<and> \<not> bool_at v ''f'' \<and> \<not> bool_at v ''n'' \<and> \<not> bool_at v ''missing'')"

definition f64_at_never_panics :: bool where
  "f64_at_never_panics \<longleftrightarrow>
     (let v = JObj [(''d'', JNum (FloatNum (5 / 4))), (''i'', JNum (IntNum 2)), (''s'', JStr ''x'')]
      in f64_at v ''d'' = 5 / 4 \<and> f64_at v ''i'' = 2 \<and> f64_at v ''s'' = 0 \<and> f64_at v ''missing'' =
        0)"

text \<open>The entries of the object are listed in the order of the crate, by key.\<close>

definition to_compact_string_is_one_line_and_lossless :: bool where
  "to_compact_string_is_one_line_and_lossless \<longleftrightarrow>
     (let v = JObj [(''seq'', JNum (IntNum 41)), (''text'', JStr (''Hel'' @ [nl] @ ''lo''))];
          s = to_compact_string text_serde v
      in nl \<notin> set s \<and> from_str text_serde s = Some v)"

lemma json_tests_pass:
  "str_at_returns_default_on_missing_or_wrong_type \<and>
   i64_at_handles_int_float_and_missing \<and>
   bool_at_never_panics \<and>
   f64_at_never_panics \<and>
   to_compact_string_is_one_line_and_lossless"
  by code_simp

section \<open>Error texts\<close>

definition no_reqwest_or_tungstenite_type_in_display_paths :: bool where
  "no_reqwest_or_tungstenite_type_in_display_paths \<longleftrightarrow>
     core_error_display CoreError_InvalidQr = ''invalid QR payload'' \<and>
     core_error_display CoreError_SessionExpired = (''session expired '' @ [CHR 0xE2, CHR 0x80, CHR
       0x94] @ '' re-login required'') \<and>
     core_error_display CoreError_UnexpectedStatus = ''unexpected submit status''"

lemma no_reqwest_or_tungstenite_type_in_display_paths_passes: "no_reqwest_or_tungstenite_type_in_display_paths"
  by code_simp

section \<open>Reconnect backoff\<close>

definition backoff_schedule_is_1_2_4_8_15_seconds :: bool where
  "backoff_schedule_is_1_2_4_8_15_seconds \<longleftrightarrow>
     (\<forall>(attempt, want) \<in> set (enumerate 0 [1000, 2000, 4000, 8000, 15000]).
        delay_for_attempt attempt = want)"

definition backoff_caps_at_final_step :: bool where
  "backoff_caps_at_final_step \<longleftrightarrow>
     delay_for_attempt 5 = 15000 \<and>
     delay_for_attempt 50 = 15000 \<and>
     delay_for_attempt (2 ^ 32 - 1) = 15000"

lemma backoff_caps_at_final_step_passes: "backoff_caps_at_final_step"
  by (simp add: backoff_caps_at_final_step_def delay_cases)

text \<open>The quotient \<open>i as f64 / 10.0\<close> is rounded to a double.\<close>

definition jitter_is_bounded_to_twenty_percent :: bool where
  "jitter_is_bounded_to_twenty_percent \<longleftrightarrow>
     jittered_delay 0 0 = 1000 \<and>
     jittered_delay 0 1 = 1200 \<and>
     jittered_delay 4 1 = 18000 \<and>
     jittered_delay 4 (1 / 2) = 16500 \<and>
     jittered_delay 0 (- 3) = 1000 \<and>
     jittered_delay 0 42 = 1200 \<and>
     sorted (map (\<lambda>i. jittered_delay 2 (f64_round (of_nat i / 10))) [0..<11])"

lemma jitter_is_bounded_to_twenty_percent_passes: "jitter_is_bounded_to_twenty_percent"
  unfolding jitter_is_bounded_to_twenty_percent_def sorted_map
  using jittered_delay_exact [of 0 0 0] jittered_delay_exact [of 0 1 200] jittered_delay_exact [of 4
    1 3000]
    jittered_delay_exact [of 4 "1 / 2" 1500] jittered_delay_exact [of 0 "- 3" 0]
      jittered_delay_exact [of 0 42 200]
  by (auto simp: delay_cases clamp01_def sorted_wrt_iff_nth_less
      intro!: jittered_delay_mono f64_round_mono divide_right_mono)

lemma backoff_schedule_is_1_2_4_8_15_seconds_passes: "backoff_schedule_is_1_2_4_8_15_seconds"
  by code_simp

section \<open>The canonical bot chat\<close>

definition existing_canonical_chat_resumes_not_creates :: bool where
  "existing_canonical_chat_resumes_not_creates \<longleftrightarrow>
     resolve_bot_chat [(''Daily work'', ''s-1''), (bot_chat_title, ''s-bot''), (''Misc'', ''s-3'')]
       =
       Resume_Chat ''s-bot''"

definition first_exact_match_wins_when_several_survive :: bool where
  "first_exact_match_wins_when_several_survive \<longleftrightarrow>
     resolve_bot_chat [(bot_chat_title, ''s-first''), (bot_chat_title, ''s-second'')] =
       Resume_Chat ''s-first''"

definition near_matches_do_not_win :: bool where
  "near_matches_do_not_win \<longleftrightarrow>
     resolve_bot_chat [(''bot chat'', ''s-lower''), (''Bot Chat '', ''s-trailing''), (''BotChat'',
       ''s-glued'')] =
       Create_Chat"

definition id_less_row_is_skipped :: bool where
  "id_less_row_is_skipped \<longleftrightarrow>
     resolve_bot_chat [(bot_chat_title, ''''), (''Other'', ''s-x''), (bot_chat_title, ''s-real'')] =
       Resume_Chat ''s-real'' \<and>
     resolve_bot_chat [(bot_chat_title, '''')] = Create_Chat"

definition empty_list_creates :: bool where
  "empty_list_creates \<longleftrightarrow>
     resolve_bot_chat [] = Create_Chat \<and>
     resolve_bot_chat [(''Daily work'', ''s-1'')] = Create_Chat"

lemma bot_chat_tests_pass:
  "existing_canonical_chat_resumes_not_creates \<and>
   first_exact_match_wins_when_several_survive \<and>
   near_matches_do_not_win \<and>
   id_less_row_is_skipped \<and>
   empty_list_creates"
  by code_simp

section \<open>Markdown blocks\<close>

definition fenced_code_with_language_and_plain_text :: bool where
  "fenced_code_with_language_and_plain_text \<longleftrightarrow>
     split_blocks (''before'' @ [nl] @ ''```rust'' @ [nl] @ ''fn main() {}'' @ [nl] @ ''```'' @ [nl]
       @ ''after'') =
       [\<lparr>language = '''', blk_text = ''before'', blk_open = True\<rparr>,
        \<lparr>language = ''rust'', blk_text = ''fn main() {}'', blk_open = False\<rparr>,
        \<lparr>language = '''', blk_text = ''after'', blk_open = True\<rparr>]"

definition unterminated_fence_stays_open_not_dropped :: bool where
  "unterminated_fence_stays_open_not_dropped \<longleftrightarrow>
     (let blocks = split_blocks (''text first'' @ [nl] @ ''```json'' @ [nl] @ ''{\"key\": \"val'')
      in length blocks = 2 \<and>
         blk_text (blocks ! 0) = ''text first'' \<and>
         blk_open (blocks ! 0) \<and>
         language (blocks ! 1) = ''json'' \<and>
         blk_text (blocks ! 1) = ''{\"key\": \"val'' \<and>
         blk_open (blocks ! 1))"

definition tilde_fence_carries_its_info_string :: bool where
  "tilde_fence_carries_its_info_string \<longleftrightarrow>
     (let blocks = split_blocks (''~~~rust'' @ [nl] @ ''let x = 1;'' @ [nl] @ ''~~~'' @ [nl])
      in length blocks = 1 \<and>
         language (blocks ! 0) = ''rust'' \<and>
         \<not> blk_open (blocks ! 0) \<and>
         blk_text (blocks ! 0) = ''let x = 1;'')"

definition terminated_fence_closes :: bool where
  "terminated_fence_closes \<longleftrightarrow>
     (let blocks = split_blocks (''```json'' @ [nl] @ ''{\"k\": 1}'' @ [nl] @ ''```'')
      in length blocks = 1 \<and>
         language (blocks ! 0) = ''json'' \<and>
         blk_text (blocks ! 0) = ''{\"k\": 1}'' \<and>
         \<not> blk_open (blocks ! 0))"

definition nested_backticks_do_not_close_the_block :: bool where
  "nested_backticks_do_not_close_the_block \<longleftrightarrow>
     (let blocks = split_blocks (''````md'' @ [nl] @ ''# title with `inline` code'' @ [nl] @
       ''````'')
      in length blocks = 1 \<and>
         language (blocks ! 0) = ''md'' \<and>
         blk_text (blocks ! 0) = ''# title with `inline` code'' \<and>
         \<not> blk_open (blocks ! 0))"

definition inline_backticks_inside_fence_stay_in_text :: bool where
  "inline_backticks_inside_fence_stay_in_text \<longleftrightarrow>
     (let blocks = split_blocks (''```'' @ [nl] @ ''use `x` here'' @ [nl] @ ''```'')
      in length blocks = 1 \<and>
         blk_text (blocks ! 0) = ''use `x` here'')"

definition multiline_code_keeps_newlines :: bool where
  "multiline_code_keeps_newlines \<longleftrightarrow>
     (let blocks = split_blocks (''```py'' @ [nl] @ ''a = 1'' @ [nl] @ ''b = 2'' @ [nl] @ ''```'')
      in blk_text (blocks ! 0) = (''a = 1'' @ [nl] @ ''b = 2'') \<and>
         language (blocks ! 0) = ''py'')"

definition plain_text_and_empty_input :: bool where
  "plain_text_and_empty_input \<longleftrightarrow>
     split_blocks '''' = [] \<and>
     (let blocks = split_blocks ''just text''
      in length blocks = 1 \<and>
         language (blocks ! 0) = '''' \<and>
         blk_text (blocks ! 0) = ''just text'')"

lemma markdown_tests_pass:
  "fenced_code_with_language_and_plain_text \<and>
   unterminated_fence_stays_open_not_dropped \<and>
   tilde_fence_carries_its_info_string \<and>
   terminated_fence_closes \<and>
   nested_backticks_do_not_close_the_block \<and>
   inline_backticks_inside_fence_stay_in_text \<and>
   multiline_code_keeps_newlines \<and>
   plain_text_and_empty_input"
  by code_simp

section \<open>Slash commands\<close>

definition successful_exec_renders_output_and_concatenates_warning_desktop_style :: bool where
  "successful_exec_renders_output_and_concatenates_warning_desktop_style \<longleftrightarrow>
     plan_after_slash_exec ''/goal'' (Inr (JObj [(''output'', JStr ''help'')])) = Inr (Plan_Output
       ''help'') \<and>
     plan_after_slash_exec ''/goal'' (Inr (JObj [(''output'', JStr ''body''), (''warning'', JStr
       ''config drifted'')])) = Inr (Plan_Output (''warning: config drifted'' @ [nl] @ ''body'')) \<and>
     plan_after_slash_exec ''/goal'' (Inr (JObj [(''warning'', JStr ''w'')])) = Inr (Plan_Output
       (''warning: w'' @ [nl]))"

definition code_4004_plans_empty_not_an_error :: bool where
  "code_4004_plans_empty_not_an_error \<longleftrightarrow>
     plan_after_slash_exec '''' (Inl (ClientError_Rpc 4004 ''empty command'')) = Inr (Plan_Empty)"

definition code_4018_plans_a_dispatch_with_split_name_and_arg :: bool where
  "code_4018_plans_a_dispatch_with_split_name_and_arg \<longleftrightarrow>
     plan_after_slash_exec ''/deploy prod'' (Inl (ClientError_Rpc 4018
       ''skill command: use command.dispatch for /deploy'')) = Inr (Plan_Dispatch ''deploy''
       ''prod'') \<and>
     plan_after_slash_exec ''/help'' (Inl (ClientError_Rpc 4018 '''')) = Inr (Plan_Dispatch ''help''
       '''')"

definition other_rpc_codes_propagate_as_errors :: bool where
  "other_rpc_codes_propagate_as_errors \<longleftrightarrow>
     (\<forall>code \<in> set [4009, 5020, 5030].
        case plan_after_slash_exec ''/x'' (Inl (ClientError_Rpc code ''real failure'')) of
          Inl (ClientError_Rpc c _) \<Rightarrow> c = code
        | _ \<Rightarrow> False)"

definition split_name_arg_strips_one_leading_slash_and_keeps_the_rest_of_the_arg :: bool where
  "split_name_arg_strips_one_leading_slash_and_keeps_the_rest_of_the_arg \<longleftrightarrow>
     split_name_arg ''/model set gpt-5'' = (''model'', ''set gpt-5'') \<and>
     split_name_arg ''model'' = (''model'', '''') \<and>
     split_name_arg ''/snap'' = (''snap'', '''') \<and>
     split_name_arg ''//weird x'' = (''weird'', ''x'')"

definition dispatch_outcomes_map_onto_the_plan_the_ffi_executes :: bool where
  "dispatch_outcomes_map_onto_the_plan_the_ffi_executes \<longleftrightarrow>
     plan_from_dispatch (Outcome_Output ''out'') = Do_Output ''out'' \<and>
     plan_from_dispatch (Outcome_Prefill ''/model '') = Do_Prefill ''/model '' \<and>
     plan_from_dispatch (Outcome_Send ''m'') = Do_Submit ''m'' '''' \<and>
     plan_from_dispatch (Outcome_Skill ''deploy'' ''hi'' ''/deploy'') = Do_Submit ''hi'' ''/deploy''
       \<and>
     plan_from_dispatch (Outcome_Alias ''/other'') = Do_Alias ''/other'' \<and>
     plan_from_dispatch Outcome_Unknown = Do_Unknown"

lemma slash_tests_pass:
  "successful_exec_renders_output_and_concatenates_warning_desktop_style \<and>
   code_4004_plans_empty_not_an_error \<and>
   code_4018_plans_a_dispatch_with_split_name_and_arg \<and>
   other_rpc_codes_propagate_as_errors \<and>
   split_name_arg_strips_one_leading_slash_and_keeps_the_rest_of_the_arg \<and>
   dispatch_outcomes_map_onto_the_plan_the_ffi_executes"
  by code_simp

section \<open>Frames\<close>

text \<open>The derived deserializer of \<^typ>\<open>request\<close>, as the first test uses it: the four fields.\<close>

definition request_of_value :: "json \<Rightarrow> request option" where
  "request_of_value v =
     (case (get_key v ''jsonrpc'', get_key v ''id'', get_key v ''method'', get_key v ''params'') of
        (Some (JStr j), Some (JStr i), Some (JStr m), Some p) \<Rightarrow>
          Some \<lparr>req_jsonrpc = j, req_id = i, req_method = m, req_params = p\<rparr>
      | _ \<Rightarrow> None)"

definition request_round_trip :: bool where
  "request_round_trip \<longleftrightarrow>
     (let req = \<lparr>req_jsonrpc = ''2.0'', req_id = ''r12'', req_method = ''prompt.submit'',
                 req_params = JObj [(''session_id'', JStr ''abc''), (''text'', JStr ''hi'')]\<rparr>;
          line = to_compact_string text_serde (request_to_value req)
      in Option.bind (from_str text_serde line) request_of_value = Some req)"

definition numeric_id_response_decode :: bool where
  "numeric_id_response_decode \<longleftrightarrow>
     (case decode text_serde ''{\"jsonrpc\":\"2.0\",\"id\":7,\"result\":{\"ok\":true}}'' of
        Some (Decoded_Result i result) \<Rightarrow> i = ''7'' \<and> bool_at result ''ok''
      | _ \<Rightarrow> False)"

definition two_lines_in_one_frame :: bool where
  "two_lines_in_one_frame \<longleftrightarrow>
     (let lines = split_lines
       (''{\"jsonrpc\":\"2.0\",\"method\":\"event\",\"params\":{\"type\":\"message.delta\",\"session_id\":\"s1\",\"seq\":1,\"payload\":{\"text\":\"Hel\"}}}''
       @ [nl] @ ''{\"jsonrpc\":\"2.0\",\"id\":2,\"result\":{\"ok\":true}}'' @ [nl])
      in length lines = 2 \<and>
         (case decode text_serde (lines ! 0) of
            Some (Decoded_Event ev) \<Rightarrow>
              event_type ev = ''message.delta'' \<and> ev_session_id ev = ''s1'' \<and> ev_seq ev = Some 1 \<and>
              str_at (ev_payload ev) ''text'' = ''Hel''
          | _ \<Rightarrow> False) \<and>
         (case decode text_serde (lines ! 1) of Some (Decoded_Result _ _) \<Rightarrow> True | _ \<Rightarrow> False))"

definition error_response_decode :: bool where
  "error_response_decode \<longleftrightarrow>
     (case decode text_serde
       ''{\"jsonrpc\":\"2.0\",\"id\":\"r12\",\"error\":{\"code\":4009,\"message\":\"session busy\",\"data\":null}}''
       of
        Some (Decoded_Error i e) \<Rightarrow> i = ''r12'' \<and> err_code e = 4009 \<and> err_message e =
          ''session busy''
      | _ \<Rightarrow> False)"

definition event_without_seq_and_empty_payload_decode :: bool where
  "event_without_seq_and_empty_payload_decode \<longleftrightarrow>
     (case decode text_serde
       ''{\"jsonrpc\":\"2.0\",\"method\":\"event\",\"params\":{\"type\":\"message.start\",\"session_id\":\"s1\"}}''
       of
        Some (Decoded_Event ev) \<Rightarrow> event_type ev = ''message.start'' \<and> ev_seq ev = None \<and> ev_payload
          ev = JNull
      | _ \<Rightarrow> False)"

definition never_panics_on_garbage_or_unknown_shapes :: bool where
  "never_panics_on_garbage_or_unknown_shapes \<longleftrightarrow>
     decode text_serde ''not json'' = None \<and>
     decode text_serde ''{\"jsonrpc\":\"1.0\",\"id\":1,\"result\":{}}'' = Some Decoded_Ignored \<and>
     (case decode text_serde
       ''{\"jsonrpc\":\"2.0\",\"method\":\"event\",\"params\":{\"type\":\"future.thing\",\"x\":1,\"payload\":{\"a\":2}}}''
       of
        Some (Decoded_Event ev) \<Rightarrow> event_type ev = ''future.thing''
      | _ \<Rightarrow> False) \<and>
     (case decode text_serde ''{\"jsonrpc\":\"2.0\",\"method\":\"event\"}'' of
        Some (Decoded_Event ev) \<Rightarrow> event_type ev = '''' \<and> ev_seq ev = None
      | _ \<Rightarrow> False)"

definition event_with_float_seq_and_missing_params_still_decode :: bool where
  "event_with_float_seq_and_missing_params_still_decode \<longleftrightarrow>
     (case decode text_serde
       ''{\"jsonrpc\":\"2.0\",\"method\":\"event\",\"params\":{\"type\":\"message.delta\",\"session_id\":\"s1\",\"seq\":1.0,\"payload\":{}}}''
       of
        Some (Decoded_Event ev) \<Rightarrow> ev_seq ev = Some 1
      | _ \<Rightarrow> False) \<and>
     (case decode text_serde ''{\"jsonrpc\":\"2.0\",\"method\":\"event\"}'' of
        Some (Decoded_Event ev) \<Rightarrow> event_type ev = '''' \<and> ev_session_id ev = '''' \<and> ev_seq ev = None
          \<and> ev_payload ev = JNull
      | _ \<Rightarrow> False) \<and>
     (case decode text_serde
       ''{\"jsonrpc\":\"2.0\",\"method\":\"event\",\"params\":{\"seq\":7,\"payload\":{\"a\":1}}}''
       of
        Some (Decoded_Event ev) \<Rightarrow> event_type ev = '''' \<and> ev_seq ev = Some 7 \<and> i64_at (ev_payload ev)
          ''a'' = 1
      | _ \<Rightarrow> False)"

definition decode_none_vs_ignored_policy :: bool where
  "decode_none_vs_ignored_policy \<longleftrightarrow>
     decode text_serde ''not json'' = None \<and>
     decode text_serde ''[]'' = Some Decoded_Ignored \<and>
     decode text_serde ''{\"jsonrpc\":\"2.0\",\"method\":\"ping\"}'' = Some Decoded_Ignored"

definition rpc_error_converts_to_core_error :: bool where
  "rpc_error_converts_to_core_error \<longleftrightarrow>
     (case core_error_of_rpc_error \<lparr>err_code = 4009, err_message = ''session busy'', err_data =
       JNull\<rparr> of
        CoreError_Rpc code _ \<Rightarrow> code = 4009
      | _ \<Rightarrow> False)"

text \<open>The fixture \<open>events_synthetic.jsonl\<close>, line by line.\<close>

definition events_synthetic :: "string list" where
  "events_synthetic =
     [''{\"jsonrpc\":\"2.0\",\"method\":\"event\",\"params\":{\"type\":\"approval.request\",\"session_id\":\"SYNTH\",\"seq\":100,\"payload\":{\"request_id\":\"req-synth-1\",\"command\":\"rm /tmp/hermo-synthetic-file\",\"description\":\"Delete the synthetic fixture file\",\"choices\":[\"once\",\"session\",\"always\",\"deny\"],\"smart_denied\":false,\"allow_session\":true,\"allow_permanent\":true}}}'',
      ''{\"jsonrpc\":\"2.0\",\"method\":\"event\",\"params\":{\"type\":\"approval.request\",\"session_id\":\"SYNTH\",\"seq\":101,\"payload\":{\"request_id\":\"req-synth-2\",\"command\":\"git push --force\",\"description\":\"Force-push a branch\",\"choices\":[\"once\",\"deny\"],\"smart_denied\":false,\"allow_session\":false,\"allow_permanent\":false}}}'']"

definition approval_line :: "string \<Rightarrow> bool" where
  "approval_line line \<longleftrightarrow>
     (case decode text_serde line of
        Some (Decoded_Event ev) \<Rightarrow> event_type ev = ''approval.request''
      | _ \<Rightarrow> False)"

definition synthetic_approval_fixture_decodes :: bool where
  "synthetic_approval_fixture_decodes \<longleftrightarrow> list_all approval_line events_synthetic"

lemma frame_tests_pass:
  "request_round_trip \<and>
   numeric_id_response_decode \<and>
   two_lines_in_one_frame \<and>
   error_response_decode \<and>
   event_without_seq_and_empty_payload_decode \<and>
   never_panics_on_garbage_or_unknown_shapes \<and>
   decode_none_vs_ignored_policy \<and>
   rpc_error_converts_to_core_error"
  by code_simp

lemma event_with_float_seq_and_missing_params_still_decode_passes:
  "event_with_float_seq_and_missing_params_still_decode"
  by code_simp

lemma first_synthetic_line: "approval_line (events_synthetic ! 0)"
  by code_simp

lemma second_synthetic_line: "approval_line (events_synthetic ! 1)"
  by code_simp

lemma synthetic_approval_fixture_decodes_passes: "synthetic_approval_fixture_decodes"
proof -
  have "length events_synthetic = 2" by (simp add: events_synthetic_def)
  then show ?thesis
    using first_synthetic_line second_synthetic_line
    by (auto simp: synthetic_approval_fixture_decodes_def list_all_length less_2_cases_iff)
qed

section \<open>Client errors\<close>

definition client_error_maps_losslessly_where_it_matters :: bool where
  "client_error_maps_losslessly_where_it_matters \<longleftrightarrow>
     core_error_of_client_error (ClientError_Timeout 1000) = CoreError_Timeout \<and>
     core_error_of_client_error (ClientError_Closed ''heartbeat timeout'') = CoreError_NotConnected
       \<and>
     (case core_error_of_client_error (ClientError_Transport ''reset'') of CoreError_Network _ \<Rightarrow>
       True | _ \<Rightarrow> False) \<and>
     (case core_error_of_client_error (ClientError_Rpc 5000 ''boom'') of
        CoreError_Rpc code _ \<Rightarrow> code = 5000
      | _ \<Rightarrow> False)"

definition handshake_403_maps_to_upgrade_rejected_and_reset_stays_network :: bool where
  "handshake_403_maps_to_upgrade_rejected_and_reset_stays_network \<longleftrightarrow>
     (let wire = client_error_of_ws (Ws_Http 403);
          reset = core_error_of_client_error (client_error_of_ws (Ws_Other ''reset''))
      in wire = ClientError_HandshakeRejected 403 \<and>
         core_error_of_client_error wire = CoreError_UpgradeRejected \<and>
         (case reset of CoreError_Network _ \<Rightarrow> True | _ \<Rightarrow> False) \<and>
         core_error_of_client_error (client_error_of_ws (Ws_Http 503)) = CoreError_Http 503)"

lemma client_error_tests_pass:
  "client_error_maps_losslessly_where_it_matters \<and>
   handshake_403_maps_to_upgrade_rejected_and_reset_stays_network"
  by code_simp

end
