(* ===== verification/Unit_Tests_Reducer.thy ===== *)
theory Unit_Tests_Reducer
  imports Json_Text Core_State "HOL-Library.Monad_Syntax" "HOL-Library.Code_Target_Nat"
begin

text \<open>
  The unit tests of \<open>transcript/reducer.rs\<close>, evaluated on the model. A test is a block over
  the panics option: its value is \<open>Some\<close> of the conjunction of its assertions, so
  \<open>Some True\<close> says that nothing panicked and every assertion holds.
\<close>

section \<open>Helpers of the tests\<close>

definition test_event :: "string \<Rightarrow> json \<Rightarrow> event_params" where
  "test_event ty payload =
     \<lparr>event_type = ty, ev_session_id = ''s1'', ev_seq = None, ev_payload = payload\<rparr>"

definition event_no_session :: "string \<Rightarrow> event_params" where
  "event_no_session ty =
     \<lparr>event_type = ty, ev_session_id = '''', ev_seq = None, ev_payload = JObj [(''text'', JStr
       ''x'')]\<rparr>"

text \<open>\<open>r.apply(&event(..))\<close>, with and without its changes.\<close>

abbreviation apply_ev :: "reducer \<Rightarrow> event_params \<Rightarrow> (reducer \<times> session_change list) panics" where
  "apply_ev \<equiv> reducer_apply text_serde"

definition feed :: "reducer \<Rightarrow> string \<Rightarrow> json \<Rightarrow> reducer panics" where
  "feed r ty payload = map_option fst (apply_ev r (test_event ty payload))"

text \<open>An event that is to emit nothing.\<close>

definition silent :: "reducer \<Rightarrow> event_params \<Rightarrow> (reducer \<times> bool) panics" where
  "silent r ev = map_option (\<lambda>(r', changes). (r', changes = [])) (apply_ev r ev)"

text \<open>The kind of a row, or the panic of the match on it.\<close>

definition assistant_text :: "row \<Rightarrow> string panics" where
  "assistant_text row = (case kind row of Assistant text _ _ _ \<Rightarrow> Some text | _ \<Rightarrow> panic)"

definition tool_card_of :: "row \<Rightarrow> tool_card panics" where
  "tool_card_of row = (case kind row of Tool c \<Rightarrow> Some c | _ \<Rightarrow> panic)"

definition approval_card_of :: "row \<Rightarrow> approval_card panics" where
  "approval_card_of row = (case kind row of Approval c \<Rightarrow> Some c | _ \<Rightarrow> panic)"

definition clarify_card_of :: "row \<Rightarrow> clarify_card panics" where
  "clarify_card_of row = (case kind row of Clarify c \<Rightarrow> Some c | _ \<Rightarrow> panic)"

section \<open>The tests\<close>

definition tool_start_pairs_with_the_newest_placeholder_not_an_abandoned_one :: "bool panics" where
  "tool_start_pairs_with_the_newest_placeholder_not_an_abandoned_one =
     do {
       r \<leftarrow> feed new_reducer ''tool.generating'' (JObj [(''name'', JStr ''Bash'')]);
       r \<leftarrow> feed r ''tool.generating'' (JObj [(''name'', JStr ''Bash'')]);
       r \<leftarrow> feed r ''tool.start'' (JObj [(''tool_id'', JStr ''t-2''), (''name'', JStr ''Bash'')]);
       abandoned \<leftarrow> tool_card_of (r_rows r ! 0);
       fresh \<leftarrow> tool_card_of (r_rows r ! 1);
       let two = (length (r_rows r) = 2);
       r \<leftarrow> feed r ''tool.complete'' (JObj [(''tool_id'', JStr ''t-2''), (''result'', JObj [(''ok'',
         JBool True)])]);
       completed \<leftarrow> tool_card_of (r_rows r ! 1);
       history \<leftarrow> tool_card_of (r_rows r ! 0);
       Some (two \<and>
         tool_id abandoned = '''' \<and>
         tool_id fresh = ''t-2'' \<and>
         complete completed \<and>
         \<not> complete history)
     }"

definition message_complete_replaces_streamed_text :: "bool panics" where
  "message_complete_replaces_streamed_text =
     do {
       r \<leftarrow> feed new_reducer ''message.start'' (JObj []);
       r \<leftarrow> feed r ''message.delta'' (JObj [(''text'', JStr ''Hel'')]);
       r \<leftarrow> feed r ''message.delta'' (JObj [(''text'', JStr ''lo'')]);
       r \<leftarrow> feed r ''message.complete'' (JObj [(''text'', JStr ''Hello, world.''), (''status'', JStr
         ''done'')]);
       Some (length (r_rows r) = 1 \<and>
         assistant_text (r_rows r ! 0) = Some ''Hello, world.'' \<and>
         (case kind (r_rows r ! 0) of Assistant _ s usage _ \<Rightarrow> \<not> s \<and> usage = '''' | _ \<Rightarrow> False))
     }"

definition message_complete_keeps_usage_json :: "bool panics" where
  "message_complete_keeps_usage_json =
     do {
       r \<leftarrow> feed new_reducer ''message.start'' (JObj []);
       r \<leftarrow> feed r ''message.complete'' (JObj [(''text'', JStr ''done''), (''usage'', JObj
         [(''total'', JNum (IntNum 42))])]);
       Some ((case kind (r_rows r ! 0) of Assistant _ _ usage _ \<Rightarrow> usage = ''{\"total\":42}'' | _ \<Rightarrow>
         False))
     }"

definition message_interim_seals_current_assistant_row :: "bool panics" where
  "message_interim_seals_current_assistant_row =
     do {
       r \<leftarrow> feed new_reducer ''message.start'' (JObj []);
       r \<leftarrow> feed r ''message.delta'' (JObj [(''text'', JStr ''part one'')]);
       r \<leftarrow> feed r ''message.interim'' (JObj [(''text'', JStr ''part one''), (''already_streamed'',
         JBool True)]);
       r \<leftarrow> feed r ''message.delta'' (JObj [(''text'', JStr ''part two'')]);
       Some (length (r_rows r) = 2 \<and>
         assistant_text (r_rows r ! 0) = Some ''part one'' \<and>
         assistant_text (r_rows r ! 1) = Some ''part two'' \<and>
         (case kind (r_rows r ! 0) of Assistant _ s _ _ \<Rightarrow> \<not> s | _ \<Rightarrow> False) \<and>
         (case kind (r_rows r ! 1) of Assistant _ s _ _ \<Rightarrow> s | _ \<Rightarrow> False))
     }"

definition message_interim_carries_text_when_not_already_streamed :: "bool panics" where
  "message_interim_carries_text_when_not_already_streamed =
     do {
       r \<leftarrow> feed new_reducer ''message.start'' (JObj []);
       r \<leftarrow> feed r ''message.interim'' (JObj [(''text'', JStr ''partial answer''),
         (''already_streamed'', JBool False)]);
       Some (length (r_rows r) = 1 \<and>
         assistant_text (r_rows r ! 0) = Some ''partial answer'' \<and>
         (case kind (r_rows r ! 0) of Assistant _ s _ _ \<Rightarrow> \<not> s | _ \<Rightarrow> False))
     }"

definition one_tool_card_per_tool_id_updated_in_place :: "bool panics" where
  "one_tool_card_per_tool_id_updated_in_place =
     do {
       r \<leftarrow> feed new_reducer ''tool.generating'' (JObj [(''name'', JStr ''terminal'')]);
       r \<leftarrow> feed r ''tool.start'' (JObj [(''tool_id'', JStr ''t1''), (''name'', JStr ''terminal''),
         (''context'', JStr ''echo hi''), (''args'', JObj [(''command'', JStr ''echo hi'')])]);
       r \<leftarrow> feed r ''tool.complete'' (JObj [(''tool_id'', JStr ''t1''), (''name'', JStr
         ''terminal''), (''result'', JObj [(''output'', JStr ''hi'')]), (''duration_s'', JNum
         (FloatNum (1 / 2)))]);
       card \<leftarrow> tool_card_of (r_rows r ! 0);
       Some (length (r_rows r) = 1 \<and>
         tool_id card = ''t1'' \<and>
         tool_name card = ''terminal'' \<and>
         tool_context card = ''echo hi'' \<and>
         args_json card = ''{\"command\":\"echo hi\"}'' \<and>
         result_json card = ''{\"output\":\"hi\"}'' \<and>
         \<bar>duration_s card - 1 / 2\<bar> < 1 / 10 ^ 9 \<and>
         complete card)
     }"

definition tool_progress_updates_card_without_new_rows :: "bool panics" where
  "tool_progress_updates_card_without_new_rows =
     do {
       r \<leftarrow> feed new_reducer ''tool.start'' (JObj [(''tool_id'', JStr ''t1''), (''name'', JStr
         ''fetch'')]);
       (r, changes) \<leftarrow> apply_ev r (test_event ''tool.progress'' (JObj [(''tool_id'', JStr ''t1''),
         (''event_type'', JStr ''output''), (''preview'', JStr ''12 lines'')]));
       card \<leftarrow> tool_card_of (r_rows r ! 0);
       Some (length (r_rows r) = 1 \<and>
         tool_context card = ''12 lines'' \<and>
         sc_change (changes ! 0) = RowUpdated 0)
     }"

definition approval_choices_and_command_taken_verbatim_not_recomputed :: "bool panics" where
  "approval_choices_and_command_taken_verbatim_not_recomputed =
     do {
       r \<leftarrow> feed new_reducer ''approval.request'' (JObj [(''request_id'', JStr ''req-synth-2''),
         (''command'', JStr ''git push --force''), (''description'', JStr ''Force-push a branch''),
         (''choices'', JArr [JStr ''once'', JStr ''deny'']), (''allow_session'', JBool False),
         (''allow_permanent'', JBool False), (''smart_denied'', JBool False)]);
       card \<leftarrow> approval_card_of (r_rows r ! 0);
       (r, changes) \<leftarrow> resolve_approval r ''s1'' ''req-synth-2'';
       answered \<leftarrow> approval_card_of (r_rows r ! 0);
       (r, again) \<leftarrow> resolve_approval r ''s1'' ''req-synth-2'';
       Some (appr_request_id card = ''req-synth-2'' \<and>
         appr_command card = ''git push --force'' \<and>
         appr_choices card = [''once'', ''deny''] \<and>
         \<not> appr_resolved card \<and>
         sc_change (changes ! 0) = RowUpdated 0 \<and>
         appr_resolved answered \<and>
         again = [])
     }"

definition clarify_both_shapes_and_resolution :: "bool panics" where
  "clarify_both_shapes_and_resolution =
     do {
       r \<leftarrow> feed new_reducer ''clarify.request'' (JObj [(''request_id'', JStr ''c1''), (''question'',
         JStr ''Continue?''), (''choices'', JArr [JStr ''Yes'', JStr ''No'']), (''multi_select'',
         JBool False)]);
       r \<leftarrow> feed r ''clarify.request'' (JObj [(''request_id'', JStr ''c2''), (''questions'', JArr
         [JObj [(''qid'', JStr ''q0''), (''question'', JStr
         ''Quale colore preferisci, blu o verde?''), (''choices'', JArr [JStr ''Blu'', JStr
         ''Verde'']), (''multi_select'', JBool False)]])]);
       let two = (length (r_rows r) = 2);
       c1 \<leftarrow> clarify_card_of (r_rows r ! 0);
       c2 \<leftarrow> clarify_card_of (r_rows r ! 1);
       (r, changes) \<leftarrow> resolve_clarify r ''s1'' ''c1'';
       answered \<leftarrow> clarify_card_of (r_rows r ! 0);
       other \<leftarrow> clarify_card_of (r_rows r ! 1);
       (r, again) \<leftarrow> resolve_clarify r ''s1'' ''c1'';
       Some (two \<and>
         clar_request_id c1 = ''c1'' \<and>
         length (clar_questions c1) = 1 \<and>
         qid (clar_questions c1 ! 0) = ''q0'' \<and>
         q_choices (clar_questions c1 ! 0) = [''Yes'', ''No''] \<and>
         \<not> clar_resolved c1 \<and>
         clar_request_id c2 = ''c2'' \<and>
         qid (clar_questions c2 ! 0) = ''q0'' \<and>
         question (clar_questions c2 ! 0) = ''Quale colore preferisci, blu o verde?'' \<and>
         sc_change (changes ! 0) = RowUpdated 0 \<and>
         clar_resolved answered \<and>
         \<not> clar_resolved other \<and>
         again = [])
     }"

text \<open>The loop of the next test over the visible kinds.\<close>

fun status_rounds :: "reducer \<Rightarrow> (nat \<times> string) list \<Rightarrow> bool panics" where
  "status_rounds r [] = Some True"
| "status_rounds r ((i, k) # ks) =
     do {
       r \<leftarrow> feed r ''status.update'' (JObj [(''kind'', JStr k), (''text'', JStr ''t'')]);
       rest \<leftarrow> status_rounds r ks;
       Some ((case kind (r_rows r ! i) of
                Status parsed text \<Rightarrow>
                  parsed =
                    (if k = ''status'' then StatusKind_Status
                     else if k = ''lifecycle'' then StatusKind_Lifecycle
                     else if k = ''compacting'' then StatusKind_Compacting
                     else if k = ''compacted'' then StatusKind_Compacted
                     else StatusKind_Other ''weird'') \<and> text = ''t''
              | _ \<Rightarrow> False) \<and> rest)
     }"

definition status_kinds_cover_verified_set :: "bool panics" where
  "status_kinds_cover_verified_set =
     status_rounds new_reducer
       (enumerate 0 [''status'', ''lifecycle'', ''compacting'', ''compacted'', ''weird''])"

definition heartbeat_status_is_not_a_row :: "bool panics" where
  "heartbeat_status_is_not_a_row =
     do {
       r \<leftarrow> feed new_reducer ''status.update'' (JObj [(''kind'', JStr ''status''), (''text'', JStr
         ''working'')]);
       (r, changes) \<leftarrow> apply_ev r (test_event ''status.update'' (JObj [(''kind'', JStr
         ''heartbeat''), (''text'', JStr ''ping'')]));
       Some (status_kind_parse ''heartbeat'' = StatusKind_Heartbeat \<and>
         changes = [] \<and>
         length (r_rows r) = 1 \<and>
         index (r_rows r ! 0) = 0)
     }"

definition session_info_and_title_update_the_header :: "bool panics" where
  "session_info_and_title_update_the_header =
     do {
       r \<leftarrow> feed new_reducer ''session.info'' (JObj [(''model'', JStr ''m1''), (''cwd'', JStr
         ''/c''), (''usage'', JObj [(''total'', JNum (IntNum 3))])]);
       r \<leftarrow> feed r ''session.title'' (JObj [(''title'', JStr ''my chat'')]);
       let h = header (r_state r);
       Some (h_model h = ''m1'' \<and>
         h_cwd h = ''/c'' \<and>
         h_usage_json h = ''{\"total\":3}'' \<and>
         h_title h = ''my chat'' \<and>
         r_rows r = [])
     }"

definition sessionless_events_emit_nothing_and_add_no_rows :: "bool panics" where
  "sessionless_events_emit_nothing_and_add_no_rows =
     do {
       (r, a) \<leftarrow> silent new_reducer (\<lparr>event_type = ''gateway.ready'', ev_session_id = '''', ev_seq =
         None,
           ev_payload = JObj [(''replay_epoch'', JStr ''e1'')]\<rparr>);
       (r, b) \<leftarrow> silent r (event_no_session ''message.start'');
       (r, c) \<leftarrow> silent r (event_no_session ''message.complete'');
       (r, d) \<leftarrow> silent r (event_no_session ''error'');
       Some (a \<and>
         b \<and>
         c \<and>
         d \<and>
         r_rows r = [] \<and>
         h_title (header (r_state r)) = '''')
     }"

definition unknown_events_and_garbage_payloads_never_panic :: "bool panics" where
  "unknown_events_and_garbage_payloads_never_panic =
     do {
       (r, e1) \<leftarrow> silent new_reducer (test_event ''subagent.spawn'' (JObj [(''x'', JNum (IntNum
         1))]));
       (r, e2) \<leftarrow> silent r (test_event ''notification.show'' (JObj []));
       (r, e3) \<leftarrow> silent r (test_event ''message.delta'' (JObj [(''text'', JNum (IntNum 42))]));
       (r, e4) \<leftarrow> silent r (test_event ''message.delta'' (JNull));
       (r, e5) \<leftarrow> silent r (test_event ''tool.start'' (JStr ''garbage''));
       (r, e6) \<leftarrow> silent r (test_event ''approval.request'' (JArr [JNum (IntNum 1), JNum (IntNum 2),
         JNum (IntNum 3)]));
       (r, e7) \<leftarrow> silent r (test_event ''clarify.request'' (JObj [(''request_id'', JNum (IntNum
         9))]));
       (r, e8) \<leftarrow> silent r (test_event ''status.update'' (JObj [(''kind'', JNum (IntNum 5))]));
       (r, e9) \<leftarrow> silent r (test_event ''session.info'' (JStr ''not an object''));
       (r, e10) \<leftarrow> silent r (\<lparr>event_type = ''message.delta'', ev_session_id = ''s1'', ev_seq = Some
         1, ev_payload = JNull\<rparr>);
       r \<leftarrow> feed r ''message.start'' (JObj []);
       Some (e1 \<and> e2 \<and> e3 \<and> e4 \<and> e5 \<and> e6 \<and> e7 \<and> e8 \<and> e9 \<and> e10 \<and>
         length (r_rows r) = 1)
     }"

definition changes_carry_their_session_key :: "bool panics" where
  "changes_carry_their_session_key =
     do {
       (r, c1) \<leftarrow> apply_ev new_reducer ((test_event ''message.start'' (JObj []))\<lparr>ev_session_id :=
         ''sess-A''\<rparr>);
       (r, c2) \<leftarrow> apply_ev r ((test_event ''message.complete'' (JObj [(''text'', JStr
         ''done'')]))\<lparr>ev_session_id := ''sess-A''\<rparr>);
       Some (list_all (\<lambda>c. sc_key c = ''sess-A'') c1 \<and>
         sc_change (c1 ! 0) = RowAppended 0 \<and>
         c2 ! 0 = \<lparr>sc_key = ''sess-A'', sc_change = RowUpdated 0\<rparr>)
     }"

definition reset_from_resume_wipes_and_emits_reset :: "bool panics" where
  "reset_from_resume_wipes_and_emits_reset =
     do {
       r \<leftarrow> feed new_reducer ''message.start'' (JObj []);
       r \<leftarrow> feed r ''message.complete'' (JObj [(''text'', JStr ''old'')]);
       let (r, changes) = reset_from_resume r ''s1'';
       let empty = (r_rows r = []);
       r \<leftarrow> feed r ''message.start'' (JObj []);
       Some (length changes = 1 \<and>
         sc_key (changes ! 0) = ''s1'' \<and>
         sc_change (changes ! 0) = Reset \<and>
         empty \<and>
         length (r_rows r) = 1)
     }"

definition change_label :: "transcript_change \<Rightarrow> string" where
  "change_label c =
     (case c of
        Reset \<Rightarrow> ''reset''
      | RowAppended i \<Rightarrow> ''row@'' @ show_nat i
      | HeaderUpdated \<Rightarrow> ''other:HeaderUpdated''
      | RowUpdated i \<Rightarrow> ''other:RowUpdated { index: '' @ show_nat i @ '' }'')"

definition resume_messages_ingest_renders_history_without_events :: "bool panics" where
  "resume_messages_ingest_renders_history_without_events =
     do {
       r \<leftarrow> feed new_reducer ''message.complete'' (JObj [(''text'', JStr ''stale'')]);
       let messages =
         [JObj [(''role'', JStr ''user''), (''text'', JStr ''hi there'')],
          JObj [(''role'', JStr ''assistant''), (''text'', JStr ''hello back'')],
          JObj [(''role'', JStr ''tool''), (''name'', JStr ''terminal''), (''context'', JStr
            ''echo hi''), (''text'', JStr ''{\"output\": \"hi\"}''), (''display_metadata'', JObj
            [(''tool_id'', JStr ''t9'')])],
          JObj [(''role'', JStr ''assistant'')],
          JStr ''not an object''];
       let (r, changes) = ingest_resume_messages r ''s-resume'' messages;
       let rebuilt = r_rows r;
       let dto = (\<lambda>c. change_to_dto text_serde ''s-resume'' (sc_change c) rebuilt '''');
       card \<leftarrow> tool_card_of (rebuilt ! 2);
       (r2, _) \<leftarrow> apply_ev r ((test_event ''message.start'' (JObj []))\<lparr>ev_session_id :=
         ''s-resume''\<rparr>);
       Some (sc_key (changes ! 0) = ''s-resume'' \<and>
         sc_change (changes ! 0) = Reset \<and>
         length changes = 5 \<and>
         map (change_label \<circ> sc_change) changes = [''reset'', ''row@0'', ''row@1'', ''row@2'',
           ''row@3''] \<and>
         list_all (\<lambda>(i, c). sc_key c = ''s-resume'' \<and> sc_change c = RowAppended i) (enumerate 0 (tl
           changes)) \<and>
         list_all (\<lambda>(i, c). dto_index (dto c) = i \<and> dto_row_json (dto c) \<noteq> '''') (enumerate 0 (tl
           changes)) \<and>
         dto_row_json (dto (changes ! 1)) = ''{\"kind\":\"user\",\"text\":\"hi there\"}'' \<and>
         length rebuilt = 4 \<and>
         kind_at (r_state r) 0 = ''user'' \<and>
         kind (rebuilt ! 0) = User ''hi there'' \<and>
         (case kind (rebuilt ! 1) of Assistant t s _ _ \<Rightarrow> t = ''hello back'' \<and> \<not> s | _ \<Rightarrow> False) \<and>
         tool_name card = ''terminal'' \<and>
         tool_id card = ''t9'' \<and>
         result_json card = ''{\"output\": \"hi\"}'' \<and>
         complete card \<and>
         assistant_text (rebuilt ! 3) = Some '''' \<and>
         list_all (\<lambda>row. case kind row of Assistant t _ _ _ \<Rightarrow> t \<noteq> ''stale'' | _ \<Rightarrow> True) rebuilt \<and>
         length (r_rows r2) = 5)
     }"

definition empty_resume_messages_still_resets :: "bool panics" where
  "empty_resume_messages_still_resets =
     do {
       r \<leftarrow> feed new_reducer ''message.complete'' (JObj [(''text'', JStr ''old'')]);
       let (r, changes) = ingest_resume_messages r ''s1'' [];
       Some (length changes = 1 \<and>
         sc_key (changes ! 0) = ''s1'' \<and>
         sc_change (changes ! 0) = Reset \<and>
         r_rows r = [])
     }"

definition thinking_deltas_accumulate_and_restart_after_assistant :: "bool panics" where
  "thinking_deltas_accumulate_and_restart_after_assistant =
     do {
       r \<leftarrow> feed new_reducer ''thinking.delta'' (JObj [(''text'', JStr ''a'')]);
       r \<leftarrow> feed r ''reasoning.delta'' (JObj [(''text'', JStr ''b'')]);
       r \<leftarrow> feed r ''message.start'' (JObj []);
       r \<leftarrow> feed r ''message.complete'' (JObj [(''text'', JStr ''x'')]);
       r \<leftarrow> feed r ''thinking.delta'' (JObj [(''text'', JStr ''c'')]);
       Some (length (r_rows r) = 3 \<and>
         kind_at (r_state r) 0 = ''thinking'' \<and>
         kind (r_rows r ! 0) = Thinking ''ab'' \<and>
         kind (r_rows r ! 2) = Thinking ''c'')
     }"

lemma reducer_tests_pass:
  "(tool_start_pairs_with_the_newest_placeholder_not_an_abandoned_one = Some True) \<and>
   message_complete_replaces_streamed_text =
  Some True \<and>
   (message_complete_keeps_usage_json = Some True) \<and>
   (message_interim_seals_current_assistant_row = Some True) \<and>
   (message_interim_carries_text_when_not_already_streamed = Some True) \<and>
   (one_tool_card_per_tool_id_updated_in_place
  = Some True) \<and>
   (tool_progress_updates_card_without_new_rows = Some True) \<and>
   (approval_choices_and_command_taken_verbatim_not_recomputed = Some True) \<and>
   (clarify_both_shapes_and_resolution = Some True) \<and>
   (status_kinds_cover_verified_set = Some True) \<and>
   (heartbeat_status_is_not_a_row = Some True) \<and>
   session_info_and_title_update_the_header =
  Some True \<and>
   (sessionless_events_emit_nothing_and_add_no_rows = Some True) \<and>
   (unknown_events_and_garbage_payloads_never_panic = Some True) \<and>
   (changes_carry_their_session_key = Some True) \<and>
   reset_from_resume_wipes_and_emits_reset =
  Some True \<and>
   (resume_messages_ingest_renders_history_without_events = Some True) \<and>
   (empty_resume_messages_still_resets = Some True) \<and>
   (thinking_deltas_accumulate_and_restart_after_assistant = Some True)"
  by code_simp

end
