(* ===== verification/Unit_Tests_Api.thy ===== *)
theory Unit_Tests_Api
  imports Json_Text Api
begin

text \<open>
  The unit tests of \<open>rpc/api.rs\<close>, evaluated on the model. The fake gateway of the tests, a
  handler that notes each call and answers the same value, is a caller whose state is the log
  of the calls.
\<close>

section \<open>The fake gateway\<close>

type_synonym call_log = "(string \<times> json) list"

definition fixture_gateway :: "json \<Rightarrow> call_log caller" where
  "fixture_gateway reply m p calls = (Inr reply, calls @ [(m, p)])"

text \<open>\<open>.await.unwrap()\<close>: the value of a result that is no error.\<close>

definition unwrap_ok :: "client_error + 'a \<Rightarrow> 'a option" where
  "unwrap_ok r = (case r of Inl _ \<Rightarrow> None | Inr v \<Rightarrow> Some v)"

text \<open>Calls in a row; the log of all of them.\<close>

fun calls_in_row :: "(call_log \<Rightarrow> ('e + unit) \<times> call_log) list \<Rightarrow> call_log \<Rightarrow> call_log option" where
  "calls_in_row [] calls = Some calls"
| "calls_in_row (f # fs) calls =
     (case f calls of (Inl _, _) \<Rightarrow> None | (Inr _, calls') \<Rightarrow> calls_in_row fs calls')"

definition void :: "('w \<Rightarrow> ('e + 'a) \<times> 'w) \<Rightarrow> 'w \<Rightarrow> ('e + unit) \<times> 'w" where
  "void f w = (case f w of (Inl e, w') \<Rightarrow> (Inl e, w') | (Inr _, w') \<Rightarrow> (Inr (), w'))"

section \<open>The tests\<close>

definition created_session_tolerates_missing_fields :: bool where
  "created_session_tolerates_missing_fields \<longleftrightarrow>
     (let cs = created_from_value (JObj [])
      in cs_session_id cs = '''' \<and>
         cs_message_count cs = 0) \<and>
     (let cs = created_from_value (JObj [(''session_id'', JStr ''s1''), (''message_count'', JNum
       (FloatNum 3))])
      in cs_session_id cs = ''s1'' \<and>
         cs_message_count cs = 3)"

definition submit_status_parses_verified_wire_values :: bool where
  "submit_status_parses_verified_wire_values \<longleftrightarrow>
     submit_status_parse (JObj [(''status'', JStr ''streaming'')]) = Streaming \<and>
     submit_status_parse (JObj [(''status'', JStr ''redirected'')]) = Redirected \<and>
     submit_status_parse (JObj []) = Other_Status \<and>
     submit_status_parse (JObj [(''status'', JNum (IntNum 5))]) = Other_Status"

definition dispatch_outcome_covers_all_verified_shapes :: bool where
  "dispatch_outcome_covers_all_verified_shapes \<longleftrightarrow>
     dispatch_outcome_from_value (JObj [(''type'', JStr ''exec''), (''output'', JStr ''hi'')]) =
       Outcome_Output ''hi'' \<and>
     dispatch_outcome_from_value (JObj [(''type'', JStr ''alias''), (''target'', JStr ''/other'')])
       =
       Outcome_Alias ''/other'' \<and>
     dispatch_outcome_from_value (JObj [(''type'', JStr ''skill''), (''name'', JStr ''n'')]) =
       Outcome_Skill ''n'' '''' '''' \<and>
     dispatch_outcome_from_value (JObj [(''type'', JStr ''skill''), (''name'', JStr ''n''),
       (''message'', JStr ''m''), (''display'', JStr ''/n preview'')]) =
       Outcome_Skill ''n'' ''m'' ''/n preview'' \<and>
     dispatch_outcome_from_value (JObj [(''type'', JStr ''send''), (''message'', JStr ''m'')]) =
       Outcome_Send ''m'' \<and>
     dispatch_outcome_from_value (JObj [(''type'', JStr ''prefill''), (''message'', JStr ''p'')]) =
       Outcome_Prefill ''p'' \<and>
     dispatch_outcome_from_value (JObj [(''type'', JStr ''future.thing'')]) =
       Outcome_Unknown \<and>
     dispatch_outcome_from_value (JObj []) =
       Outcome_Unknown"

definition clarify_ack_tolerates_missing_remaining :: bool where
  "clarify_ack_tolerates_missing_remaining \<longleftrightarrow>
     (let ack = clarify_ack_from_value (JObj [(''status'', JStr ''ok''), (''remaining'', JArr [JStr
       ''q2''])])
      in ack_status ack = ''ok'' \<and>
         ack_remaining ack = [''q2'']) \<and>
     (let empty = clarify_ack_from_value (JObj [])
      in ack_status empty = '''' \<and>
         ack_remaining empty = []) \<and>
     (let mistyped = clarify_ack_from_value (JObj [(''status'', JStr ''expired''), (''remaining'',
       JNum (IntNum 5))])
      in ack_status mistyped = ''expired'' \<and>
         ack_remaining mistyped = [])"

definition resumed_session_degrades_on_wrong_shapes :: bool where
  "resumed_session_degrades_on_wrong_shapes \<longleftrightarrow>
     (let r = resumed_from_value
         (JObj [(''session_id'', JStr ''live''), (''resumed'', JBool True), (''message_count'', JNum
           (IntNum 5)), (''messages'', JStr ''not-an-array''), (''running'', JStr
           ''truthy-but-not-bool'')])
      in rs_session_id r = ''live'' \<and>
         rs_resumed r \<and>
         rs_message_count r = 5 \<and>
         rs_messages r = [] \<and>
         \<not> rs_running r)"

definition complete_slash_keeps_replace_from_and_item_meta :: bool where
  "complete_slash_keeps_replace_from_and_item_meta \<longleftrightarrow>
     (case api_complete_slash
        (fixture_gateway (JObj [(''items'', JArr [JObj [(''text'', JStr ''/deploy''), (''display'',
          JStr ''/deploy''), (''meta'', JStr ''ship it''), (''kind'', JStr ''skill'')], JObj
          [(''text'', JStr ''/docs''), (''display'', JStr ''/docs''), (''meta'', JStr ''''),
          (''kind'', JStr ''command'')]]), (''replace_from'', JNum (IntNum 8))])) ''/deploy '' [] of
        (Inr c, _) \<Rightarrow> sc_replace_from c = 8 \<and>
          length (sc_items c) = 2 \<and>
          sci_text (sc_items c ! 0) = ''/deploy'' \<and>
          sci_display (sc_items c ! 0) = ''/deploy'' \<and>
          sci_meta (sc_items c ! 0) = ''ship it'' \<and>
          sci_kind (sc_items c ! 0) = ''skill'' \<and>
          sci_meta (sc_items c ! 1) = '''' \<and>
          sci_kind (sc_items c ! 1) = ''command''
      | _ \<Rightarrow> False)"

definition complete_slash_degrades_to_minus_one_without_replace_from :: bool where
  "complete_slash_degrades_to_minus_one_without_replace_from \<longleftrightarrow>
     (case api_complete_slash (fixture_gateway (JObj [(''items'', JArr [])])) ''/d'' [] of
        (Inr c, _) \<Rightarrow> sc_replace_from c = - 1 \<and>
          sc_items c = []
      | _ \<Rightarrow> False)"

definition session_title_set_carries_title_and_read_omits_it :: bool where
  "session_title_set_carries_title_and_read_omits_it \<longleftrightarrow>
     (let gw = fixture_gateway (JObj [(''title'', JStr ''my chat''), (''session_key'', JStr
       ''stored''), (''pending'', JBool False)])
      in case session_title gw ''live-sid'' (Some ''my chat'') [] of
           (Inr written, calls) \<Rightarrow>
             (case session_title gw ''stored'' None calls of
                (Inr read, calls) \<Rightarrow>
                  st_title written = ''my chat'' \<and> \<not> st_pending written \<and> st_title read =
                    ''my chat'' \<and>
                  length calls = 2 \<and>
                  (let (m, p) = calls ! 0
                   in m = ''session.title'' \<and> get_key p ''session_id'' = Some (JStr ''live-sid'') \<and>
                     get_key p ''title'' = Some (JStr ''my chat'')) \<and>
                  (let (m, p) = calls ! 1
                   in m = ''session.title'' \<and> get_key p ''session_id'' = Some (JStr ''stored'') \<and>
                     get_key p ''title'' = None)
              | _ \<Rightarrow> False)
         | _ \<Rightarrow> False)"

definition session_title_tolerates_missing_fields :: bool where
  "session_title_tolerates_missing_fields \<longleftrightarrow>
     (case session_title (fixture_gateway (JObj [])) ''stored'' None [] of
        (Inr parsed, _) \<Rightarrow> st_title parsed = '''' \<and>
          \<not> st_pending parsed
      | _ \<Rightarrow> False)"

definition create_forwards_profile_and_title_and_omits_when_absent :: bool where
  "create_forwards_profile_and_title_and_omits_when_absent \<longleftrightarrow>
     (let gw = fixture_gateway (JObj [(''session_id'', JStr ''live''), (''stored_session_id'', JStr
       ''stored'')])
      in case calls_in_row
           [void (create_session gw 80 (Some ''jn-core'') (Some ''Bot Chat'')),
            void (create_session gw 80 None None),
            void (create_session gw 80 (Some '''') (Some ''''))] [] of
           Some calls \<Rightarrow>
             length calls = 3 \<and>
             (let (m, p) = calls ! 0 in m = ''session.create'' \<and> get_key p ''profile'' = Some (JStr
               ''jn-core'') \<and> get_key p ''title'' = Some (JStr ''Bot Chat'') \<and> get_key p ''cols'' =
               Some (JNum (IntNum 80))) \<and>
             (let (m, p) = calls ! 1 in get_key p ''profile'' = None \<and> get_key p ''title'' = None) \<and>
             (let (m, p) = calls ! 2 in get_key p ''profile'' = None \<and> get_key p ''title'' = None)
         | None \<Rightarrow> False)"

definition list_sends_include_hidden_and_title_only_when_needed :: bool where
  "list_sends_include_hidden_and_title_only_when_needed \<longleftrightarrow>
     (let gw = fixture_gateway (JObj [(''sessions'', JArr [])])
      in case calls_in_row
           [void (list_sessions gw 200 True (Some ''Bot Chat'') None),
            void (list_sessions gw 200 False None None)] [] of
           Some calls \<Rightarrow>
             length calls = 2 \<and>
             (let (m, p) = calls ! 0 in m = ''session.list'' \<and> get_key p ''include_hidden'' = Some
               (JBool True) \<and> get_key p ''title'' = Some (JStr ''Bot Chat'') \<and> get_key p ''limit'' =
               Some (JNum (IntNum 200))) \<and>
             (let (m, p) = calls ! 1 in get_key p ''include_hidden'' = None \<and> get_key p ''title'' =
               None \<and> get_key p ''limit'' = Some (JNum (IntNum 200)))
         | None \<Rightarrow> False)"

definition list_and_resume_forward_profile_and_omit_when_absent :: bool where
  "list_and_resume_forward_profile_and_omit_when_absent \<longleftrightarrow>
     (let gw = fixture_gateway (JObj [])
      in case calls_in_row
           [void (list_sessions gw 200 True (Some ''Bot Chat'') (Some ''jn-core'')),
            void (resume_session gw ''stored-bot'' (Some ''jn-core'')),
            void (list_sessions gw 200 False None None),
            void (resume_session gw ''stored-bare'' None),
            void (list_sessions gw 200 False None (Some '''')),
            void (resume_session gw ''stored-bare'' (Some ''''))] [] of
           Some calls \<Rightarrow>
             length calls = 6 \<and>
             (let (m, p) = calls ! 0 in m = ''session.list'' \<and> get_key p ''profile'' = Some (JStr
               ''jn-core'')) \<and>
             (let (m, p) = calls ! 1 in m = ''session.resume'' \<and> get_key p ''profile'' = Some (JStr
               ''jn-core'') \<and> get_key p ''session_id'' = Some (JStr ''stored-bot'')) \<and>
             list_all (\<lambda>(m, p). get_key p ''profile'' = None) (drop 2 calls)
         | None \<Rightarrow> False)"

definition profile_name_parsed_defensively_from_info :: bool where
  "profile_name_parsed_defensively_from_info \<longleftrightarrow>
     cs_profile_name (created_from_value (JObj [(''session_id'', JStr ''s''),
       (''stored_session_id'', JStr ''k''), (''info'', JObj [(''profile_name'', JStr ''jn-core''),
       (''unrelated'', JObj [(''deep'', JArr [JNum (IntNum 1)])])])])) =
       ''jn-core'' \<and>
     cs_profile_name (created_from_value (JObj [(''session_id'', JStr ''s'')])) = '''' \<and>
     cs_profile_name (created_from_value (JObj [(''info'', JObj [(''profile_name'', JNum (IntNum
       7))])])) = '''' \<and>
     rs_profile_name (resumed_from_value (JObj [(''session_id'', JStr ''live''), (''info'', JObj
       [(''profile_name'', JStr ''jn-review'')])])) =
       ''jn-review'' \<and>
     rs_profile_name (resumed_from_value (JObj [])) = ''''"

lemma api_tests_pass:
  "created_session_tolerates_missing_fields \<and>
   submit_status_parses_verified_wire_values \<and>
   dispatch_outcome_covers_all_verified_shapes \<and>
   clarify_ack_tolerates_missing_remaining \<and>
   resumed_session_degrades_on_wrong_shapes \<and>
   complete_slash_keeps_replace_from_and_item_meta \<and>
   complete_slash_degrades_to_minus_one_without_replace_from \<and>
   session_title_set_carries_title_and_read_omits_it \<and>
   session_title_tolerates_missing_fields \<and>
   create_forwards_profile_and_title_and_omits_when_absent \<and>
   list_sends_include_hidden_and_title_only_when_needed \<and>
   list_and_resume_forward_profile_and_omit_when_absent \<and>
   profile_name_parsed_defensively_from_info"
  by code_simp

end
