(* ===== verification/Unit_Tests_Store.thy ===== *)
theory Unit_Tests_Store
  imports Url_Text Registry "HOL-Library.Code_Target_Nat"
begin

text \<open>
  The unit tests of \<open>session_registry.rs\<close> and \<open>auth/endpoint.rs\<close>, evaluated on the model with
  the JSON text of \<^const>\<open>text_serde\<close> and the URLs of \<^const>\<open>text_api\<close>.
\<close>

section \<open>The session registry\<close>

definition test_record :: "string \<Rightarrow> int \<Rightarrow> string \<Rightarrow> session_record" where
  "test_record i seq epoch =
     \<lparr>stored_id = i, last_seen_seq = seq, rec_epoch = epoch, rec_cols = 48,
      rec_title = ''title of '' @ i, rec_profile = ''''\<rparr>"

text \<open>What an assertion reads of a tab, through \<open>get(..).unwrap()\<close>.\<close>

definition tab_has :: "registry \<Rightarrow> string \<Rightarrow> (session_record \<Rightarrow> bool) \<Rightarrow> bool" where
  "tab_has reg k P = (case registry_get reg k of None \<Rightarrow> False | Some r \<Rightarrow> P r)"

definition resume_profile_known_forwards_none_for_unknown :: bool where
  "resume_profile_known_forwards_none_for_unknown \<longleftrightarrow>
     (let bot = (test_record ''s-bot'' 1 ''e'')\<lparr>rec_profile := ''jn-core''\<rparr>
      in resume_profile bot = Some ''jn-core'' \<and>
         resume_profile (bot\<lparr>rec_profile := ''''\<rparr>) = None)"

definition registry_round_trip_preserves_order_active_and_watermarks :: bool where
  "registry_round_trip_preserves_order_active_and_watermarks \<longleftrightarrow>
     (let reg = registry_upsert (test_record ''s-alpha'' 42 ''e-2'')
            (set_active (Some ''s-beta'')
              (registry_upsert (test_record ''s-gamma'' 0 '''')
                (registry_upsert (test_record ''s-beta'' 7 ''e-1'')
                  (registry_upsert (test_record ''s-alpha'' 41 ''e-1'') registry_new))))
      in case registry_from_json text_serde (registry_to_json text_serde reg) of
           Inl _ \<Rightarrow> False
         | Inr parsed \<Rightarrow>
             map stored_id (sessions parsed) = [''s-alpha'', ''s-beta'', ''s-gamma''] \<and>
             active_key parsed = Some ''s-beta'' \<and>
             tab_has parsed ''s-alpha'' (\<lambda>r. last_seen_seq r = 42 \<and> rec_epoch r = ''e-2'' \<and> rec_cols
               r = 48 \<and> rec_title r = ''title of s-alpha'') \<and>
             tab_has parsed ''s-beta'' (\<lambda>r. last_seen_seq r = 7) \<and>
             length (sessions parsed) = 3) \<and>
     (let bot = (test_record ''s-bot'' 1 ''e'')\<lparr>rec_profile := ''jn-core''\<rparr>;
          reg2 = registry_upsert bot registry_new
      in case registry_from_json text_serde (registry_to_json text_serde reg2) of
           Inl _ \<Rightarrow> False
         | Inr parsed2 \<Rightarrow> tab_has parsed2 ''s-bot'' (\<lambda>r. rec_profile r = ''jn-core'')) \<and>
     (case registry_from_json text_serde
        ''{\"sessions\":[{\"stored_id\":\"old\",\"cols\":80,\"title\":\"t\"}]}'' of
        Inl _ \<Rightarrow> False
      | Inr legacy \<Rightarrow> tab_has legacy ''old'' (\<lambda>r. rec_profile r = ''''))"

definition touch_keeps_max_seq_and_epoch :: bool where
  "touch_keeps_max_seq_and_epoch \<longleftrightarrow>
     (let reg = registry_upsert (test_record ''s1'' 10 ''e-1'') registry_new;
          reg1 = registry_touch ''s1'' 5 '''' reg;
          reg2 = registry_touch ''s1'' 12 ''e-2'' reg1;
          reg3 = registry_touch ''ghost'' 99 ''e-9'' reg2
      in tab_has reg1 ''s1'' (\<lambda>r. last_seen_seq r = 10 \<and> rec_epoch r = ''e-1'') \<and>
         tab_has reg2 ''s1'' (\<lambda>r. last_seen_seq r = 12 \<and> rec_epoch r = ''e-2'') \<and>
         registry_get reg3 ''ghost'' = None)"

definition close_removes_record_and_active_pointer :: bool where
  "close_removes_record_and_active_pointer \<longleftrightarrow>
     (let reg = set_active (Some ''b'')
            (registry_upsert (test_record ''b'' 2 '''')
              (registry_upsert (test_record ''a'' 1 '''') registry_new));
          (reg1, closed) = registry_close ''b'' reg;
          (reg2, again) = registry_close ''b'' reg1;
          reg3 = registry_upsert (test_record ''c'' 0 '''') (set_active (Some ''a'') reg2);
          (reg4, closed_c) = registry_close ''c'' reg3
      in closed \<and> registry_get reg1 ''b'' = None \<and> active_key reg1 = None \<and>
         registry_get reg1 ''a'' \<noteq> None \<and> \<not> again \<and> closed_c \<and> active_key reg4 = Some ''a'')"

definition from_json_is_tolerant_and_rejects_garbage :: bool where
  "from_json_is_tolerant_and_rejects_garbage \<longleftrightarrow>
     (case registry_from_json text_serde
        (''{\"active\":\"a\",\"sessions\":['' @ [nl] @
          ''                {\"stored_id\":\"a\",\"last_seen_seq\":9},'' @ [nl] @
          ''                {\"last_seen_seq\":5},'' @ [nl] @
          ''                {\"stored_id\":\"b\",\"replay_epoch\":\"e\",\"cols\":80,\"title\":\"t\"},''
          @ [nl] @ ''                \"not-an-object\",'' @ [nl] @
          ''                {\"stored_id\":123}'' @ [nl] @ ''            ]}'') of
        Inl _ \<Rightarrow> False
      | Inr parsed \<Rightarrow>
          length (sessions parsed) = 2 \<and> active_key parsed = Some ''a'' \<and>
          tab_has parsed ''a'' (\<lambda>r. last_seen_seq r = 9 \<and> rec_epoch r = '''' \<and> rec_title r = '''') \<and>
          tab_has parsed ''b'' (\<lambda>r. rec_cols r = 80)) \<and>
     (case registry_from_json text_serde ''{not json'' of Inl _ \<Rightarrow> True | Inr _ \<Rightarrow> False) \<and>
     (case registry_from_json text_serde ''{}'' of
        Inl _ \<Rightarrow> False
      | Inr blank \<Rightarrow> registry_is_empty blank \<and> active_key blank = None)"

definition upsert_appends_new_and_replaces_known_in_place :: bool where
  "upsert_appends_new_and_replaces_known_in_place \<longleftrightarrow>
     (let reg = registry_upsert (test_record ''a'' 3 '''')
            (registry_upsert (test_record ''b'' 2 '''')
              (registry_upsert (test_record ''a'' 1 '''') registry_new))
      in map stored_id (sessions reg) = [''a'', ''b''] \<and> length (sessions reg) = 2 \<and>
         tab_has reg ''a'' (\<lambda>r. last_seen_seq r = 3))"

lemma registry_tests_pass:
  "resume_profile_known_forwards_none_for_unknown \<and>
   registry_round_trip_preserves_order_active_and_watermarks \<and>
   touch_keeps_max_seq_and_epoch \<and>
   close_removes_record_and_active_pointer \<and>
   from_json_is_tolerant_and_rejects_garbage \<and>
   upsert_appends_new_and_replaces_known_in_place"
  by code_simp

section \<open>The endpoint\<close>

definition qr_payload_round_trips :: bool where
  "qr_payload_round_trips \<longleftrightarrow>
     (case parse_qr_payload text_api
        ''hermes://connect?v=1&url=http%3A%2F%2F192.168.1.48%3A9123&user=hermo-a1b2&name=atelier''
          of
        Inl _ \<Rightarrow> False
      | Inr ep \<Rightarrow> url_as_str text_api (base_url ep) = ''http://192.168.1.48:9123/'' \<and>
          ep_username ep = ''hermo-a1b2'' \<and>
          ep_display_name ep = ''atelier'')"

definition qr_plus_bearing_name_and_percent_encoded_space_survive :: bool where
  "qr_plus_bearing_name_and_percent_encoded_space_survive \<longleftrightarrow>
     (case parse_qr_payload text_api
        ''hermes://connect?v=1&url=https%3A%2F%2Fgw.example.com&user=u&name=my+desk%20lamp'' of
        Inl _ \<Rightarrow> False
      | Inr ep \<Rightarrow> ep_display_name ep = ''my+desk lamp'')"

definition qr_trailing_slash_is_stripped :: bool where
  "qr_trailing_slash_is_stripped \<longleftrightarrow>
     (case parse_qr_payload text_api
        ''hermes://connect?v=1&url=http%3A%2F%2Fhost%3A9119%2F&user=u&name=n'' of
        Inl _ \<Rightarrow> False
      | Inr ep \<Rightarrow> url_as_str text_api (base_url ep) = ''http://host:9119/'')"

definition qr_rejects_unknown_version :: bool where
  "qr_rejects_unknown_version \<longleftrightarrow>
     parse_qr_payload text_api
       ''hermes://connect?v=2&url=http%3A%2F%2Fhost%3A9119&user=u&name=n'' = Inl
         CoreError_InvalidQr"

definition qr_rejects_missing_url :: bool where
  "qr_rejects_missing_url \<longleftrightarrow>
     parse_qr_payload text_api
       ''hermes://connect?v=1&user=u&name=n'' = Inl CoreError_InvalidQr"

definition qr_rejects_ftp_base_scheme :: bool where
  "qr_rejects_ftp_base_scheme \<longleftrightarrow>
     parse_qr_payload text_api
       ''hermes://connect?v=1&url=ftp%3A%2F%2Fhost%2Fpub&user=u&name=n'' = Inl CoreError_InvalidQr"

definition qr_rejects_wrong_outer_scheme :: bool where
  "qr_rejects_wrong_outer_scheme \<longleftrightarrow>
     parse_qr_payload text_api
       ''https://connect?v=1&url=http%3A%2F%2Fh&user=u&name=n'' = Inl CoreError_InvalidQr \<and>
     parse_qr_payload text_api
       ''garbage'' = Inl CoreError_InvalidQr"

definition qr_rejects_base_url_with_embedded_credentials :: bool where
  "qr_rejects_base_url_with_embedded_credentials \<longleftrightarrow>
     parse_qr_payload text_api
       ''hermes://connect?v=1&url=http%3A%2F%2Fuser%3Apass%40host%3A9123&user=u&name=n'' = Inl
         CoreError_InvalidQr"

definition ws_url_escapes_query_syntax_in_ticket :: bool where
  "ws_url_escapes_query_syntax_in_ticket \<longleftrightarrow>
     (case url_parse text_api ''http://host:9123'' of
        Inl _ \<Rightarrow> False
      | Inr base \<Rightarrow>
          (case ws_url text_api base ''a&b=c+d'' of
             None \<Rightarrow> False
           | Some ws \<Rightarrow> url_as_str text_api ws = ''ws://host:9123/api/ws?ticket=a%26b%3Dc%2Bd'' \<and>
               (case url_query text_api ws of None \<Rightarrow> False | Some q \<Rightarrow> count_list q CHR ''&'' = 0)))"

definition ws_url_http_becomes_ws_with_ticket :: bool where
  "ws_url_http_becomes_ws_with_ticket \<longleftrightarrow>
     (case url_parse text_api ''http://192.168.1.48:9123'' of
        Inl _ \<Rightarrow> False
      | Inr base \<Rightarrow>
          (case ws_url text_api base ''tkt-1'' of
             None \<Rightarrow> False
           | Some ws \<Rightarrow> url_as_str text_api ws = ''ws://192.168.1.48:9123/api/ws?ticket=tkt-1''))"

definition ws_url_https_becomes_wss :: bool where
  "ws_url_https_becomes_wss \<longleftrightarrow>
     (case url_parse text_api ''https://gw.example.com'' of
        Inl _ \<Rightarrow> False
      | Inr base \<Rightarrow>
          (case ws_url text_api base ''t'' of
             None \<Rightarrow> False
           | Some ws \<Rightarrow> url_as_str text_api ws = ''wss://gw.example.com/api/ws?ticket=t''))"

definition ws_url_preserves_proxy_prefix :: bool where
  "ws_url_preserves_proxy_prefix \<longleftrightarrow>
     (case url_parse text_api ''https://example.com/agent'' of
        Inl _ \<Rightarrow> False
      | Inr base \<Rightarrow>
          (case ws_url text_api base ''t'' of
             None \<Rightarrow> False
           | Some ws \<Rightarrow> url_as_str text_api ws = ''wss://example.com/agent/api/ws?ticket=t''))"

lemma endpoint_tests_pass:
  "qr_payload_round_trips \<and>
   qr_plus_bearing_name_and_percent_encoded_space_survive \<and>
   qr_trailing_slash_is_stripped \<and>
   qr_rejects_unknown_version \<and>
   qr_rejects_missing_url \<and>
   qr_rejects_ftp_base_scheme \<and>
   qr_rejects_wrong_outer_scheme \<and>
   qr_rejects_base_url_with_embedded_credentials \<and>
   ws_url_escapes_query_syntax_in_ticket \<and>
   ws_url_http_becomes_ws_with_ticket \<and>
   ws_url_https_becomes_wss \<and>
   ws_url_preserves_proxy_prefix"
  by code_simp

end
