(* ===== verification/Unit_Tests_Auth.thy ===== *)
theory Unit_Tests_Auth
  imports Test_Server Url_Text "HOL-Library.Code_Target_Nat"
begin

text \<open>
  The unit tests of \<open>auth/client.rs\<close>, evaluated on the model: the auth client against the test
  server of \<open>Test_Server\<close>, with the data directory of the client. The cookie library's format
  is an argument of the model; here a jar is the JSON list of its raw cookies, as the library
  stores them.
\<close>

text \<open>For evaluation an update of a map is kept as it is until the map is applied.\<close>

declare fun_upd_apply [code]

section \<open>The client at the server\<close>

record auth_world =
  aw_counts :: route_counts
  aw_jar :: "(string \<times> string) list"
  aw_files :: files

definition print_jar :: "(string \<times> string) list \<Rightarrow> string option" where
  "print_jar jar =
     Some (json_print (JArr (map (\<lambda>(n, v). JObj [(''raw_cookie'', JStr (n @ ''='' @ v))]) jar)))"

definition parse_jar :: "string \<Rightarrow> string + (string \<times> string) list" where
  "parse_jar raw =
     (case json_parse raw of
        Some (JArr xs) \<Rightarrow> Inr (List.map_filter (\<lambda>x. split_once CHR ''='' (str_at x ''raw_cookie''))
          xs)
      | _ \<Rightarrow> Inl ''not a cookie jar'')"

definition at_server :: "test_route list \<Rightarrow> (text_url, auth_world) http_stack" where
  "at_server routes req w =
     (let (out, tw) = test_http text_api (\<lambda>_. None) routes req
            \<lparr>tw_counts = aw_counts w, tw_cookies = aw_jar w\<rparr>
      in (out, w\<lparr>aw_counts := tw_counts tw, aw_jar := tw_cookies tw\<rparr>))"

definition save_to :: "io_env \<Rightarrow> string option \<Rightarrow> auth_world \<Rightarrow> auth_world" where
  "save_to env path w = w\<lparr>aw_files := last (save_jar print_jar env path (aw_jar w) (aw_files w))\<rparr>"

text \<open>\<open>AuthClient::new\<close> beside the counters of a running server.\<close>

definition new_client ::
  "string option \<Rightarrow> route_counts \<Rightarrow> files \<Rightarrow> core_error + (auth_world \<times> string option)" where
  "new_client dir counts fs =
     (case auth_client_new parse_jar [] no_faults dir fs of
        Inl e \<Rightarrow> Inl e
      | Inr (jar, path) \<Rightarrow> Inr (\<lparr>aw_counts = counts, aw_jar = jar, aw_files = fs\<rparr>, path))"

text \<open>A client without a data directory, and what each route gives it.\<close>

definition bare :: auth_world where
  "bare = \<lparr>aw_counts = Map.empty, aw_jar = [], aw_files = Map.empty\<rparr>"

definition test_base :: string where
  "test_base = ''http://127.0.0.1:9119''"

abbreviation client_status :: "test_route list \<Rightarrow> auth_world \<Rightarrow> (core_error + gateway_status) \<times>
  auth_world" where
  "client_status routes \<equiv> auth_status text_api (at_server routes) (save_to no_faults None)
    test_base"

abbreviation client_me :: "test_route list \<Rightarrow> auth_world \<Rightarrow> (core_error + json) \<times> auth_world" where
  "client_me routes \<equiv> auth_me text_api (at_server routes) (save_to no_faults None) test_base"

abbreviation client_profiles ::
  "test_route list \<Rightarrow> auth_world \<Rightarrow> (core_error + profile_dto list) \<times> auth_world" where
  "client_profiles routes \<equiv> auth_profiles text_api (at_server routes) (save_to no_faults None)
    test_base"

abbreviation client_ticket ::
  "io_env \<Rightarrow> string option \<Rightarrow> test_route list \<Rightarrow> auth_world \<Rightarrow> (core_error + ws_ticket) \<times> auth_world"
    where
  "client_ticket env path routes \<equiv> mint_ticket text_api (at_server routes) (save_to env path)
    test_base"

abbreviation client_login ::
  "string option \<Rightarrow> test_route list \<Rightarrow> string \<Rightarrow> string \<Rightarrow> auth_world \<Rightarrow> (core_error + unit) \<times>
    auth_world" where
  "client_login path routes \<equiv> auth_login text_api (at_server routes) (save_to no_faults path)
    test_base"

definition failed_with :: "core_error \<Rightarrow> (core_error + 'a) \<times> 'w \<Rightarrow> bool" where
  "failed_with e res \<longleftrightarrow> (case fst res of Inl e' \<Rightarrow> e' = e | Inr _ \<Rightarrow> False)"

definition test_jar_path :: string where
  "test_jar_path = join_path ''/data'' cookie_jar_file"

section \<open>The tests\<close>

definition status_parses_auth_required_and_providers :: bool where
  "status_parses_auth_required_and_providers \<longleftrightarrow>
     (case client_status [route_status 200
         (JObj [(''auth_required'', JBool True), (''auth_providers'', JArr [JStr ''basic''])])] bare
           of
        (Inr s, w) \<Rightarrow>
          gs_auth_required s \<and>
          gs_auth_providers s = [''basic''] \<and>
          ts_count (aw_counts w) Rk_Status = 1
      | _ \<Rightarrow> False)"

definition login_stores_cookie_and_jar_file_appears :: bool where
  "login_stores_cookie_and_jar_file_appears \<longleftrightarrow>
     (let routes = [route_login_ok, route_ticket_gated]
      in case new_client (Some ''/data'') Map.empty Map.empty of
           Inl _ \<Rightarrow> False
         | Inr (w, path) \<Rightarrow>
             (case client_login path routes ''hermo-test'' ''pw'' w of
                (Inr _, w) \<Rightarrow>
                  (case client_ticket no_faults path routes w of
                     (Inr _, w) \<Rightarrow>
                       (case aw_files w test_jar_path of
                          None \<Rightarrow> False
                        | Some raw \<Rightarrow> contains_str ''hermes_session_at'' raw) \<and>
                       ts_count (aw_counts w) Rk_Login = 1 \<and> ts_count (aw_counts w) Rk_Ticket = 1 \<and>
                       ts_count (aw_counts w) Rk_Denied = 0
                   | _ \<Rightarrow> False)
              | _ \<Rightarrow> False))"

definition second_client_on_same_data_dir_skips_login :: bool where
  "second_client_on_same_data_dir_skips_login \<longleftrightarrow>
     (let routes = [route_login_ok, route_ticket_gated]
      in case new_client (Some ''/data'') Map.empty Map.empty of
           Inl _ \<Rightarrow> False
         | Inr (w, path) \<Rightarrow>
             (case client_login path routes ''hermo-test'' ''pw'' w of
                (Inr _, w) \<Rightarrow>
                  (case new_client (Some ''/data'') (aw_counts w) (aw_files w) of
                     Inl _ \<Rightarrow> False
                   | Inr (w2, path2) \<Rightarrow>
                       (case client_ticket no_faults path2 routes w2 of
                          (Inr ticket, w2) \<Rightarrow>
                            tk_ticket ticket \<noteq> '''' \<and> ts_count (aw_counts w2) Rk_Login = 1 \<and>
                            ts_count (aw_counts w2) Rk_Ticket = 1 \<and> ts_count (aw_counts w2)
                              Rk_Denied = 0
                        | _ \<Rightarrow> False))
              | _ \<Rightarrow> False))"

definition third_client_on_fresh_data_dir_gets_session_expired :: bool where
  "third_client_on_fresh_data_dir_gets_session_expired \<longleftrightarrow>
     (case new_client (Some ''/fresh'') Map.empty Map.empty of
        Inl _ \<Rightarrow> False
      | Inr (w, path) \<Rightarrow>
          (let (res, w) = client_ticket no_faults path [route_ticket_gated] w
           in failed_with CoreError_SessionExpired (res, w) \<and>
              ts_count (aw_counts w) Rk_Ticket = 0 \<and> ts_count (aw_counts w) Rk_Denied = 1))"

definition corrupt_jar_file_is_an_io_error_not_silent_logout :: bool where
  "corrupt_jar_file_is_an_io_error_not_silent_logout \<longleftrightarrow>
     (case new_client (Some ''/data'') Map.empty [test_jar_path \<mapsto> ''{not json at all''] of
        Inl (CoreError_Io _) \<Rightarrow> True
      | _ \<Rightarrow> False)"

text \<open>The temporary path cannot be written: a directory is in its place.\<close>

definition sabotaged :: io_env where
  "sabotaged = no_faults\<lparr>write_fault := (\<lambda>p. if p = tmp_path test_jar_path then Some
    ''Is a directory'' else None)\<rparr>"

definition jar_write_is_atomic_tmp_then_rename :: bool where
  "jar_write_is_atomic_tmp_then_rename \<longleftrightarrow>
     (let routes =
            [route_login_ok,
             \<lparr>tr_kind = Rk_Ticket, tr_status = 200,
              tr_body = JObj [(''ticket'', JStr ''test-ticket-1''), (''ttl_seconds'', JNum (IntNum
                30))],
              tr_set_cookie = Some ''hermes_session_at=rotated-value; Path=/'',
              tr_require_cookie = Some ''hermes_session_at=test-access-cookie''\<rparr>]
      in case new_client (Some ''/data'') Map.empty Map.empty of
           Inl _ \<Rightarrow> False
         | Inr (w, path) \<Rightarrow>
             (case client_login path routes ''hermo-test'' ''pw'' w of
                (Inr _, w) \<Rightarrow>
                  (case aw_files w test_jar_path of
                     None \<Rightarrow> False
                   | Some raw \<Rightarrow> contains_str ''hermes_session_at'' raw) \<and>
                  aw_files w (tmp_path test_jar_path) = None \<and>
                  (case client_ticket sabotaged path routes w of
                     (Inr _, w) \<Rightarrow>
                       (case aw_files w test_jar_path of
                          None \<Rightarrow> False
                        | Some after \<Rightarrow>
                            contains_str ''test-access-cookie'' after \<and> \<not> contains_str
                              ''rotated-value'' after)
                   | _ \<Rightarrow> False)
              | _ \<Rightarrow> False))"

definition ticket_401_maps_to_session_expired :: bool where
  "ticket_401_maps_to_session_expired \<longleftrightarrow>
     failed_with CoreError_SessionExpired
       (client_ticket no_faults None [route_ticket_status 401] bare)"

definition me_401_maps_to_session_expired :: bool where
  "me_401_maps_to_session_expired \<longleftrightarrow>
     failed_with CoreError_SessionExpired
       (client_me [route_plain Rk_Me 401 (JObj [(''detail'', JStr ''unauthorized'')])] bare)"

definition login_401_maps_to_invalid_credentials :: bool where
  "login_401_maps_to_invalid_credentials \<longleftrightarrow>
     failed_with CoreError_InvalidCredentials
       (client_login None [route_login_status 401] ''u'' ''wrong'' bare)"

definition login_429_maps_to_rate_limited :: bool where
  "login_429_maps_to_rate_limited \<longleftrightarrow>
     failed_with CoreError_RateLimited
       (client_login None [route_login_status 429] ''u'' ''p'' bare)"

definition ticket_429_maps_to_rate_limited :: bool where
  "ticket_429_maps_to_rate_limited \<longleftrightarrow>
     failed_with CoreError_RateLimited
       (client_ticket no_faults None [route_ticket_status 429] bare)"

definition login_404_maps_to_unknown_provider :: bool where
  "login_404_maps_to_unknown_provider \<longleftrightarrow>
     failed_with CoreError_UnknownProvider
       (client_login None [route_login_status 404] ''u'' ''p'' bare)"

definition other_status_maps_to_http :: bool where
  "other_status_maps_to_http \<longleftrightarrow>
     failed_with (CoreError_Http 503)
       (client_ticket no_faults None [route_ticket_status 503] bare)"

definition malformed_base_url_maps_to_invalid_endpoint_not_invalid_qr :: bool where
  "malformed_base_url_maps_to_invalid_endpoint_not_invalid_qr \<longleftrightarrow>
     (case auth_status text_api (at_server []) (save_to no_faults None) ''not a url at all'' bare of
        (Inl (CoreError_InvalidEndpoint _), _) \<Rightarrow> True
      | _ \<Rightarrow> False)"

definition me_and_logout_round_trip :: bool where
  "me_and_logout_round_trip \<longleftrightarrow>
     (let routes = [route_me_ok, route_logout_ok]
      in case client_me routes bare of
           (Inr me, w) \<Rightarrow>
             str_at me ''username'' = ''hermo-test'' \<and>
             (case auth_logout text_api (at_server routes) (save_to no_faults None) test_base w of
                (Inr _, w) \<Rightarrow>
                  ts_count (aw_counts w) Rk_Me = 1 \<and> ts_count (aw_counts w) Rk_Logout = 1
              | _ \<Rightarrow> False)
         | _ \<Rightarrow> False)"

definition transport_failure_maps_to_network :: bool where
  "transport_failure_maps_to_network \<longleftrightarrow>
     (case auth_status text_api (\<lambda>_ w. (Http_Failed ''connection refused'', w)) (save_to no_faults
       None)
        ''http://127.0.0.1:1'' bare of
        (Inl (CoreError_Network _), _) \<Rightarrow> True
      | _ \<Rightarrow> False)"

definition profiles_parse_defensively_and_ignore_extra_keys :: bool where
  "profiles_parse_defensively_and_ignore_extra_keys \<longleftrightarrow>
     (case client_profiles [route_plain Rk_Profiles 200
         (JObj [(''profiles'', JArr [JObj [(''name'', JStr ''jn-core''), (''is_default'', JBool
           True), (''model'', JStr ''m-1''), (''description'', JStr ''core bot''), (''hidden'',
           JBool True), (''icon'', JStr ''x''), (''extra'', JObj [(''nested'', JArr [JNum (IntNum
           1), JNum (IntNum 2)])])], JObj [(''name'', JStr ''bare'')], JObj [(''model'', JNum
           (IntNum 42)), (''is_default'', JStr ''yes'')]])])] bare of
        (Inr ps, w) \<Rightarrow>
          ts_count (aw_counts w) Rk_Profiles = 1 \<and>
          length ps = 3 \<and>
          pf_name (ps ! 0) = ''jn-core'' \<and>
          pf_is_default (ps ! 0) \<and>
          pf_model (ps ! 0) = ''m-1'' \<and>
          pf_description (ps ! 0) = ''core bot'' \<and>
          pf_name (ps ! 1) = ''bare'' \<and>
          \<not> pf_is_default (ps ! 1) \<and>
          pf_model (ps ! 1) = '''' \<and>
          pf_description (ps ! 1) = '''' \<and>
          pf_name (ps ! 2) = '''' \<and>
          \<not> pf_is_default (ps ! 2) \<and>
          pf_model (ps ! 2) = ''''
      | _ \<Rightarrow> False)"

definition profiles_401_maps_to_session_expired :: bool where
  "profiles_401_maps_to_session_expired \<longleftrightarrow>
     failed_with CoreError_SessionExpired
       (client_profiles [route_profiles_status 401] bare)"

definition profiles_missing_key_yields_empty_list_not_panic :: bool where
  "profiles_missing_key_yields_empty_list_not_panic \<longleftrightarrow>
     (case client_profiles [route_profiles_ok] bare of
        (Inr ps, w) \<Rightarrow>
          ps = []
      | _ \<Rightarrow> False)"

lemma auth_client_tests_pass:
  "status_parses_auth_required_and_providers \<and>
   login_stores_cookie_and_jar_file_appears \<and>
   second_client_on_same_data_dir_skips_login \<and>
   third_client_on_fresh_data_dir_gets_session_expired \<and>
   corrupt_jar_file_is_an_io_error_not_silent_logout \<and>
   jar_write_is_atomic_tmp_then_rename \<and>
   ticket_401_maps_to_session_expired \<and>
   me_401_maps_to_session_expired \<and>
   login_401_maps_to_invalid_credentials \<and>
   login_429_maps_to_rate_limited \<and>
   ticket_429_maps_to_rate_limited \<and>
   login_404_maps_to_unknown_provider \<and>
   other_status_maps_to_http \<and>
   malformed_base_url_maps_to_invalid_endpoint_not_invalid_qr \<and>
   me_and_logout_round_trip \<and>
   transport_failure_maps_to_network \<and>
   profiles_parse_defensively_and_ignore_extra_keys \<and>
   profiles_401_maps_to_session_expired \<and>
   profiles_missing_key_yields_empty_list_not_panic"
  by code_simp

end
