(* ===== verification/Test_Gateways.thy ===== *)
theory Test_Gateways
  imports Ws_Facts
begin

text \<open>
  The in-process gateways of the unit tests: \<open>FakeGw\<close> of \<open>core.rs\<close> and \<open>for_fixture_tests\<close> of
  \<open>rpc/client.rs\<close>. Both answer every request line by a handler, and a heartbeat trivially.
  What a client gets from a call over them is the handler's answer, which is how the tests on
  the model treat them.
\<close>

section \<open>Replies\<close>

definition pong :: "json \<Rightarrow> json" where
  "pong v = JObj [(''jsonrpc'', JStr ''2.0''), (''id'', unwrap_or JNull (get_key v ''id'')),
     (''result'', JObj [(''ok'', JBool True)])]"

definition is_ping :: "json \<Rightarrow> bool" where
  "is_ping v \<longleftrightarrow> Option.bind (get_key v ''method'') as_str = Some ''gateway.ping''"

datatype fake_rpc_error = Plain string | Coded int string

definition error_reply :: "json \<Rightarrow> (string \<times> json) list \<Rightarrow> json" where
  "error_reply i err = JObj [(''jsonrpc'', JStr ''2.0''), (''id'', i), (''error'', JObj err)]"

definition fake_gw_reply :: "(string \<Rightarrow> json \<Rightarrow> fake_rpc_error + json) \<Rightarrow> json \<Rightarrow> json" where
  "fake_gw_reply handler v =
     (if is_ping v then pong v
      else
        (let meth = str_at v ''method''; params = unwrap_or JNull (get_key v ''params'');
             i = unwrap_or JNull (get_key v ''id'')
         in case handler meth params of
              Inr value \<Rightarrow> JObj [(''jsonrpc'', JStr ''2.0''), (''id'', i), (''result'', value)]
            | Inl (Plain msg) \<Rightarrow>
                error_reply i [(''code'', JNum (IntNum (- 32000))), (''message'', JStr msg)]
            | Inl (Coded code message) \<Rightarrow>
                error_reply i [(''code'', JNum (IntNum code)), (''message'', JStr message), (''data'', JNull)]))"

definition fixture_reply :: "(string \<Rightarrow> json \<Rightarrow> string + json) \<Rightarrow> json \<Rightarrow> json" where
  "fixture_reply handler v =
     (if is_ping v then pong v
      else
        (let meth = str_at v ''method''; params = unwrap_or JNull (get_key v ''params'')
         in case handler meth params of
              Inr value \<Rightarrow>
                JObj [(''jsonrpc'', JStr ''2.0''), (''id'', unwrap_or JNull (get_key v ''id'')), (''result'', value)]
            | Inl message \<Rightarrow>
                error_reply (unwrap_or JNull (get_key v ''id''))
                  [(''code'', JNum (IntNum (- 32000))), (''message'', JStr message)]))"

text \<open>A text frame: a reply for every line that is not blank and parses.\<close>

definition served_lines :: "serde \<Rightarrow> (json \<Rightarrow> json) \<Rightarrow> string \<Rightarrow> json list" where
  "served_lines sj reply text =
     List.map_filter (\<lambda>line. map_option reply (from_str sj (trim line)))
       (filter (\<lambda>l. trim l \<noteq> '''') (split_on nl text))"

section \<open>What the caller gets\<close>

text \<open>How the error object of the reply reaches the caller: a plain message has the code -32000.\<close>

definition fake_reply :: "fake_rpc_error + json \<Rightarrow> client_error + json" where
  "fake_reply res =
     (case res of
        Inl (Plain message) \<Rightarrow> Inl (ClientError_Rpc (- 32000) message)
      | Inl (Coded code message) \<Rightarrow> Inl (ClientError_Rpc code message)
      | Inr v \<Rightarrow> Inr v)"

lemma get_request [simp]:
  "get_key (request_to_value r) ''id'' = Some (JStr (req_id r))"
  "get_key (request_to_value r) ''method'' = Some (JStr (req_method r))"
  "get_key (request_to_value r) ''params'' = Some (req_params r)"
  by (simp_all add: request_to_value_def)

lemma served_line:
  assumes "wire_ok sj v"
  shows "served_lines sj reply (to_compact_string sj v) = [reply v]"
  using assms by (simp add: wire_ok_def served_lines_def split_on_id List.map_filter_def Let_def)

text \<open>The error object a client makes of a reply, and the answer of the call.\<close>

lemma decode_answer:
  assumes "\<forall>code m. res = Inl (Coded code m) \<longrightarrow> is_i64 code"
    and "v = (case res of
           Inr value \<Rightarrow> JObj [(''jsonrpc'', JStr ''2.0''), (''id'', JStr i), (''result'', value)]
         | Inl (Plain msg) \<Rightarrow>
             error_reply (JStr i) [(''code'', JNum (IntNum (- 32000))), (''message'', JStr msg)]
         | Inl (Coded code message) \<Rightarrow>
             error_reply (JStr i) [(''code'', JNum (IntNum code)), (''message'', JStr message), (''data'', JNull)])"
  shows "(case decode_value sj v of
            Decoded_Result j x \<Rightarrow> Some (j, Inr x)
          | Decoded_Error j e \<Rightarrow> Some (j, Inl (ClientError_Rpc (err_code e) (err_message e)))
          | _ \<Rightarrow> None) = Some (i, fake_reply res)"
  using assms
  by (auto simp: decode_value_def id_to_string_def error_reply_def fake_reply_def i64_at_def as_i64_def
      i64_min_def i64_max_def split: sum.split fake_rpc_error.split)

lemma reply_settles:
  assumes "wire_ok sj v" and "i \<in> ws_pending s"
    and "(case decode_value sj v of
            Decoded_Result j x \<Rightarrow> Some (j, Inr x)
          | Decoded_Error j e \<Rightarrow> Some (j, Inl (ClientError_Rpc (err_code e) (err_message e)))
          | _ \<Rightarrow> None) = Some (i, res)"
  shows "ws_answers (reader_step sj now (Msg_Text (to_compact_string sj v)) s) i = Some res"
proof -
  have line: "split_lines (to_compact_string sj v) = [to_compact_string sj v]"
    using assms(1) by (intro split_lines_single) (simp_all add: wire_ok_def Let_def)
  have dec: "decode sj (to_compact_string sj v) = Some (decode_value sj v)"
    using assms(1) by (simp add: wire_ok_def decode_def Let_def)
  show ?thesis
    using assms(2,3) by (simp add: line read_line_def dec settle_def split: decoded.splits)
qed

text \<open>
  A call over \<open>FakeGw\<close> resolves to what its handler answers. The request line that the client
  queues is answered by one line, and reading that line settles the call.
\<close>

lemma fake_gw_answers_call:
  assumes "ws_writer s" and "meth \<noteq> ''gateway.ping''"
    and "\<forall>code m. handler meth params = Inl (Coded code m) \<longrightarrow> is_i64 code"
    and "req = request_to_value \<lparr>req_jsonrpc = ''2.0'', req_id = call_id (ws_next_id s), req_method = meth, req_params = params\<rparr>"
    and "wire_ok sj req" and "wire_ok sj (fake_gw_reply handler req)"
    and "call_issue sj meth params s = (Inr i, s1)"
  shows "served_lines sj (fake_gw_reply handler) (call_line sj i meth params) = [fake_gw_reply handler req]"
    and "ws_answers (reader_step sj now (Msg_Text (to_compact_string sj (fake_gw_reply handler req))) s1) i =
       Some (fake_reply (handler meth params))"
proof -
  from assms(1,7) have i: "i = call_id (ws_next_id s)" "i \<in> ws_pending s1"
    by (auto simp: call_issue_def enqueue_def Let_def)
  show "served_lines sj (fake_gw_reply handler) (call_line sj i meth params) = [fake_gw_reply handler req]"
    using served_line [OF assms(5)] by (simp add: call_line_def assms(4) i(1))
  have "fake_gw_reply handler req = (case handler meth params of
           Inr value \<Rightarrow> JObj [(''jsonrpc'', JStr ''2.0''), (''id'', JStr i), (''result'', value)]
         | Inl (Plain msg) \<Rightarrow>
             error_reply (JStr i) [(''code'', JNum (IntNum (- 32000))), (''message'', JStr msg)]
         | Inl (Coded code message) \<Rightarrow>
             error_reply (JStr i) [(''code'', JNum (IntNum code)), (''message'', JStr message), (''data'', JNull)])"
    using assms(2) by (simp add: fake_gw_reply_def assms(4) i(1) [symmetric] is_ping_def str_at_def as_str_def Let_def)
  from reply_settles [OF assms(6) i(2) decode_answer [OF assms(3) this]]
  show "ws_answers (reader_step sj now (Msg_Text (to_compact_string sj (fake_gw_reply handler req))) s1) i =
       Some (fake_reply (handler meth params))" .
qed

lemma fixture_answers_call:
  "fixture_reply handler v = fake_gw_reply (\<lambda>m p. map_sum Plain id (handler m p)) v"
  by (simp add: fixture_reply_def fake_gw_reply_def Let_def split: sum.split)

end
