(* ===== verification/Unit_Tests_Core.thy ===== *)
theory Unit_Tests_Core
  imports Url_Text Supervisor Core_Extras Test_Gateways "HOL-Library.Code_Target_Nat"
begin

text \<open>
  The unit tests of \<open>core.rs\<close>, evaluated on the model. The tests' in-process gateway is an
  RPC argument that answers by a handler (\<open>Test_Gateways\<close> says why); where a test looks at the
  calls the gateway received, the gateway notes them in files of its own, one per method and
  one line per call. The recording sink is sink 1 and its deliveries are read off the calls of
  the state.
\<close>

text \<open>For evaluation an update of a map is kept as it is until the map is applied.\<close>

declare fun_upd_apply [code]

section \<open>The harness\<close>

definition test_env :: "text_url core_env" where
  "test_env = \<lparr>ce_json = text_serde, ce_url = text_api, ce_io = no_faults, ce_dir = ''/data''\<rparr>"

type_synonym fake_handler = "string \<Rightarrow> json \<Rightarrow> fake_rpc_error + json"

definition fake_gw :: "fake_handler \<Rightarrow> text_url rpc" where
  "fake_gw handler c m p w = (fake_reply (handler m p), w)"

definition gateway_log :: "string \<Rightarrow> string" where
  "gateway_log m = ''/gateway/'' @ m"

definition note_call :: "string \<Rightarrow> json \<Rightarrow> text_url core \<Rightarrow> text_url core" where
  "note_call m p w =
     w\<lparr>disk := (disk w)(gateway_log m \<mapsto>
         unwrap_or '''' (disk w (gateway_log m)) @ json_print p @ [nl])\<rparr>"

definition logging_gw :: "fake_handler \<Rightarrow> text_url rpc" where
  "logging_gw handler c m p w = (fake_reply (handler m p), note_call m p w)"

text \<open>The parameters of the calls of a method.\<close>

definition calls_of :: "string \<Rightarrow> text_url core \<Rightarrow> json list" where
  "calls_of m w = List.map_filter json_parse (str_lines (unwrap_or '''' (disk w (gateway_log m))))"

definition connected_core :: "text_url core" where
  "connected_core = (core_new test_env True Map.empty)
     \<lparr>endpoint :=
        (case url_parse text_api ''http://gateway.test'' of
           Inl _ \<Rightarrow> None
         | Inr u \<Rightarrow> Some (endpoint_new text_api u ''user'' ''test'')),
      client := Some 1, sink := Some 1, stop_flag := False, supervising := True\<rparr>"

definition attach_session :: "string \<Rightarrow> string \<Rightarrow> text_url core \<Rightarrow> text_url core" where
  "attach_session key sid w =
     (let epoch = history_epoch w + 1
      in w\<lparr>history_epoch := epoch,
           chats := (chats w)(key \<mapsto> \<lparr>live_sid = sid, l_reducer = new_reducer, l_last_seen = 0,
             l_epoch = epoch\<rparr>),
           sid_index := (sid_index w)(sid \<mapsto> key),
           reg := registry_upsert \<lparr>stored_id = key, last_seen_seq = 0, rec_epoch = '''',
                     rec_cols = default_cols, rec_title = '''', rec_profile = ''''\<rparr> (reg w)\<rparr>)"

definition wire_event :: "string \<Rightarrow> string \<Rightarrow> int \<Rightarrow> json \<Rightarrow> event_params" where
  "wire_event ty sid seq payload =
     \<lparr>event_type = ty, ev_session_id = sid, ev_seq = Some seq, ev_payload = payload\<rparr>"

definition delivered :: "text_url core \<Rightarrow> change_dto list" where
  "delivered w =
     List.map_filter
       (\<lambda>(s, c). case c of On_Transcript d \<Rightarrow> (if s = 1 then Some d else None) | _ \<Rightarrow> None)
       (sink_calls w)"

definition kind_deliveries :: "string \<Rightarrow> text_url core \<Rightarrow> change_dto list" where
  "kind_deliveries k w =
     filter (\<lambda>d. contains_str (''\"kind\":\"'' @ k @ ''\"'') (dto_row_json d)) (delivered w)"

text \<open>\<open>.map(|l| l.reducer.transcript().rows.clone()).unwrap_or_default()\<close> is \<^const>\<open>rows_of\<close>.\<close>

abbreviation deliver :: "event_params \<Rightarrow> text_url core \<Rightarrow> text_url core panics" where
  "deliver ev w \<equiv> deliver_event text_serde ev 1 w"

text \<open>Deliveries in a row.\<close>

fun deliver_each :: "event_params list \<Rightarrow> text_url core \<Rightarrow> text_url core panics" where
  "deliver_each [] w = Some w"
| "deliver_each (e # es) w = (case deliver e w of None \<Rightarrow> panic | Some w' \<Rightarrow> deliver_each es w')"

definition tab_record :: "text_url core \<Rightarrow> string \<Rightarrow> (session_record \<Rightarrow> bool) \<Rightarrow> bool" where
  "tab_record w k P = (case registry_get (reg w) k of None \<Rightarrow> False | Some r \<Rightarrow> P r)"

text \<open>The handler of most tests: one reply per method, \<open>{}\<close> for every other.\<close>

definition answering :: "(string \<times> (fake_rpc_error + json)) list \<Rightarrow> fake_handler" where
  "answering replies m p = unwrap_or (Inr (JObj [])) (map_of replies m)"

abbreviation alpha_core :: "text_url core" where
  "alpha_core \<equiv> attach_session ''stored-alpha'' ''live-A'' connected_core"

section \<open>Events\<close>

definition session_less_events_emit_nothing_and_add_no_rows :: bool where
  "session_less_events_emit_nothing_and_add_no_rows \<longleftrightarrow>
     (case deliver_each
        [wire_event ''gateway.ready'' '''' 1 (JObj [(''heartbeat'', JBool True)]),
         wire_event ''sessions.changed'' '''' 2 (JObj []),
         \<lparr>event_type = ''skin.changed'', ev_session_id = '''', ev_seq = None, ev_payload = JObj []\<rparr>]
        alpha_core of
        None \<Rightarrow> False
      | Some w \<Rightarrow>
          delivered w = [] \<and> length (rows_of w ''stored-alpha'') = 0 \<and>
          tab_record w ''stored-alpha'' (\<lambda>r. last_seen_seq r = 0))"

definition session_title_event_routes_by_stored_key_and_updates_the_registry :: bool where
  "session_title_event_routes_by_stored_key_and_updates_the_registry \<longleftrightarrow>
     (case deliver (wire_event ''session.title'' ''stored-alpha'' 9 (JObj [(''title'', JStr
       ''renamed by auto-titling'')]))
        alpha_core of
        None \<Rightarrow> False
      | Some w \<Rightarrow>
          (case find (\<lambda>d. dto_kind d = Kind_HeaderUpdated) (delivered w) of
             None \<Rightarrow> False
           | Some d \<Rightarrow> dto_key d = ''stored-alpha'' \<and> dto_title d = ''renamed by auto-titling'') \<and>
          tab_record w ''stored-alpha'' (\<lambda>r. rec_title r = ''renamed by auto-titling'') \<and>
          map_option (\<lambda>l. h_title (header (r_state (l_reducer l)))) (chats w ''stored-alpha'') =
            Some ''renamed by auto-titling'')"

definition registry_round_trip_through_a_new_core_instance :: bool where
  "registry_round_trip_through_a_new_core_instance \<longleftrightarrow>
     (let w0 = attach_session ''stored-beta'' ''live-B''
            (attach_session ''stored-alpha'' ''live-A'' (core_new test_env True Map.empty));
          w1 = w0\<lparr>reg := registry_touch ''stored-beta'' 7 ''''
                 (registry_touch ''stored-alpha'' 41 ''e-1'' (set_active (Some ''stored-beta'') (reg
                   w0)))\<rparr>
      in case deliver (wire_event ''message.start'' ''live-A'' 42 (JObj [])) w1 of
           None \<Rightarrow> False
         | Some w2 \<Rightarrow>
             (let w3 = flush_registry test_env w2; w4 = core_new test_env True (disk w3)
              in registry_dirty w2 \<and> disk w2 (sessions_path test_env) = None \<and> \<not> registry_dirty w3 \<and>
                 map stored_id (sessions (reg w4)) = [''stored-alpha'', ''stored-beta''] \<and>
                 active_key (reg w4) = Some ''stored-beta'' \<and>
                 tab_record w4 ''stored-alpha'' (\<lambda>r. last_seen_seq r = 42 \<and> rec_epoch r = ''e-1'') \<and>
                 tab_record w4 ''stored-beta'' (\<lambda>r. last_seen_seq r = 7)))"

definition delivery_stamps_the_durable_session_key_not_the_live_sid :: bool where
  "delivery_stamps_the_durable_session_key_not_the_live_sid \<longleftrightarrow>
     (case deliver_each
        [wire_event ''message.start'' ''live-A'' 1 (JObj []), wire_event ''message.delta''
          ''live-B'' 1 (JObj [(''text'', JStr ''b'')]),
         wire_event ''message.delta'' ''live-A'' 2 (JObj [(''text'', JStr ''a'')])]
        (attach_session ''stored-beta'' ''live-B'' alpha_core) of
        None \<Rightarrow> False
      | Some w \<Rightarrow>
          length (delivered w) = 3 \<and>
          map dto_key (delivered w) = [''stored-alpha'', ''stored-beta'', ''stored-alpha''] \<and>
          list_all (\<lambda>d. dto_key d \<noteq> ''live-A'' \<and> dto_key d \<noteq> ''live-B'') (delivered w) \<and>
          length (rows_of w ''stored-alpha'') = 1 \<and> length (rows_of w ''stored-beta'') = 1)"

lemma core_event_tests_pass:
  "session_less_events_emit_nothing_and_add_no_rows \<and>
   session_title_event_routes_by_stored_key_and_updates_the_registry \<and>
   registry_round_trip_through_a_new_core_instance \<and>
   delivery_stamps_the_durable_session_key_not_the_live_sid"
  by code_simp

section \<open>Approvals and clarifications\<close>

definition pending_gw :: "text_url rpc" where
  "pending_gw =
     fake_gw (answering [(''approval.pending'', Inr (JObj [(''pending'', JArr [JObj
       [(''request_id'', JStr ''req-1''), (''command'', JStr ''rm -r /tmp/x''), (''description'',
       JStr ''d''), (''choices'', JArr [JStr ''allow'', JStr ''deny''])]])]))])"

abbreviation reemit :: "text_url core \<Rightarrow> ((core_error + unit) \<times> text_url core) panics" where
  "reemit \<equiv> reemit_approvals test_env pending_gw (\<lambda>_. [''stored-alpha'']) 1 1"

definition reemit_approvals_dedupes_by_request_id_on_the_real_path :: bool where
  "reemit_approvals_dedupes_by_request_id_on_the_real_path \<longleftrightarrow>
     (case reemit alpha_core of
        Some (Inr _, w1) \<Rightarrow>
          length (kind_deliveries ''approval'' w1) = 1 \<and>
          (case reemit w1 of
             Some (Inr _, w2) \<Rightarrow>
               length (kind_deliveries ''approval'' w2) = 1 \<and>
               (case reemit (w2\<lparr>emitted_approvals := Map.empty\<rparr>) of
                  Some (Inr _, w3) \<Rightarrow>
                    length (kind_deliveries ''approval'' w3) = 1 \<and>
                    length (filter (\<lambda>r. case kind r of Approval _ \<Rightarrow> True | _ \<Rightarrow> False)
                              (rows_of w3 ''stored-alpha'')) = 1 \<and>
                    (case chats w3 ''stored-alpha'' of
                       None \<Rightarrow> False
                     | Some live \<Rightarrow>
                         (case resolve_approval (l_reducer live) ''stored-alpha'' ''req-1'' of
                            None \<Rightarrow> False
                          | Some (r, _) \<Rightarrow>
                              (case reemit (w3\<lparr>emitted_approvals := (emitted_approvals
                                w3)(''stored-alpha'' \<mapsto> [''req-1'']),
                                  chats := (chats w3)(''stored-alpha'' \<mapsto> live\<lparr>l_reducer := r\<rparr>)\<rparr>) of
                                 Some (Inr _, w4) \<Rightarrow>
                                   length (delivered w4) = length (delivered w3) \<and>
                                   length (rows_of w4 ''stored-alpha'') = 1
                               | _ \<Rightarrow> False)))
                | _ \<Rightarrow> False)
           | _ \<Rightarrow> False)
      | _ \<Rightarrow> False)"

definition respond_clarify_delivers_the_resolved_card :: bool where
  "respond_clarify_delivers_the_resolved_card \<longleftrightarrow>
     (case deliver
        (wire_event ''clarify.request'' ''live-A'' 1 (JObj [(''request_id'', JStr ''c-1''),
          (''question'', JStr ''Proceed?''), (''choices'', JArr [JStr ''yes'', JStr ''no''])]))
        (attach_session ''stored-A'' ''live-A'' connected_core) of
        None \<Rightarrow> False
      | Some w1 \<Rightarrow>
          length (delivered w1) = 1 \<and>
          (case respond_clarify test_env
              (fake_gw (answering [(''clarify.respond'', Inr (JObj [(''status'', JStr ''ok'')]))]))
              ''stored-A'' ''c-1'' ''yes'' None w1 of
             Some (Inr _, w2) \<Rightarrow>
               length (delivered w1) < length (delivered w2) \<and>
       dto_key (last (delivered w2)) = ''stored-A''
           | _ \<Rightarrow> False))"

lemma core_card_tests_pass:
  "reemit_approvals_dedupes_by_request_id_on_the_real_path \<and>
   respond_clarify_delivers_the_resolved_card"
  by code_simp

section \<open>The supervisor\<close>

text \<open>The run of the test: the client is open, and then closed on purpose.\<close>

definition supervisor_clears_the_supervising_flag_on_exit :: bool where
  "supervisor_clears_the_supervising_flag_on_exit \<longleftrightarrow>
     (let gw = fake_gw (answering [])
      in case sup_begin test_env gw (\<lambda>_. []) 1 State_Open ''e-fake'' 1
                (sup_start 1 (connected_core\<lparr>supervising := True\<rparr>)) of
           None \<Rightarrow> False
         | Some s \<Rightarrow>
             (case sup_loop test_env gw 1 1 (In_State (State_Closed local_close_reason)) s of
                None \<Rightarrow> False
              | Some s' \<Rightarrow> sup_phase s' = Sup_Done \<and> \<not> supervising (sup_exit (sup_core s'))))"

text \<open>
  The ladder, for the jitter that the clock gives; the delays of the later rungs at half the
  jitter are exact.
\<close>

definition supervisor_ladder_resets_on_success_and_caps_at_the_final_step :: "rat \<Rightarrow> bool" where
  "supervisor_ladder_resets_on_success_and_caps_at_the_final_step jitter \<longleftrightarrow>
     (let first = jittered_delay 0 jitter in 1000 \<le> first \<and> first \<le> 1200) \<and>
     (\<forall>attempt \<in> set [5, 6, 20, 2 ^ 32 - 1]. jittered_delay attempt 0 = backoff_ms ! (length
       backoff_ms - 1)) \<and>
     (\<forall>attempt \<in> set [0..<10].
        let d = jittered_delay attempt (1 / 2); base = delay_for_attempt attempt
        in base \<le> d \<and> d \<le> base + base div 5)"

lemma delay_at_half: "jittered_delay n (1 / 2) = delay_for_attempt n + delay_for_attempt n div 10"
  by (rule jittered_delay_exact) (simp add: clamp01_def delay_cases)

lemma supervisor_ladder_resets_on_success_and_caps_at_the_final_step_passes:
  "supervisor_ladder_resets_on_success_and_caps_at_the_final_step (clock_jitter since_epoch)"
proof -
  have first: "jittered_delay 0 0 \<le> jittered_delay 0 (clock_jitter since_epoch)"
    "jittered_delay 0 (clock_jitter since_epoch) \<le> jittered_delay 0 1"
    using clock_jitter_range [of since_epoch] by (auto intro: jittered_delay_mono)
  have ends: "jittered_delay n 0 = delay_for_attempt n" "jittered_delay 0 1 = 1200" for n
    using jittered_delay_exact [of n 0 0] jittered_delay_exact [of 0 1 200]
    by (simp_all add: clamp01_def delay_cases)
  show ?thesis
    using first
    by (auto simp: supervisor_ladder_resets_on_success_and_caps_at_the_final_step_def Let_def ends
        delay_at_half delay_cases backoff_ms_def)
qed

lemma supervisor_clears_the_supervising_flag_on_exit_passes: "supervisor_clears_the_supervising_flag_on_exit"
  by code_simp

section \<open>Sending\<close>

definition send_publishes_the_user_row_through_the_sink :: bool where
  "send_publishes_the_user_row_through_the_sink \<longleftrightarrow>
     (case send test_env (fake_gw (answering [(''prompt.submit'', Inr (JObj [(''status'', JStr
       ''streaming'')]))]))
         ''stored-alpha'' ''log a meal'' alpha_core of
        Some (Inr _, w) \<Rightarrow>
          (let user_rows = filter (\<lambda>d. contains_str ''log a meal'' (dto_row_json d))
            (kind_deliveries ''user'' w);
               rows = rows_of w ''stored-alpha''
           in length user_rows = 1 \<and> dto_key (user_rows ! 0) = ''stored-alpha'' \<and>
              dto_kind (user_rows ! 0) = Kind_RowAppended \<and> length rows = 1 \<and> index (rows ! 0) = 0 \<and>
              kind (rows ! 0) = User ''log a meal'')
      | _ \<Rightarrow> False)"

definition send_publishes_the_user_row_even_when_redirected :: bool where
  "send_publishes_the_user_row_even_when_redirected \<longleftrightarrow>
     (case send test_env (fake_gw (answering [(''prompt.submit'', Inr (JObj [(''status'', JStr
       ''redirected'')]))]))
         ''stored-alpha'' ''second text'' alpha_core of
        Some (Inr _, w) \<Rightarrow>
          list_ex (\<lambda>d. contains_str ''second text'' (dto_row_json d)) (kind_deliveries ''user'' w)
      | _ \<Rightarrow> False)"

definition send_publishes_no_user_row_on_a_failed_submit :: bool where
  "send_publishes_no_user_row_on_a_failed_submit \<longleftrightarrow>
     (case send test_env (fake_gw (answering [(''prompt.submit'', Inl (Plain ''gateway down''))]))
         ''stored-alpha'' ''lost'' alpha_core of
        Some (Inl _, w) \<Rightarrow>
          delivered w = [] \<and> rows_of w ''stored-alpha'' = []
      | _ \<Rightarrow> False)"

definition send_errors_and_publishes_no_row_on_an_unknown_submit_status :: bool where
  "send_errors_and_publishes_no_row_on_an_unknown_submit_status \<longleftrightarrow>
     list_all (\<lambda>reply.
       (case send test_env (fake_gw (answering [(''prompt.submit'', Inr reply)]))
           ''stored-alpha'' ''swallowed'' alpha_core of
          Some (Inl e, w) \<Rightarrow>
            e = CoreError_UnexpectedStatus \<and> delivered w = [] \<and> rows_of w ''stored-alpha'' = []
        | _ \<Rightarrow> False))
       [JObj [], JObj [(''status'', JStr ''from-the-future'')]]"

text \<open>The gateway of the race: the tab is rebuilt while the submit is being answered.\<close>

definition racing_gw :: "text_url rpc" where
  "racing_gw c m p w =
     (if m = ''prompt.submit''
      then (let (w', dtos) = rebuild_session text_serde ''stored-alpha''
                  [JObj [(''role'', JStr ''user''), (''text'', JStr ''raced text'')]] None w
            in (Inr (JObj [(''status'', JStr ''streaming'')]), (case sink w of None \<Rightarrow> w' | Some snk
              \<Rightarrow> emit_dtos snk dtos w')))
      else (Inr (JObj []), w))"

definition send_does_not_duplicate_the_user_row_when_a_rebuild_races_the_submit :: bool where
  "send_does_not_duplicate_the_user_row_when_a_rebuild_races_the_submit \<longleftrightarrow>
     (case send test_env racing_gw ''stored-alpha'' ''raced text'' alpha_core of
        Some (Inr _, w) \<Rightarrow>
          length (rows_of w ''stored-alpha'') = 1 \<and> length (kind_deliveries ''user'' w) = 1
      | _ \<Rightarrow> False)"

lemma core_sending_tests_pass:
  "send_publishes_the_user_row_through_the_sink \<and>
   send_publishes_the_user_row_even_when_redirected \<and>
   send_publishes_no_user_row_on_a_failed_submit \<and>
   send_errors_and_publishes_no_row_on_an_unknown_submit_status \<and>
   send_does_not_duplicate_the_user_row_when_a_rebuild_races_the_submit"
  by code_simp

section \<open>The slash ladder\<close>

text \<open>The parameter \<open>k\<close> of every call of a method.\<close>

definition all_calls :: "string \<Rightarrow> string \<Rightarrow> json \<Rightarrow> text_url core \<Rightarrow> bool" where
  "all_calls m k v w = list_all (\<lambda>p. get_key p k = Some v) (calls_of m w)"

definition run_slash_falls_back_to_dispatch_on_4018_and_submits_the_skill_message :: bool where
  "run_slash_falls_back_to_dispatch_on_4018_and_submits_the_skill_message \<longleftrightarrow>
     (case run_slash test_env (logging_gw (answering
             [(''slash.exec'', Inl (Coded 4018
               ''skill command: use command.dispatch for /deploy'')),
              (''command.dispatch'', Inr (JObj [(''type'', JStr ''skill''), (''name'', JStr
                ''deploy''), (''message'', JStr ''hi''), (''display'', JStr ''/deploy'')])),
              (''prompt.submit'', Inr (JObj [(''status'', JStr ''streaming'')]))]))
         ''stored-alpha'' ''/deploy prod'' alpha_core of
        Some (Inr outcome, w) \<Rightarrow>
          length (calls_of ''command.dispatch'' w) = 1 \<and>
          length (calls_of ''prompt.submit'' w) = 1 \<and>
          all_calls ''command.dispatch'' ''name'' (JStr ''deploy'') w \<and>
          all_calls ''command.dispatch'' ''arg'' (JStr ''prod'') w \<and>
          all_calls ''prompt.submit'' ''text'' (JStr ''hi'') w \<and>
          outcome = Slash_Submitted \<and>
          length (kind_deliveries ''user'' w) = 1 \<and>
          contains_str ''/deploy'' (dto_row_json (kind_deliveries ''user'' w ! 0))
      | _ \<Rightarrow> False)"

definition run_slash_does_not_dispatch_on_a_non_4018_exec_error :: bool where
  "run_slash_does_not_dispatch_on_a_non_4018_exec_error \<longleftrightarrow>
     (case run_slash test_env (logging_gw (answering
             [(''slash.exec'', Inl (Coded 4009 ''session busy'')),
              (''command.dispatch'', Inr (JObj [(''type'', JStr ''exec''), (''output'', JStr
                ''should not run'')]))]))
         ''stored-alpha'' ''/help'' alpha_core of
        Some (Inl e, w) \<Rightarrow>
          (case e of CoreError_Rpc code _ \<Rightarrow> code = 4009 | _ \<Rightarrow> False) \<and>
          calls_of ''command.dispatch'' w = []
      | _ \<Rightarrow> False)"

definition run_slash_renders_exec_output_without_dispatching :: bool where
  "run_slash_renders_exec_output_without_dispatching \<longleftrightarrow>
     (case run_slash test_env (logging_gw (answering
             [(''slash.exec'', Inr (JObj [(''output'', JStr ''help'')])),
              (''command.dispatch'', Inr (JObj [(''type'', JStr ''exec''), (''output'', JStr
                ''WRONG'')]))]))
         ''stored-alpha'' ''/help'' alpha_core of
        Some (Inr outcome, w) \<Rightarrow>
          outcome = Slash_Output ''help'' \<and>
          calls_of ''command.dispatch'' w = []
      | _ \<Rightarrow> False)"

definition run_slash_concatenates_the_exec_warning_desktop_style :: bool where
  "run_slash_concatenates_the_exec_warning_desktop_style \<longleftrightarrow>
     (case run_slash test_env (fake_gw (answering
             [(''slash.exec'', Inr (JObj [(''output'', JStr ''done''), (''warning'', JStr
               ''config drifted'')]))]))
         ''stored-alpha'' ''/goal'' alpha_core of
        Some (Inr outcome, w) \<Rightarrow>
          outcome = Slash_Output (''warning: config drifted'' @ [nl] @ ''done'')
      | _ \<Rightarrow> False)"

definition run_slash_maps_4004_to_empty_not_an_error :: bool where
  "run_slash_maps_4004_to_empty_not_an_error \<longleftrightarrow>
     (case run_slash test_env (fake_gw (answering
             [(''slash.exec'', Inl (Coded 4004 ''empty command''))]))
         ''stored-alpha'' '''' alpha_core of
        Some (Inr outcome, w) \<Rightarrow>
          outcome = Slash_Empty
      | _ \<Rightarrow> False)"

definition run_slash_returns_prefill_without_submitting :: bool where
  "run_slash_returns_prefill_without_submitting \<longleftrightarrow>
     (case run_slash test_env (logging_gw (answering
             [(''slash.exec'', Inl (Coded 4018 ''use command.dispatch for /model'')),
              (''command.dispatch'', Inr (JObj [(''type'', JStr ''prefill''), (''message'', JStr
                ''/model gpt-5'')])),
              (''prompt.submit'', Inr (JObj [(''status'', JStr ''streaming'')]))]))
         ''stored-alpha'' ''/model'' alpha_core of
        Some (Inr outcome, w) \<Rightarrow>
          outcome = Slash_Prefill ''/model gpt-5'' \<and>
          calls_of ''prompt.submit'' w = [] \<and>
          delivered w = []
      | _ \<Rightarrow> False)"

definition run_slash_submits_a_send_dispatch_and_publishes_the_message_row :: bool where
  "run_slash_submits_a_send_dispatch_and_publishes_the_message_row \<longleftrightarrow>
     (case run_slash test_env (logging_gw (answering
             [(''slash.exec'', Inl (Coded 4018 ''use command.dispatch for /work'')),
              (''command.dispatch'', Inr (JObj [(''type'', JStr ''send''), (''message'', JStr
                ''kick off the build'')])),
              (''prompt.submit'', Inr (JObj [(''status'', JStr ''streaming'')]))]))
         ''stored-alpha'' ''/work now'' alpha_core of
        Some (Inr outcome, w) \<Rightarrow>
          all_calls ''prompt.submit'' ''text'' (JStr ''kick off the build'') w \<and>
          outcome = Slash_Submitted \<and>
          length (kind_deliveries ''user'' w) = 1 \<and>
          contains_str ''kick off the build'' (dto_row_json (kind_deliveries ''user'' w ! 0))
      | _ \<Rightarrow> False)"

definition alias_handler :: fake_handler where
  "alias_handler m p =
     (if m = ''slash.exec''
      then (if get_key p ''command'' = Some (JStr ''/first'')
            then Inl (Coded 4018 ''use command.dispatch for /first'')
            else Inr (JObj [(''output'', JStr ''second leg done'')]))
      else if m = ''command.dispatch'' then Inr (JObj [(''type'', JStr ''alias''), (''target'', JStr
        ''/second'')])
      else Inr (JObj []))"

definition run_slash_follows_an_alias_target_through_the_whole_ladder :: bool where
  "run_slash_follows_an_alias_target_through_the_whole_ladder \<longleftrightarrow>
     (case run_slash test_env (logging_gw alias_handler)
         ''stored-alpha'' ''/first'' alpha_core of
        Some (Inr outcome, w) \<Rightarrow>
          outcome = Slash_Output ''second leg done'' \<and>
          map (\<lambda>p. str_at p ''command'') (calls_of ''slash.exec'' w) = [''/first'', ''/second'']
      | _ \<Rightarrow> False)"

definition run_slash_capped_alias_cycle_errors_instead_of_looping :: bool where
  "run_slash_capped_alias_cycle_errors_instead_of_looping \<longleftrightarrow>
     (case run_slash test_env (fake_gw (answering
             [(''slash.exec'', Inl (Coded 4018 ''use command.dispatch'')),
              (''command.dispatch'', Inr (JObj [(''type'', JStr ''alias''), (''target'', JStr
                ''/b'')]))]))
         ''stored-alpha'' ''/a'' alpha_core of
        Some (Inl e, w) \<Rightarrow>
          (case e of CoreError_Rpc code text \<Rightarrow> code = alias_loop_code \<and> contains_str ''8 hops'' text
            | _ \<Rightarrow> False)
      | _ \<Rightarrow> False)"

lemma slash_ladder_tests_pass:
  "run_slash_falls_back_to_dispatch_on_4018_and_submits_the_skill_message \<and>
   run_slash_does_not_dispatch_on_a_non_4018_exec_error \<and>
   run_slash_renders_exec_output_without_dispatching \<and>
   run_slash_concatenates_the_exec_warning_desktop_style \<and>
   run_slash_maps_4004_to_empty_not_an_error \<and>
   run_slash_returns_prefill_without_submitting \<and>
   run_slash_submits_a_send_dispatch_and_publishes_the_message_row \<and>
   run_slash_follows_an_alias_target_through_the_whole_ladder \<and>
   run_slash_capped_alias_cycle_errors_instead_of_looping"
  by code_simp

section \<open>Bot chats\<close>

definition open_bot_chat_resumes_the_canonical_row_and_never_creates :: bool where
  "open_bot_chat_resumes_the_canonical_row_and_never_creates \<longleftrightarrow>
     (let gw = logging_gw (answering
             [(''session.list'', Inr (JObj [(''sessions'', JArr [JObj [(''id'', JStr
               ''stored-recent''), (''title'', JStr ''Daily work''), (''message_count'', JNum
               (IntNum 2))], JObj [(''id'', JStr ''stored-bot''), (''title'', JStr ''Bot Chat''),
               (''message_count'', JNum (IntNum 4))]])])),
              (''session.resume'', Inr (JObj [(''session_id'', JStr ''live-bot''), (''resumed'',
                JBool True), (''message_count'', JNum (IntNum 4)), (''messages'', JArr [])]))])
      in (case open_bot_chat test_env gw ''jn-core'' 80 connected_core of
            Some (Inr key, w) \<Rightarrow>
              key = ''stored-bot'' \<and>
              length (calls_of ''session.list'' w) = 1 \<and>
              all_calls ''session.list'' ''title'' (JStr ''Bot Chat'') w \<and>
              all_calls ''session.list'' ''include_hidden'' (JBool True) w \<and>
              length (calls_of ''session.resume'' w) = 1 \<and>
              all_calls ''session.resume'' ''session_id'' (JStr ''stored-bot'') w \<and>
              length (calls_of ''session.create'' w) = 0 \<and>
              (case find (\<lambda>s. sm_key s = ''stored-bot'') (open_sessions text_serde w) of
                 None \<Rightarrow> False | Some s \<Rightarrow> sm_profile_name s = ''jn-core'')
          | _ \<Rightarrow> False))"

definition open_bot_chat_creates_with_profile_and_exact_title_when_absent :: bool where
  "open_bot_chat_creates_with_profile_and_exact_title_when_absent \<longleftrightarrow>
     (let gw = logging_gw (answering
             [(''session.list'', Inr (JObj [(''sessions'', JArr [])])),
              (''session.create'', Inr (JObj [(''session_id'', JStr ''live-new''),
                (''stored_session_id'', JStr ''stored-new''), (''message_count'', JNum (IntNum
                0))]))])
      in (case open_bot_chat test_env gw ''jn-worker'' 48 connected_core of
            Some (Inr key, w) \<Rightarrow>
              key = ''stored-new'' \<and>
              length (calls_of ''session.list'' w) = 1 \<and>
              length (calls_of ''session.resume'' w) = 0 \<and>
              length (calls_of ''session.create'' w) = 1 \<and>
              all_calls ''session.create'' ''profile'' (JStr ''jn-worker'') w \<and>
              all_calls ''session.create'' ''title'' (JStr ''Bot Chat'') w \<and>
              all_calls ''session.create'' ''cols'' (JNum (IntNum 48)) w \<and>
              (case find (\<lambda>s. sm_key s = ''stored-new'') (open_sessions text_serde w) of
                 None \<Rightarrow> False | Some s \<Rightarrow> sm_profile_name s = ''jn-worker'')
          | _ \<Rightarrow> False))"

text \<open>Each profile has its own database; no profile means the launch profile's.\<close>

definition profiles_handler :: fake_handler where
  "profiles_handler m p =
     (let profile = Option.bind (get_key p ''profile'') as_str
      in if m = ''session.list'' then
           (if profile = Some ''jn-core''
            then Inr (JObj [(''sessions'', JArr [JObj [(''id'', JStr ''stored-core''), (''title'',
              JStr ''Bot Chat''), (''message_count'', JNum (IntNum 2))]])])
            else if profile = Some ''jn-android''
            then Inr (JObj [(''sessions'', JArr [JObj [(''id'', JStr ''stored-android''),
              (''title'', JStr ''Bot Chat''), (''message_count'', JNum (IntNum 3))]])])
            else Inr (JObj [(''sessions'', JArr [])]))
         else if m = ''session.resume'' then
           (if profile = Some ''jn-core''
            then Inr (JObj [(''session_id'', JStr ''live-core''), (''resumed'', JBool True),
              (''message_count'', JNum (IntNum 2)), (''messages'', JArr [])])
            else if profile = Some ''jn-android''
            then Inr (JObj [(''session_id'', JStr ''live-android''), (''resumed'', JBool True),
              (''message_count'', JNum (IntNum 3)), (''messages'', JArr [])])
            else Inl (Coded 4004 ''no such session in the launch-profile db''))
         else if m = ''session.create'' then Inl (Coded 4009
           ''Bot Chat must be resumed, never created'')
         else Inr (JObj []))"

definition open_bot_chat_two_profiles_scope_list_and_resume_to_their_profile :: bool where
  "open_bot_chat_two_profiles_scope_list_and_resume_to_their_profile \<longleftrightarrow>
     (let gw = logging_gw profiles_handler
      in (case open_bot_chat test_env gw ''jn-core'' 80 connected_core of
            Some (Inr key_core, w1) \<Rightarrow>
              (case open_bot_chat test_env gw ''jn-android'' 80 w1 of
                 Some (Inr key_android, w) \<Rightarrow>
                   key_core = ''stored-core'' \<and> key_android = ''stored-android'' \<and> key_core \<noteq>
                     key_android \<and>
                   (case (calls_of ''session.list'' w, calls_of ''session.resume'' w, calls_of
                     ''session.create'' w) of
                      (listed, resumed, created) \<Rightarrow>
                        length listed = 2 \<and> length resumed = 2 \<and> length created = 0 \<and>
                        map (\<lambda>p. unwrap_or ''<absent>'' (Option.bind (get_key p ''profile'')
                          as_str)) listed =
                        [''jn-core'', ''jn-android''] \<and>
                        map (\<lambda>p. unwrap_or ''<absent>'' (Option.bind (get_key p ''profile'')
                          as_str)) resumed =
                        [''jn-core'', ''jn-android''])
               | _ \<Rightarrow> False)
          | _ \<Rightarrow> False))"

lemma core_bot_chat_tests_pass:
  "open_bot_chat_resumes_the_canonical_row_and_never_creates \<and>
   open_bot_chat_creates_with_profile_and_exact_title_when_absent"
  by code_simp

lemma open_bot_chat_two_profiles_scope_list_and_resume_to_their_profile_passes:
  "open_bot_chat_two_profiles_scope_list_and_resume_to_their_profile"
  by code_simp

section \<open>Clearing\<close>

lemma core_new_files: "disk (core_new env a fs) = fs"
  by (simp add: core_new_def)

lemma saved_empty:
  "fst (save_registry test_env registry_new Map.empty) = Inr ()"
  "sessions (reg (core_new test_env True (snd (save_registry test_env registry_new Map.empty)))) =
    []"
  by code_simp+

definition clear_sessions_wipes_registry_persists_and_spares_pairing_fields :: bool where
  "clear_sessions_wipes_registry_persists_and_spares_pairing_fields \<longleftrightarrow>
     (let dead = \<lparr>stored_id = ''dead-1'', last_seen_seq = 3, rec_epoch = ''e-1'', rec_cols = 80,
                  rec_title = ''old chat'', rec_profile = ''jn-core''\<rparr>;
          w0 = (core_new test_env True Map.empty)\<lparr>reg := registry_upsert dead registry_new\<rparr>
      in (case clear_sessions test_env w0 of
            Some (Inr _, w) \<Rightarrow>
              sessions (reg w) = [] \<and> chats w = Map.empty \<and> sid_index w = Map.empty \<and>
              sessions (reg (core_new test_env True (disk w))) = []
          | _ \<Rightarrow> False))"

lemma clear_sessions_wipes_registry_persists_and_spares_pairing_fields_passes:
  "clear_sessions_wipes_registry_persists_and_spares_pairing_fields"
  using saved_empty
  by (simp add: clear_sessions_wipes_registry_persists_and_spares_pairing_fields_def
    clear_sessions_def
      core_new_files registry_new_def split_def)

end
