(* ===== verification/Integration_Tests.thy ===== *)
theory Integration_Tests
  imports Url_Text Core_State "HOL-Library.Monad_Syntax" "HOL-Library.Code_Target_Nat"
begin

text \<open>
  The integration tests that neither open a socket nor read a recording, evaluated on the
  model: \<open>tests/qr_roundtrip.rs\<close> and \<open>tests/reducer_multisession.rs\<close>.
\<close>

section \<open>The payload of the QR script\<close>

definition script_payload_round_trips :: bool where
  "script_payload_round_trips \<longleftrightarrow>
     (case parse_qr_payload text_api
        ''hermes://connect?v=1&url=http%3A%2F%2F192.168.1.48%3A9123&user=hermo&name=hermo-lan'' of
        Inl _ \<Rightarrow> False
      | Inr ep \<Rightarrow> url_as_str text_api (base_url ep) = ''http://192.168.1.48:9123/'' \<and>
          ep_username ep = ''hermo'' \<and>
          ep_display_name ep = ''hermo-lan'')"

definition encoded_path_and_query_survive :: bool where
  "encoded_path_and_query_survive \<longleftrightarrow>
     (case parse_qr_payload text_api
        ''hermes://connect?v=1&url=http%3A%2F%2Fh.example%3A9123%2Fapi%3Fx%3D1&user=u&name=n'' of
        Inl _ \<Rightarrow> False
      | Inr ep \<Rightarrow> url_as_str text_api (base_url ep) = ''http://h.example:9123/api?x=1'')"

definition embedded_credentials_rejected :: bool where
  "embedded_credentials_rejected \<longleftrightarrow>
     (case parse_qr_payload text_api
        ''hermes://connect?v=1&url=http%3A%2F%2Fuser%3Apass%40h%3A9123&user=u&name=n'' of
        Inl _ \<Rightarrow> True
      | Inr _ \<Rightarrow> False)"

lemma qr_script_tests_pass:
  "script_payload_round_trips \<and>
   encoded_path_and_query_survive \<and>
   embedded_credentials_rejected"
  by code_simp

section \<open>Two reducers side by side\<close>

definition session_event :: "string \<Rightarrow> string \<Rightarrow> json \<Rightarrow> event_params" where
  "session_event sid ty payload =
     \<lparr>event_type = ty, ev_session_id = sid, ev_seq = None, ev_payload = payload\<rparr>"

text \<open>A reducer with the changes it has emitted so far: \<open>a_changes.extend(a.apply(..))\<close>.\<close>

type_synonym chat = "reducer \<times> session_change list"

definition extend_with :: "event_params \<Rightarrow> chat \<Rightarrow> chat panics" where
  "extend_with ev c =
     do { (r, changes) \<leftarrow> reducer_apply text_serde (fst c) ev; Some (r, snd c @ changes) }"

definition said :: "string \<Rightarrow> json" where
  "said text = JObj [(''text'', JStr text)]"

definition one_round :: "chat \<times> chat \<Rightarrow> (chat \<times> chat) panics" where
  "one_round ab =
     (let (a, b) = ab in
      do {
        a \<leftarrow> extend_with (session_event ''sess-A'' ''thinking.delta'' (said ''a'')) a;
        b \<leftarrow> extend_with (session_event ''sess-B'' ''message.start'' (JObj [])) b;
        a \<leftarrow> extend_with (session_event ''sess-A'' ''message.start'' (JObj [])) a;
        b \<leftarrow> extend_with (session_event ''sess-B'' ''message.delta'' (said ''b'')) b;
        a \<leftarrow> extend_with (session_event ''sess-A'' ''message.delta'' (said ''x'')) a;
        b \<leftarrow> extend_with (session_event ''sess-B'' ''message.complete'' (said ''B-reply'')) b;
        a \<leftarrow> extend_with (session_event ''sess-A'' ''message.complete'' (said ''A-reply'')) a;
        Some (a, b)
      })"

primrec rounds_of :: "nat \<Rightarrow> chat \<times> chat \<Rightarrow> (chat \<times> chat) panics" where
  "rounds_of 0 ab = Some ab"
| "rounds_of (Suc n) ab = do { ab \<leftarrow> one_round ab; rounds_of n ab }"

definition interleaved_sessions_route_every_change_to_its_own_key :: "bool panics" where
  "interleaved_sessions_route_every_change_to_its_own_key =
     do {
       (a, b) \<leftarrow> rounds_of 4 ((new_reducer, []), (new_reducer, []));
       Some (list_all (\<lambda>c. sc_key c = ''sess-A'') (snd a) \<and>
         list_all (\<lambda>c. sc_key c = ''sess-B'') (snd b) \<and>
         length (r_rows (fst a)) = 8 \<and>
         length (r_rows (fst b)) = 4 \<and>
         list_all (\<lambda>row. case kind row of
             Thinking text \<Rightarrow> text = ''a''
           | Assistant text _ _ _ \<Rightarrow> text = ''A-reply''
           | _ \<Rightarrow> False) (r_rows (fst a)) \<and>
         list_all (\<lambda>row. case kind row of
             Assistant text _ _ _ \<Rightarrow> text = ''B-reply''
           | _ \<Rightarrow> False) (r_rows (fst b)))
     }"

definition one_answer :: "string \<Rightarrow> string \<Rightarrow> reducer panics" where
  "one_answer sid text =
     do {
       c \<leftarrow> extend_with (session_event sid ''message.start'' (JObj [])) (new_reducer, []);
       c \<leftarrow> extend_with (session_event sid ''message.complete'' (said text)) c;
       Some (fst c)
     }"

definition reset_from_resume_on_one_session_leaves_the_other_untouched :: "bool panics" where
  "reset_from_resume_on_one_session_leaves_the_other_untouched =
     do {
       a \<leftarrow> one_answer ''sess-A'' ''A old'';
       b \<leftarrow> one_answer ''sess-B'' ''B old'';
       let (a, changes) = reset_from_resume a ''sess-A'';
       let wiped = (r_rows a = []);
       let (a, stray) = reset_from_resume a ''sess-other'';
       c \<leftarrow> extend_with (session_event ''sess-A'' ''message.start'' (JObj [])) (a, []);
       Some (length changes = 1 \<and>
         sc_key (changes ! 0) = ''sess-A'' \<and>
         (case sc_change (changes ! 0) of Reset \<Rightarrow> True | _ \<Rightarrow> False) \<and>
         wiped \<and>
         length (r_rows b) = 1 \<and>
         (case kind (r_rows b ! 0) of Assistant text _ _ _ \<Rightarrow> text = ''B old'' | _ \<Rightarrow> False) \<and>
         sc_key (stray ! 0) = ''sess-other'' \<and>
         length (r_rows (fst c)) = 1)
     }"

lemma two_reducers_tests_pass:
  "(interleaved_sessions_route_every_change_to_its_own_key = Some True) \<and>
   (reset_from_resume_on_one_session_leaves_the_other_untouched = Some True)"
  by code_simp

end
