(* ===== verification/Client_Scenarios.thy ===== *)
theory Client_Scenarios
  imports Json_Text Ws_Client "HOL-Library.Code_Target_Nat"
begin

text \<open>
  The integration tests of the WebSocket client, \<open>tests/client_fake_server.rs\<close>, as runs of the
  client's sections: what the test's server sends is what the reader gets, a call is issued
  and its line written, time passes. The frames of a test have short names for texts.
\<close>

section \<open>The harness\<close>

definition client_config_for_tests :: client_config where
  "client_config_for_tests =
     \<lparr>cfg_ping_interval = 100, cfg_deadline = 300, cfg_call_timeout = 5000,
      cfg_probe_timeout = 1000, cfg_ready_timeout = 2000\<rparr>"

definition named_frames :: "(string \<times> json) list \<Rightarrow> serde" where
  "named_frames frames =
     \<lparr>to_string = (\<lambda>v. Some (json_print v)), from_str = map_of frames,
      parse_error = (\<lambda>_. ''''), num_to_string = (\<lambda>_. '''')\<rparr>"

definition wire_frame :: "(string \<times> json) list \<Rightarrow> json" where
  "wire_frame params =
     JObj [(''jsonrpc'', JStr ''2.0''), (''method'', JStr ''event''), (''params'', JObj params)]"

definition result_frame :: "string \<Rightarrow> json \<Rightarrow> json" where
  "result_frame i v = JObj [(''jsonrpc'', JStr ''2.0''), (''id'', JStr i), (''result'', v)]"

definition server_ready :: json where
  "server_ready =
     wire_frame [(''type'', JStr ''gateway.ready''),
       (''payload'', JObj [(''heartbeat'', JBool True), (''replay_epoch'', JStr ''e-fake''),
          (''skin'', JObj [(''theme'', JStr ''dark'')]), (''change_events'', JBool True)])]"

definition delta_frame :: "string \<Rightarrow> int \<Rightarrow> (string \<times> json) list \<Rightarrow> json" where
  "delta_frame sid n payload =
     wire_frame [(''type'', JStr ''message.delta''), (''session_id'', JStr sid), (''seq'', JNum (IntNum n)),
       (''payload'', JObj payload)]"

definition server_push :: "serde \<Rightarrow> string \<Rightarrow> ws \<Rightarrow> ws" where
  "server_push sj name = reader_step sj 10 (Msg_Text name)"

text \<open>\<open>GatewayClient::connect\<close> against a server that greets.\<close>

definition connect_with :: "serde \<Rightarrow> client_config \<Rightarrow> ws" where
  "connect_with sj cfg = connect_poll 0 (server_push sj ''ready'' (ws_connecting cfg 0))"

text \<open>\<open>call\<close> up to its await, and the writer's round for its line.\<close>

definition issue_call :: "serde \<Rightarrow> string \<Rightarrow> json \<Rightarrow> ws \<Rightarrow> (client_error + string) \<times> ws" where
  "issue_call sj meth params s =
     (case call_check s of
        Some e \<Rightarrow> (Inl e, s)
      | None \<Rightarrow> (case call_issue sj meth params s of (r, s') \<Rightarrow> (r, writer_step True s')))"

section \<open>Connecting and calling\<close>

definition connect_resolves_after_gateway_ready :: bool where
  "connect_resolves_after_gateway_ready \<longleftrightarrow>
     (let client = connect_with (named_frames [(''ready'', server_ready)]) client_config_for_tests
      in ws_conn client = State_Open \<and> ws_replay_epoch client = ''e-fake'')"

definition request_response_matching :: bool where
  "request_response_matching \<longleftrightarrow>
     (let sj = named_frames [(''ready'', server_ready),
            (''create'', result_frame ''r1'' (JObj [(''session_id'', JStr ''s-live''), (''stored_session_id'', JStr ''s-store'')])),
            (''list'', result_frame ''r2'' (JObj [(''sessions'', JArr [])]))]
      in case issue_call sj ''session.create'' (JObj [(''cols'', JNum (IntNum 48))]) (connect_with sj client_config_for_tests) of
           (Inr i1, s1) \<Rightarrow>
             (case issue_call sj ''session.list'' (JObj [(''limit'', JNum (IntNum 5))]) s1 of
                (Inr i2, s2) \<Rightarrow>
                  (let s3 = server_push sj ''create'' (server_push sj ''list'' s2)
                   in length (ws_wire s2) = 2 \<and> i1 = ''r1'' \<and> i2 = ''r2'' \<and> i1 \<noteq> i2 \<and>
                      (case ws_answers s3 i1 of
                         Some (Inr created) \<Rightarrow>
                           str_at created ''session_id'' = ''s-live'' \<and>
                           str_at created ''stored_session_id'' = ''s-store'' \<and> get_key created ''sessions'' = None
                       | _ \<Rightarrow> False) \<and>
                      (case ws_answers s3 i2 of
                         Some (Inr listed) \<Rightarrow> Option.bind (get_key listed ''sessions'') as_array \<noteq> None
                       | _ \<Rightarrow> False))
              | _ \<Rightarrow> False)
         | _ \<Rightarrow> False)"

definition rpc_error_maps_to_typed_error :: bool where
  "rpc_error_maps_to_typed_error \<longleftrightarrow>
     (let sj = named_frames [(''ready'', server_ready),
            (''busy'', JObj [(''jsonrpc'', JStr ''2.0''), (''id'', JStr ''r1''),
               (''error'', JObj [(''code'', JNum (IntNum 4009)), (''message'', JStr ''session busy''), (''data'', JNull)])])]
      in case issue_call sj ''prompt.submit'' (JObj [(''session_id'', JStr ''s''), (''text'', JStr ''x'')])
              (connect_with sj client_config_for_tests) of
           (Inr i, s1) \<Rightarrow>
             ws_answers (server_push sj ''busy'' s1) i = Some (Inl (ClientError_Rpc 4009 ''session busy''))
         | _ \<Rightarrow> False)"

definition late_response_leaves_client_usable :: bool where
  "late_response_leaves_client_usable \<longleftrightarrow>
     (let sj = named_frames [(''ready'', server_ready),
            (''late'', result_frame ''r1'' (JObj [(''sessions'', JArr [])])),
            (''second'', result_frame ''r2'' (JObj [(''sessions'', JArr [JObj [(''id'', JStr ''a'')]])]))];
          cfg = client_config_for_tests\<lparr>cfg_call_timeout := 200\<rparr>
      in case issue_call sj ''session.list'' (JObj [(''limit'', JNum (IntNum 1))]) (connect_with sj cfg) of
           (Inr slow, s1) \<Rightarrow>
             (let s2 = call_timeout slow (cfg_call_timeout cfg) s1; s3 = server_push sj ''late'' s2
              in ws_answers s2 slow = Some (Inl (ClientError_Timeout 200)) \<and>
                 (case issue_call sj ''session.list'' (JObj [(''limit'', JNum (IntNum 2))]) s3 of
                    (Inr i2, s4) \<Rightarrow>
                      (let s5 = server_push sj ''second'' s4
                       in i2 \<noteq> slow \<and> ws_conn s5 = State_Open \<and>
                          (case ws_answers s5 i2 of
                             Some (Inr v) \<Rightarrow>
                               (case Option.bind (get_key v ''sessions'') as_array of
                                  Some [x] \<Rightarrow> str_at x ''id'' = ''a''
                                | _ \<Rightarrow> False)
                           | _ \<Rightarrow> False))
                  | _ \<Rightarrow> False))
         | _ \<Rightarrow> False)"

definition probe_now_times_out_on_probe_timeout :: bool where
  "probe_now_times_out_on_probe_timeout \<longleftrightarrow>
     (let sj = named_frames [(''ready'', server_ready)];
          cfg = client_config_for_tests\<lparr>cfg_ping_interval := 0, cfg_probe_timeout := 200\<rparr>
      in case issue_call sj ''gateway.ping'' JNull (connect_with sj cfg) of
           (Inr i, s1) \<Rightarrow>
             ws_heartbeat s1 = None \<and>
             ws_answers (call_timeout i (cfg_probe_timeout cfg) s1) i = Some (Inl (ClientError_Timeout 200))
         | _ \<Rightarrow> False)"

section \<open>Events\<close>

definition event_fanout_to_subscriber :: bool where
  "event_fanout_to_subscriber \<longleftrightarrow>
     (let sj = named_frames [(''ready'', server_ready), (''e41'', delta_frame ''s1'' 41 [(''text'', JStr ''Hel'')]),
            (''e42'', delta_frame ''s1'' 42 [(''text'', JStr ''lo'')]),
            (''pong'', result_frame ''r1'' (JObj [(''ok'', JBool True)]))]
      in case subscribe (connect_with sj client_config_for_tests) of
           (sub1, s1) \<Rightarrow>
             (case subscribe s1 of
                (sub2, s2) \<Rightarrow>
                  (case issue_call sj ''gateway.ping'' JNull s2 of
                     (Inr i, s3) \<Rightarrow>
                       (let s4 = server_push sj ''pong'' (server_push sj ''e42'' (server_push sj ''e41'' s3))
                        in ws_answers s4 i \<noteq> None \<and>
                           broadcast_recv s4 sub1 = broadcast_recv s4 sub2 \<and>
                           (case broadcast_recv s4 sub1 of
                              (Recv_Event e1, next) \<Rightarrow>
                                ev_seq e1 = Some 41 \<and>
                                (case broadcast_recv s4 next of
                                   (Recv_Event e2, end2) \<Rightarrow>
                                     ev_seq e2 = Some 42 \<and> fst (broadcast_recv s4 end2) = Recv_Wait
                                 | _ \<Rightarrow> False)
                            | _ \<Rightarrow> False) \<and>
                           last_seq ''s1'' s4 = 42 \<and> last_seq ''s-other'' s4 = 0)
                   | _ \<Rightarrow> False)))"

definition seq_watermarks_track_max_per_session :: bool where
  "seq_watermarks_track_max_per_session \<longleftrightarrow>
     (let sj = named_frames [(''ready'', server_ready), (''e5'', delta_frame ''sx'' 5 []),
            (''e2'', delta_frame ''sx'' 2 []), (''e9'', delta_frame ''sx'' 9 [])]
      in case subscribe (connect_with sj client_config_for_tests) of
           (sub, s1) \<Rightarrow>
             (let s2 = server_push sj ''e9'' (server_push sj ''e2'' (server_push sj ''e5'' s1)); s3 = server_push sj ''e2'' s2
              in length (ws_published s2) = sub + 3 \<and> last_seq ''sx'' s2 = 9 \<and>
                 length (ws_published s3) = sub + 4 \<and> last_seq ''sx'' s3 = 9))"

definition slow_rpc_does_not_block_events :: bool where
  "slow_rpc_does_not_block_events \<longleftrightarrow>
     (let sj = named_frames [(''ready'', server_ready),
            (''status'', wire_frame [(''type'', JStr ''status.update''), (''session_id'', JStr ''s''),
               (''payload'', JObj [(''kind'', JStr ''status''), (''text'', JStr ''thinking'')])]),
            (''reply'', result_frame ''r1'' (JObj [(''status'', JStr ''streaming'')]))]
      in case subscribe (connect_with sj client_config_for_tests) of
           (sub, s1) \<Rightarrow>
             (case issue_call sj ''prompt.submit'' (JObj [(''session_id'', JStr ''s''), (''text'', JStr ''long turn'')]) s1 of
                (Inr i, s2) \<Rightarrow>
                  (let s3 = server_push sj ''status'' s2; s4 = server_push sj ''reply'' s3
                   in i \<in> ws_pending s3 \<and>
                      (case fst (broadcast_recv s3 sub) of
                         Recv_Event p \<Rightarrow> event_type p = ''status.update''
                       | _ \<Rightarrow> False) \<and>
                      ws_answers s4 i \<noteq> None)
              | _ \<Rightarrow> False))"

definition late_subscriber_sees_ready_era_frames_and_skin :: bool where
  "late_subscriber_sees_ready_era_frames_and_skin \<longleftrightarrow>
     (let sj = named_frames [(''ready'', server_ready),
            (''info'', wire_frame [(''type'', JStr ''session.info''), (''session_id'', JStr ''s9''),
               (''payload'', JObj [(''model'', JStr ''m'')])])];
          client = server_push sj ''info'' (connect_with sj client_config_for_tests)
      in case subscribe client of
           (sub, s1) \<Rightarrow>
             (case fst (broadcast_recv s1 sub) of
                Recv_Event p \<Rightarrow> event_type p = ''session.info'' \<and> ev_session_id p = ''s9''
              | _ \<Rightarrow> False) \<and>
             str_at (ws_skin s1) ''theme'' = ''dark'' \<and> ws_replay_epoch s1 = ''e-fake'')"

section \<open>The end of a connection\<close>

definition heartbeat_timeout_with_shortened_deadline :: bool where
  "heartbeat_timeout_with_shortened_deadline \<longleftrightarrow>
     (let sj = named_frames [(''ready'', server_ready)];
          s = connect_with sj client_config_for_tests;
          rounds = fold (heartbeat_tick sj) [110, 210, 310] s
      in ws_conn (fold (heartbeat_tick sj) [110, 210] s) = State_Open \<and>
         ws_conn rounds = State_Closed ''heartbeat timeout'')"

definition ungraceful_death_is_one_sticky_reason :: bool where
  "ungraceful_death_is_one_sticky_reason \<longleftrightarrow>
     (let sj = named_frames [(''ready'', server_ready)];
          dead = reader_step sj 20 Msg_Eof (connect_with sj client_config_for_tests);
          closed = shutdown ''user logout'' dead
      in ws_conn dead = State_Closed ungraceful_close_reason \<and>
         ws_conn closed = State_Closed ungraceful_close_reason \<and>
         fst (issue_call sj ''gateway.ping'' JNull closed) = Inl (ClientError_Closed ungraceful_close_reason))"

text \<open>Either the reader sees the end first, or the writer's send of the call fails.\<close>

definition writer_send_failure_fails_closed_ungracefully :: bool where
  "writer_send_failure_fails_closed_ungracefully \<longleftrightarrow>
     (let sj = named_frames [(''ready'', server_ready)];
          s = connect_with sj client_config_for_tests;
          dead = reader_step sj 20 Msg_Eof s
      in fst (issue_call sj ''session.list'' JNull dead) = Inl (ClientError_Closed ungraceful_close_reason) \<and>
         ws_conn dead = State_Closed ungraceful_close_reason \<and>
         (case call_issue sj ''session.list'' JNull s of
            (Inr i, s1) \<Rightarrow>
              ws_answers (writer_step False s1) i = Some (Inl (ClientError_Closed ungraceful_close_reason)) \<and>
              ws_conn (writer_step False s1) = State_Closed ungraceful_close_reason
          | _ \<Rightarrow> False))"

definition server_close_frame_keeps_server_reason :: bool where
  "server_close_frame_keeps_server_reason \<longleftrightarrow>
     (let sj = named_frames [(''ready'', server_ready)]
      in ws_conn (reader_step sj 20 (Msg_Close (Some (1000, ''server says bye''))) (connect_with sj client_config_for_tests)) =
         State_Closed ''server says bye'')"

definition server_close_codes_without_reason_stay_distinct :: bool where
  "server_close_codes_without_reason_stay_distinct \<longleftrightarrow>
     (let sj = named_frames [(''ready'', server_ready)];
          closed = (\<lambda>code. ws_conn (reader_step sj 20 (Msg_Close (Some (code, ''''))) (connect_with sj client_config_for_tests)))
      in closed 4401 = State_Closed ''closed by server (code 4401)'' \<and>
         closed 4403 = State_Closed ''closed by server (code 4403)'')"

definition call_after_close_fails_fast :: bool where
  "call_after_close_fails_fast \<longleftrightarrow>
     (let sj = named_frames [(''ready'', server_ready)]
      in fst (issue_call sj ''gateway.ping'' JNull (shutdown ''test close'' (connect_with sj client_config_for_tests))) =
         Inl (ClientError_Closed ''test close''))"

definition local_close_reason_survives_server_close_echo :: bool where
  "local_close_reason_survives_server_close_echo \<longleftrightarrow>
     (let sj = named_frames [(''ready'', server_ready)];
          closing = writer_step True (shutdown ''test close'' (connect_with sj client_config_for_tests))
      in ws_conn (reader_step sj 20 (Msg_Close (Some (1000, ''''))) closing) = State_Closed ''test close'')"

lemma client_scenarios_pass:
  "connect_resolves_after_gateway_ready \<and>
   request_response_matching \<and>
   rpc_error_maps_to_typed_error \<and>
   late_response_leaves_client_usable \<and>
   probe_now_times_out_on_probe_timeout \<and>
   event_fanout_to_subscriber \<and>
   seq_watermarks_track_max_per_session \<and>
   slow_rpc_does_not_block_events \<and>
   late_subscriber_sees_ready_era_frames_and_skin"
  by code_simp

lemma connection_end_scenarios_pass:
  "heartbeat_timeout_with_shortened_deadline \<and>
   ungraceful_death_is_one_sticky_reason \<and>
   writer_send_failure_fails_closed_ungracefully \<and>
   server_close_frame_keeps_server_reason \<and>
   server_close_codes_without_reason_stay_distinct \<and>
   call_after_close_fails_fast \<and>
   local_close_reason_survives_server_close_echo"
  by code_simp

end
