(* ===== verification/End_To_End.thy ===== *)
theory End_To_End
  imports Gateway_Recovery
begin

text \<open>
  From a prompt to the answer on the screen: the gateway (\<open>server.rs\<close>) accepts a prompt and
  streams the recorded turn, the connection carries it, the WebSocket client
  (\<open>rpc/client.rs\<close>) settles the call and publishes the events, and the core (\<open>core.rs\<close>)
  delivers them to the tab, whose rows the app mirrors.
\<close>

section \<open>A turn on its connection\<close>

text \<open>What leaves the connection \<open>c\<close> and the sessions alone.\<close>

fun spares_conn :: "nat \<Rightarrow> gw_section \<Rightarrow> bool" where
  "spares_conn c (Sec_Send c' _) = (c' \<noteq> c)"
| "spares_conn c (Sec_Pump _ c') = (c' \<noteq> c)"
| "spares_conn c (Sec_Gone c') = (c' \<noteq> c)"
| "spares_conn c (Sec_Delay _ _) = True"
| "spares_conn c Sec_Mint = True"
| "spares_conn c (Sec_Take _) = True"
| "spares_conn c Sec_Failure = True"
| "spares_conn c (Sec_Open _) = True"
| "spares_conn c _ = False"

lemma spares_wire: "spares_conn c s \<Longrightarrow> wire_section s"
  by (cases s) simp_all

lemma gw_send_other: "c' \<noteq> c \<Longrightarrow> gw_conns (gw_send c' v g) c = gw_conns g c"
  by (simp add: gw_send_def split: option.split)

lemma spares_conn_keeps:
  assumes "spares_conn c s" and "c < gw_next_conn g"
  shows "gw_conns (gw_sec s g) c = gw_conns g c"
  using assms
  by (cases s; simp add: gw_send_other delay_frame_def gw_mint_ticket_def take_ticket_def
      take_profile_failure_def drop_conn_def Let_def)
    (simp_all add: ws_open_def ws_pump_def sink_send_other Let_def split: option.split list.split)

lemma gw_sec_next_conn: "gw_next_conn g \<le> gw_next_conn (gw_sec s g)"
  using section_conns [of g s] by (simp add: conns_grow_def)

lemma turn_step_conf: "gw_conf (turn_step t g) = gw_conf g"
  by (simp add: turn_step_def next_seq_and_record_def frame_simps Let_def split: option.split list.split prod.split)

lemma sink_send_conf [simp]: "gw_conf (sink_send ok c cn v g) = gw_conf g"
  by (simp add: sink_send_def should_drop_def drop_conn_def Let_def split: option.split)

lemma wire_section_conf: "wire_section s \<Longrightarrow> gw_conf (gw_sec s g) = gw_conf g"
  by (cases s; simp add: delay_frame_def delayed_step_def gw_mint_ticket_def take_ticket_def gw_send_def
      take_profile_failure_def ws_open_def ws_pump_def drop_conn_def Let_def split: option.split list.split prod.split)

text \<open>
  The turn \<open>t\<close> after \<open>j\<close> of its frames: the rest is still to come, the session has counted
  them, and the connection has been sent them in order after what it had before.
\<close>

definition turn_at :: "nat \<Rightarrow> nat \<Rightarrow> string \<Rightarrow> int \<Rightarrow> json list \<Rightarrow> json list \<Rightarrow> nat \<Rightarrow> gateway \<Rightarrow> bool" where
  "turn_at t c sid n fs base j g \<longleftrightarrow>
     (\<forall>k. gw_turns g t = Some k \<longrightarrow> gt_sid k = sid \<and> gt_out k = c) \<and> turn_rest t g = drop j fs \<and>
     j \<le> length fs \<and> (\<exists>r. gw_lookup g sid = Some r \<and> gs_seq r = n + int j) \<and>
     (\<exists>cn. gw_conns g c = Some cn \<and> conn_trace cn = base @ sent_frames sid n (take j fs)) \<and>
     c < gw_next_conn g \<and> gc_drop_after (gw_conf g) = None"

lemma turn_at_step:
  assumes "turn_at t c sid n fs base j g"
  shows "turn_at t c sid n fs base (min (Suc j) (length fs)) (turn_step t g)"
proof -
  from assms obtain r cn where a: "gw_lookup g sid = Some r" "gs_seq r = n + int j"
    "gw_conns g c = Some cn" "conn_trace cn = base @ sent_frames sid n (take j fs)"
    and k: "\<forall>k. gw_turns g t = Some k \<longrightarrow> gt_sid k = sid \<and> gt_out k = c"
    and d: "turn_rest t g = drop j fs" "j \<le> length fs" "c < gw_next_conn g" "gc_drop_after (gw_conf g) = None"
    unfolding turn_at_def by blast
  have next_conn: "gw_next_conn (turn_step t g) = gw_next_conn g"
    using turn_step_conns [of g t] by (auto simp: turn_step_def next_seq_and_record_def frame_simps
        split: option.split list.split prod.split)
  show ?thesis
  proof (cases "drop j fs")
    case Nil
    then have j: "j = length fs" using d(2) by simp
    show ?thesis
    proof (cases "gw_turns g t")
      case None
      then have "turn_step t g = g" by (simp add: turn_step_def)
      with assms j show ?thesis by simp
    next
      case (Some task)
      with d(1) Nil have "gt_frames task = []" by (simp add: turn_rest_def)
      with Some k have "turn_step t g =
          modify_session sid (\<lambda>r. r\<lparr>gs_running := False, gs_turn := None\<rparr>) (g\<lparr>gw_turns := (gw_turns g)(t := None)\<rparr>)"
        by (simp add: turn_step_def)
      with a d j show ?thesis
        by (simp add: turn_at_def turn_rest_def lookup_modify_session frame_simps modify_session_conns)
    qed
  next
    case (Cons f rest)
    then have lt: "j < length fs" and f: "f = fs ! j" "rest = drop (Suc j) fs"
      by (metis Cons drop_all leI list.distinct(1), metis Cons nth_via_drop, metis Cons drop_Suc list.sel(3) tl_drop)
    from d(1) Cons obtain task where task: "gw_turns g t = Some task" "gt_frames task = f # rest"
      by (auto simp: turn_rest_def split: option.splits)
    then have "gw_turns g t = Some \<lparr>gt_sid = sid, gt_frames = f # rest, gt_out = c\<rparr>"
      using k by (cases task) simp
    note s = turn_step_frame [OF this a(1,3)]
    have "take (Suc j) fs = take j fs @ [f]" using lt f(1) by (simp add: take_Suc_conv_app_nth)
    moreover have "length (take j fs) = j" using lt by simp
    ultimately have sent: "sent_frames sid n (take (Suc j) fs) =
        sent_frames sid n (take j fs) @ [rewrite_frame f sid (gs_seq r + 1)]"
      by (simp add: sent_frames_append a(2) del: length_take)
    show ?thesis
      using s a lt f(2) d(3,4) sent next_conn
      by (simp add: turn_at_def turn_rest_def conn_trace_def turn_step_conf min_absorb1)
  qed
qed

lemma pump_conn:
  assumes "gw_conns g c = Some cn" and "gc_drop_after (gw_conf g) = None"
  shows "\<exists>cn'. gw_conns (ws_pump True c g) c = Some cn' \<and> conn_trace cn' = conn_trace cn \<and>
     length (gn_queue cn') = length (gn_queue cn) - 1"
  using assms
  by (cases "gn_queue cn") (auto simp: ws_pump_def sink_send_def should_drop_def conn_trace_def Let_def)

lemma turn_at_other:
  assumes "turn_at t c sid n fs base j g" and "s = Sec_Pump True c \<or> spares_conn c s"
  shows "turn_at t c sid n fs base j (gw_sec s g)"
proof -
  from assms obtain cn where cn: "gw_conns g c = Some cn" "conn_trace cn = base @ sent_frames sid n (take j fs)"
    and c: "c < gw_next_conn g" "gc_drop_after (gw_conf g) = None" unfolding turn_at_def by blast
  have w: "wire_section s" using assms(2) spares_wire by auto
  have "\<exists>cn'. gw_conns (gw_sec s g) c = Some cn' \<and> conn_trace cn' = conn_trace cn"
    using assms(2) pump_conn [OF cn(1) c(2)] spares_conn_keeps [OF _ c(1)] cn(1) by auto
  moreover have "gc_drop_after (gw_conf (gw_sec s g)) = None" using c(2) wire_section_conf [OF w] by simp
  ultimately show ?thesis
    using assms(1) cn wire_section_keeps [OF w] gw_sec_next_conn [of g s]
    by (auto simp: turn_at_def turn_rest_def intro: order.strict_trans2)
qed

lemma turn_at_run:
  assumes "\<forall>s \<in> set secs. s = Sec_Turn t \<or> s = Sec_Pump True c \<or> spares_conn c s"
    and "turn_at t c sid n fs base j g"
  shows "turn_at t c sid n fs base (min (j + steps_of t secs) (length fs)) (gw_run secs g)"
  using assms
proof (induction secs arbitrary: j g)
  case Nil
  then show ?case by (simp add: steps_of_def turn_at_def min_absorb1)
next
  case (Cons s ss)
  show ?case
  proof (cases "s = Sec_Turn t")
    case True
    from Cons.IH [OF _ turn_at_step [OF Cons.prems(2)]] Cons.prems(1)
    have "turn_at t c sid n fs base (min (min (Suc j) (length fs) + steps_of t ss) (length fs)) (gw_run ss (turn_step t g))"
      by simp
    moreover have "min (min (Suc j) (length fs) + steps_of t ss) (length fs) =
        min (j + steps_of t (s # ss)) (length fs)"
      using True by (simp add: steps_of_def min_def)
    ultimately show ?thesis using True by simp
  next
    case False
    with Cons.prems(1) have "s = Sec_Pump True c \<or> spares_conn c s" by auto
    from Cons.IH [OF _ turn_at_other [OF Cons.prems(2) this]] Cons.prems(1) False show ?thesis
      by (simp add: steps_of_def)
  qed
qed

text \<open>As many rounds of the connection's task as there are frames in the queue put them all on the wire.\<close>

lemma pumps_drain:
  assumes "gw_conns g c = Some cn" and "gc_drop_after (gw_conf g) = None" and "length (gn_queue cn) \<le> k"
  shows "\<exists>cn'. gw_conns (gw_run (replicate k (Sec_Pump True c)) g) c = Some cn' \<and>
     gn_wire cn' = conn_trace cn \<and> gn_queue cn' = []"
  using assms
proof (induction k arbitrary: g cn)
  case 0
  then show ?case by (simp add: conn_trace_def)
next
  case (Suc k)
  from pump_conn [OF Suc.prems(1,2)] obtain cn1 where cn1: "gw_conns (ws_pump True c g) c = Some cn1"
    "conn_trace cn1 = conn_trace cn" "length (gn_queue cn1) = length (gn_queue cn) - 1" by blast
  have "gc_drop_after (gw_conf (ws_pump True c g)) = None"
    using wire_section_conf [of "Sec_Pump True c" g] Suc.prems(2) by simp
  from Suc.IH [OF cn1(1) this] cn1(2,3) Suc.prems(3) show ?case by simp
qed

lemma length_sent_frames [simp]: "length (sent_frames sid n fs) = length fs"
  by (induction fs arbitrary: n) simp_all

text \<open>The reply to the prompt and the whole turn arrive on the wire.\<close>

definition streaming_reply :: "string \<Rightarrow> json" where
  "streaming_reply i = JObj [(''jsonrpc'', JStr ''2.0''), (''id'', JStr i),
     (''result'', JObj [(''status'', JStr ''streaming'')])]"

lemma turn_on_wire:
  assumes "gw_lookup g sid = Some r" and "\<not> gs_running r" and "gw_conns g c = Some cn" and "gn_queue cn = []"
    and "c < gw_next_conn g" and "gc_drop_after (gw_conf g) = None"
    and "fs = turn (gw_fixtures g) (select_kind prompt)"
    and "\<forall>s \<in> set secs. s = Sec_Turn (gw_next_turn g) \<or> s = Sec_Pump True c \<or> spares_conn c s"
    and "length fs \<le> steps_of (gw_next_turn g) secs"
    and "g' = gw_run (secs @ replicate (Suc (length fs)) (Sec_Pump True c))
                (handle_prompt_submit now c (JStr i) (JObj [(''session_id'', JStr sid), (''text'', JStr prompt)]) g)"
  shows "\<exists>cn'. gw_conns g' c = Some cn' \<and> gn_queue cn' = [] \<and>
     gn_wire cn' = gn_wire cn @ streaming_reply i # sent_frames sid (gs_seq r) fs"
proof -
  define g1 where "g1 = handle_prompt_submit now c (JStr i) (JObj [(''session_id'', JStr sid), (''text'', JStr prompt)]) g"
  define g2 where "g2 = gw_run secs g1"
  define base where "base = gn_wire cn @ [streaming_reply i]"
  have t: "gw_turns g1 (gw_next_turn g) = Some \<lparr>gt_sid = sid, gt_frames = fs, gt_out = c\<rparr>"
    and l: "gw_lookup g1 sid = Some (r\<lparr>gs_running := True, gs_turn := Some (gw_next_turn g)\<rparr>)"
    and f: "gw_conf g1 = gw_conf g" "gw_next_conn g1 = gw_next_conn g"
      "gw_conns g1 c = Some (cn\<lparr>gn_queue := [streaming_reply i]\<rparr>)"
    using assms(1-4,7)
    by (simp_all add: g1_def streaming_reply_def handle_prompt_submit_def claim_session_def entry_session_def
        modify_session_def reply_ok_def gw_send_def spawn_turn_def register_turn_def Let_def)
  have "turn_at (gw_next_turn g) c sid (gs_seq r) fs base 0 g1"
    using t l f assms(5,6) by (simp add: turn_at_def turn_rest_def conn_trace_def base_def)
  from turn_at_run [OF assms(8) this] assms(9)
  have "turn_at (gw_next_turn g) c sid (gs_seq r) fs base (length fs) g2" by (simp add: g2_def min_absorb2)
  then obtain cn2 where cn2: "gw_conns g2 c = Some cn2"
    "conn_trace cn2 = base @ sent_frames sid (gs_seq r) fs" "gc_drop_after (gw_conf g2) = None"
    by (auto simp: turn_at_def)
  have "gw_conns g1 c = Some (cn\<lparr>gn_queue := [streaming_reply i]\<rparr>)" by (rule f(3))
  with run_conns [of g1 secs] cn2(1) f(2) assms(5) have "prefix (gn_wire cn) (gn_wire cn2)"
    by (fastforce simp: conns_grow_def conn_grows_def g2_def)
  then obtain u where "gn_wire cn2 = gn_wire cn @ u" by (auto simp: prefix_def)
  with cn2(2) have "length (gn_queue cn2) \<le> Suc (length fs)"
    by (auto simp: conn_trace_def base_def dest!: arg_cong [of _ _ length])
  from pumps_drain [OF cn2(1,3) this] cn2(2) show ?thesis
    by (auto simp: assms(10) g1_def [symmetric] g2_def gw_run_def base_def)
qed

section \<open>What the client makes of it\<close>

definition frame_events :: "string \<Rightarrow> int \<Rightarrow> json list \<Rightarrow> event_params list" where
  "frame_events sid n fs = map (decode_replayed sid) (logged_events n fs)"

lemma frame_events_simps [simp]:
  "frame_events sid n [] = []"
  "frame_events sid n (f # fs) = decode_replayed sid (logged_event f (n + 1)) # frame_events sid (n + 1) fs"
  by (simp_all add: frame_events_def)

lemma length_frame_events [simp]: "length (frame_events sid n fs) = length fs"
  by (simp add: frame_events_def)

lemma frame_events_append:
  "frame_events sid n (xs @ ys) = frame_events sid n xs @ frame_events sid (n + int (length xs)) ys"
  by (simp add: frame_events_def logged_events_append)

lemma frame_event:
  assumes "is_i64 n"
  shows "ev_session_id (decode_replayed sid (logged_event f n)) = sid"
    "ev_seq (decode_replayed sid (logged_event f n)) = Some n"
    "event_type (decode_replayed sid (logged_event f n)) = unwrap_or '''' (frame_type f)"
    "ev_payload (decode_replayed sid (logged_event f n)) = frame_payload f"
  using assms
  by (simp_all add: decode_replayed_def replay_params_def replayed_from_value_def event_json_def
      logged_event_def i64_at_def as_i64_def)

lemma sent_frames_decode:
  assumes "\<forall>f \<in> set fs. event_shaped f" and "i64_min \<le> n" and "n + int (length fs) \<le> i64_max"
  shows "map (decode_value sj) (sent_frames sid n fs) = map Decoded_Event (frame_events sid n fs)"
  using assms
proof (induction fs arbitrary: n)
  case (Cons f fs)
  then have "is_i64 (n + 1)" by simp
  with Cons.prems(1) have "decode_value sj (rewrite_frame f sid (n + 1)) =
      Decoded_Event (decode_replayed sid (logged_event f (n + 1)))" by (intro live_is_replayed) simp_all
  with Cons show ?case by simp
qed simp

lemma client_events_decoded:
  "map (decode_value sj) vs = map Decoded_Event evs \<Longrightarrow> client_events sj vs = evs"
proof (induction vs arbitrary: evs)
  case (Cons v vs)
  then show ?case by (cases evs) (auto simp: client_events_def)
qed (simp add: client_events_def)

lemma read_wire_line:
  assumes "wire_ok sj v"
  shows "read_wire sj now (v # vs) s =
    read_wire sj now vs (case decode_value sj v of
        Decoded_Result i x \<Rightarrow> settle i (Inr x) (s\<lparr>ws_last_inbound := now\<rparr>)
      | Decoded_Error i e \<Rightarrow> settle i (Inl (ClientError_Rpc (err_code e) (err_message e))) (s\<lparr>ws_last_inbound := now\<rparr>)
      | Decoded_Event ev \<Rightarrow> (record_seq ev (s\<lparr>ws_last_inbound := now\<rparr>))\<lparr>ws_published := ws_published s @ [ev]\<rparr>
      | Decoded_Ignored \<Rightarrow> s\<lparr>ws_last_inbound := now\<rparr>)"
proof -
  have line: "split_lines (to_compact_string sj v) = [to_compact_string sj v]"
    using assms by (intro split_lines_single) (simp_all add: wire_ok_def Let_def)
  have dec: "decode sj (to_compact_string sj v) = Some (decode_value sj v)"
    using assms by (simp add: wire_ok_def decode_def Let_def)
  show ?thesis
    by (cases "decode_value sj v") (simp_all add: read_wire_def line read_line_def dec)
qed

lemma read_events_answers:
  "\<forall>v \<in> set vs. wire_ok sj v \<and> (\<exists>ev. decode_value sj v = Decoded_Event ev) \<Longrightarrow>
   ws_answers (read_wire sj now vs s) = ws_answers s"
proof (induction vs arbitrary: s)
  case (Cons v vs)
  then obtain ev where "decode_value sj v = Decoded_Event ev" "wire_ok sj v" by auto
  with Cons show ?case by (simp add: read_wire_line)
qed (simp add: read_wire_def)

text \<open>The reply settles the call, the frames are published, in order.\<close>

lemma turn_read:
  assumes "\<forall>f \<in> set fs. event_shaped f" and "i64_min \<le> n" and "n + int (length fs) \<le> i64_max"
    and "i \<in> ws_pending s"
    and "\<forall>v \<in> set (streaming_reply i # sent_frames sid n fs). wire_ok sj v"
    and "s' = read_wire sj now (streaming_reply i # sent_frames sid n fs) s"
  shows "ws_answers s' i = Some (Inr (JObj [(''status'', JStr ''streaming'')]))"
    and "ws_published s' = ws_published s @ frame_events sid n fs"
proof -
  note dec = sent_frames_decode [OF assms(1-3), of sj sid]
  have rep: "decode_value sj (streaming_reply i) = Decoded_Result i (JObj [(''status'', JStr ''streaming'')])"
    unfolding streaming_reply_def by (rule decode_reply)
  have "\<exists>ev. decode_value sj v = Decoded_Event ev" if "v \<in> set (sent_frames sid n fs)" for v
  proof -
    have "decode_value sj v \<in> set (map (decode_value sj) (sent_frames sid n fs))" using that by simp
    then show ?thesis unfolding dec by auto
  qed
  with assms(5) have "\<forall>v \<in> set (sent_frames sid n fs). wire_ok sj v \<and> (\<exists>ev. decode_value sj v = Decoded_Event ev)"
    by simp
  from read_events_answers [OF this, of now] assms(4,5)
  show "ws_answers s' i = Some (Inr (JObj [(''status'', JStr ''streaming'')]))"
    by (simp add: assms(6) read_wire_line rep settle_def)
  have "client_events sj (streaming_reply i # sent_frames sid n fs) = frame_events sid n fs"
    using client_events_decoded [OF dec] by (simp add: client_events_def rep)
  with read_wire_published [OF assms(5), of now s]
  show "ws_published s' = ws_published s @ frame_events sid n fs" by (simp add: assms(6))
qed

section \<open>What the tab shows\<close>

text \<open>The event loop of the supervisor delivers what the client published.\<close>

fun deliver_events :: "serde \<Rightarrow> nat \<Rightarrow> event_params list \<Rightarrow> 'u core \<Rightarrow> 'u core panics" where
  "deliver_events sj snk [] w = Some w"
| "deliver_events sj snk (ev # evs) w =
     (case deliver_event sj ev snk w of None \<Rightarrow> panic | Some w' \<Rightarrow> deliver_events sj snk evs w')"

text \<open>Every tab has room for \<open>k\<close> more rows within the 32-bit indices.\<close>

definition room :: "nat \<Rightarrow> 'u core \<Rightarrow> bool" where
  "room k w \<longleftrightarrow> (\<forall>key live. chats w key = Some live \<longrightarrow> length (r_rows (l_reducer live)) + k \<le> u32_max)"

lemma room_small: "room k w \<Longrightarrow> small w"
  by (fastforce simp: room_def small_def)

lemma row_effect_grows: "row_effect a rs rs' \<Longrightarrow> length rs' \<le> Suc (length rs)"
  by (induction rule: row_effect.induct) auto

lemma deliver_tab:
  fixes env :: "'u core_env" and w :: "'u core"
  assumes "tab_at sid n e w" and "chats w sid = Some live" and "ev_session_id ev = sid" and "ev_seq ev = Some (n + 1)"
    and "in_step (ce_json env) snk w" and "room (Suc k) w"
  shows "\<exists>w' live' cs. deliver_event (ce_json env) ev snk w = Some w' \<and> tab_at sid (n + 1) e w' \<and>
     chats w' sid = Some live' \<and> reducer_apply (ce_json env) (l_reducer live) ev = Some (l_reducer live', cs) \<and>
     in_step (ce_json env) snk w' \<and> room k w'"
proof -
  from deliver_numbered [OF assms(1,3,4)] obtain w' where
    w': "deliver_event (ce_json env) ev snk w = Some w'" "tab_at sid (n + 1) e w'" by blast
  have wf: "core_wf w" and key: "route_key w (ev_session_id ev) = Some sid"
    using assms(1,3) by (auto simp: tab_at_def route_key_def)
  from wf obtain live' cs where l': "chats w' sid = Some live'"
    "reducer_apply (ce_json env) (l_reducer live) ev = Some (l_reducer live', cs)"
  proof (cases rule: route_event_cases [where sj = "ce_json env" and ev = ev])
    case none
    with key assms(2) that show ?thesis by (auto simp: route_event_def Let_def split: option.splits)
  next
    case (routed key lv r changes)
    with w'(1) \<open>route_key w (ev_session_id ev) = Some sid\<close> assms(2)
    have "\<exists>live'. chats w' sid = Some live' \<and> l_reducer live' = r" "key = sid" "live = lv"
      by (auto simp: deliver_event_def)
    with routed(3) that show ?thesis by blast
  qed
  have grown: "length (r_rows (l_reducer live')) \<le> Suc (length (r_rows (l_reducer live)))"
    using row_effect_grows [OF apply_effect [OF core_wfD(1) [OF wf assms(2)] l'(2)]] .
  have "room k w'"
    unfolding room_def
  proof (intro allI impI)
    fix k' l
    assume l: "chats w' k' = Some l"
    show "length (r_rows (l_reducer l)) + k \<le> u32_max"
    proof (cases "k' = sid")
      case True
      with l l'(1) grown assms(2,6) show ?thesis by (fastforce simp: room_def)
    next
      case False
      with deliver_event_frame(4) [OF wf w'(1), of k'] key l have "chats w k' = Some l" by simp
      with assms(6) show ?thesis by (fastforce simp: room_def)
    qed
  qed
  moreover have "in_step (ce_json env) snk w'"
    by (rule core_step_in_step [OF deliver_event_step [OF wf w'(1)] wf assms(5) room_small]) fact
  ultimately show ?thesis using w' l' by blast
qed

lemma deliver_turn:
  fixes env :: "'u core_env" and w :: "'u core"
  assumes "i64_min \<le> n" and "n + int (length fs) \<le> i64_max"
    and "tab_at sid n e w" and "chats w sid = Some live" and "in_step (ce_json env) snk w" and "room (length fs) w"
  shows "\<exists>w' live' cs. deliver_events (ce_json env) snk (frame_events sid n fs) w = Some w' \<and>
     tab_at sid (n + int (length fs)) e w' \<and> chats w' sid = Some live' \<and>
     foldM (reducer_apply (ce_json env)) (l_reducer live) (frame_events sid n fs) = Some (l_reducer live', cs) \<and>
     in_step (ce_json env) snk w'"
  using assms
proof (induction fs arbitrary: n w live)
  case (Cons f fs)
  let ?ev = "decode_replayed sid (logged_event f (n + 1))"
  have "is_i64 (n + 1)" using Cons.prems(1,2) by simp
  note ev = frame_event [OF this, of sid f]
  have "room (Suc (length fs)) w" using Cons.prems(6) by simp
  from deliver_tab [OF Cons.prems(3,4) ev(1,2) Cons.prems(5) this] obtain w1 live1 c1 where
    1: "deliver_event (ce_json env) ?ev snk w = Some w1" "tab_at sid (n + 1) e w1" "chats w1 sid = Some live1"
    "reducer_apply (ce_json env) (l_reducer live) ?ev = Some (l_reducer live1, c1)"
    "in_step (ce_json env) snk w1" "room (length fs) w1" by blast
  from Cons.IH [OF _ _ 1(2,3,5,6)] Cons.prems(1,2) obtain w' live' cs where
    "deliver_events (ce_json env) snk (frame_events sid (n + 1) fs) w1 = Some w'"
    "tab_at sid (n + 1 + int (length fs)) e w'" "chats w' sid = Some live'"
    "foldM (reducer_apply (ce_json env)) (l_reducer live1) (frame_events sid (n + 1) fs) = Some (l_reducer live', cs)"
    "in_step (ce_json env) snk w'" by auto
  with 1(1,4) show ?case by (simp add: algebra_simps)
qed simp

text \<open>
  A turn whose answer opens with \<open>message.start\<close>, is not interrupted and ends with
  \<open>message.complete\<close> leaves a settled row with the final text, whatever comes before and
  after it.
\<close>

lemma answer_stays_open:
  assumes "reducer_wf r" and "streaming r = Some i" and "\<forall>ev \<in> set evs. \<not> ends_answer ev"
    and "foldM (reducer_apply sj) r evs = Some (r', cs)"
  shows "reducer_wf r' \<and> streaming r' = Some i"
  using assms
proof (induction evs arbitrary: r cs)
  case (Cons ev evs)
  then obtain r1 c1 c2 where 1: "reducer_apply sj r ev = Some (r1, c1)"
    "foldM (reducer_apply sj) r1 evs = Some (r', c2)" by (auto split: option.splits)
  with Cons.prems(3) apply_delta [OF Cons.prems(1,2) _ 1(1)] Cons.IH [OF apply_wf [OF Cons.prems(1) 1(1)] _ _ 1(2)]
  show ?case by simp
qed simp

lemma settled_stays:
  assumes "reducer_wf r" and "foldM (reducer_apply sj) r evs = Some (r', cs)"
    and "i < length (r_rows r)" and "settled (r_kind r i)"
  shows "i < length (r_rows r') \<and> r_rows r' ! i = r_rows r ! i"
proof (rule applies_effect_induct [OF assms(2,1)])
  show "i < length (r_rows r) \<and> r_rows r ! i = r_rows r ! i" using assms(3) by simp
  show "i < length rs' \<and> rs' ! i = r_rows r ! i"
    if "row_effect True rs rs'" "i < length rs \<and> rs ! i = r_rows r ! i" for rs rs'
    using row_effect_length [OF that(1)] row_effect_settled [OF that(1), of i] that(2) assms(4) by auto
qed

lemma foldM_parts:
  assumes "foldM f s (xs @ ys) = Some (s', cs)"
  obtains s1 c1 c2 where "foldM f s xs = Some (s1, c1)" "foldM f s1 ys = Some (s', c2)"
  using assms by (auto simp: foldM_append split: option.splits)

lemma answer_settles:
  assumes "reducer_wf r" and "foldM (reducer_apply sj) r (pre @ st # mid @ fin # post) = Some (r', cs)"
    and "event_type st = ''message.start''" and "ev_session_id st \<noteq> ''''"
    and "\<forall>ev \<in> set mid. \<not> ends_answer ev"
    and "event_type fin = ''message.complete''" and "ev_session_id fin \<noteq> ''''" and "is_object (ev_payload fin)"
  shows "\<exists>i usage warning. i < length (r_rows r') \<and>
     r_kind r' i = Assistant (str_at (ev_payload fin) ''text'') False usage warning"
proof -
  obtain r1 c1 c2 where 1: "foldM (reducer_apply sj) r pre = Some (r1, c1)"
    "foldM (reducer_apply sj) r1 (st # mid @ fin # post) = Some (r', c2)"
    by (rule foldM_parts [OF assms(2)])
  have "reducer_wf r1" using applies_wf [OF assms(1), of sj pre] 1(1) by (metis option.inject prod.inject)
  obtain r2 c3 c4 where 2: "reducer_apply sj r1 st = Some (r2, c3)"
    "foldM (reducer_apply sj) r2 (mid @ fin # post) = Some (r', c4)"
    using 1(2) by (auto split: option.splits)
  have wf2: "reducer_wf r2" by (rule apply_wf [OF \<open>reducer_wf r1\<close> 2(1)])
  have open2: "streaming r2 = Some (length (r_rows r1))"
    using 2(1) assms(3,4) by (auto simp: reducer_apply_def dispatch_def on_message_start_def Let_def)
  obtain r3 c5 c6 where 3: "foldM (reducer_apply sj) r2 mid = Some (r3, c5)"
    "foldM (reducer_apply sj) r3 (fin # post) = Some (r', c6)"
    by (rule foldM_parts [OF 2(2)])
  note r3 = answer_stays_open [OF wf2 open2 assms(5) 3(1)]
  let ?i = "length (r_rows r1)"
  have fin: "reducer_wf r3" "streaming r3 = Some ?i" using r3 by simp_all
  from complete_seals_answer [OF this assms(6-8), of sj] obtain r4 where 4:
    "reducer_apply sj r3 fin = Some (r4, [\<lparr>sc_key = ev_session_id fin, sc_change = RowUpdated ?i\<rparr>])"
    "length (r_rows r4) = length (r_rows r3)"
    "r_kind r4 ?i = Assistant (str_at (ev_payload fin) ''text'') False
       (unwrap_or '''' (map_option (to_compact_string sj) (get_key (ev_payload fin) ''usage'')))
       (str_at (ev_payload fin) ''warning'')" by blast
  obtain c7 where 5: "foldM (reducer_apply sj) r4 post = Some (r', c7)"
    using 3(2) 4(1) by (auto split: option.splits)
  have "?i < length (r_rows r4)" using reducer_wfD(2) [OF fin] 4(2) by simp
  moreover have "settled (r_kind r4 ?i)" by (simp add: 4(3))
  ultimately have "?i < length (r_rows r') \<and> r_rows r' ! ?i = r_rows r4 ! ?i"
    by (rule settled_stays [OF apply_wf [OF fin(1) 4(1)] 5])
  with 4(3) show ?thesis by auto
qed

lemma frame_events_types:
  assumes "i64_min \<le> n" and "n + int (length fs) \<le> i64_max"
  shows "map (\<lambda>ev. (ev_session_id ev, event_type ev, ev_payload ev)) (frame_events sid n fs) =
     map (\<lambda>f. (sid, unwrap_or '''' (frame_type f), frame_payload f)) fs"
  using assms
proof (induction fs arbitrary: n)
  case (Cons f fs)
  then have "is_i64 (n + 1)" by simp
  with Cons show ?case by (simp add: frame_event)
qed simp

lemma answer_in_turn:
  assumes "reducer_wf r" and "foldM (reducer_apply sj) r (frame_events sid n fs) = Some (r', cs)"
    and "sid \<noteq> ''''" and "i64_min \<le> n" and "fs = pre @ st # mid @ fin # post"
    and "n + int (length fs) \<le> i64_max" and "frame_type st = Some ''message.start''"
    and "\<forall>f \<in> set mid. frame_type f \<notin> Some ` {''message.start'', ''message.interim'', ''message.complete''}"
    and "frame_type fin = Some ''message.complete''" and "is_object (frame_payload fin)"
  shows "\<exists>i usage warning. i < length (r_rows r') \<and>
     r_kind r' i = Assistant (str_at (frame_payload fin) ''text'') False usage warning"
proof -
  define m where "m = n + int (length pre)"
  define k where "k = m + 1 + int (length mid)"
  have b: "i64_min \<le> m" "m + 1 \<le> i64_max" "k + 1 \<le> i64_max" "m + 1 + int (length mid) \<le> i64_max"
    using assms(4-6) by (simp_all add: m_def k_def)
  let ?st = "decode_replayed sid (logged_event st (m + 1))"
  let ?fin = "decode_replayed sid (logged_event fin (k + 1))"
  have evs: "frame_events sid n fs = frame_events sid n pre @ ?st # frame_events sid (m + 1) mid @ ?fin #
      frame_events sid (k + 1) post"
    by (simp add: assms(5) frame_events_append m_def k_def)
  have "is_i64 (m + 1)" "is_i64 (k + 1)" using b by (simp_all add: k_def)
  note ev = frame_event [OF this(1), of sid st] frame_event [OF this(2), of sid fin]
  have "\<not> ends_answer ev" if "ev \<in> set (frame_events sid (m + 1) mid)" for ev
  proof -
    have "(ev_session_id ev, event_type ev, ev_payload ev) \<in>
        set (map (\<lambda>ev. (ev_session_id ev, event_type ev, ev_payload ev)) (frame_events sid (m + 1) mid))"
      using that by force
    then obtain f where "f \<in> set mid" "event_type ev = unwrap_or '''' (frame_type f)"
      using frame_events_types [of "m + 1" mid sid] b by auto
    with assms(8) show ?thesis by (cases "frame_type f") (auto simp: ends_answer_def)
  qed
  with answer_settles [OF assms(1) assms(2) [unfolded evs]] ev assms(3,7,9,10) show ?thesis by simp
qed

section \<open>Prompt to answer\<close>


text \<open>
  A codec for the frames of a list: the text of a frame is its position in unary. It is a
  codec the wire can carry whatever the frames are.
\<close>

definition listing_serde :: "json list \<Rightarrow> serde" where
  "listing_serde vs =
     \<lparr>to_string = (\<lambda>v. Some (replicate (Suc (length (takeWhile (\<lambda>u. u \<noteq> v) vs))) CHR ''x'')),
      from_str = (\<lambda>t. if t \<noteq> '''' \<and> length t \<le> length vs then Some (vs ! (length t - 1)) else None),
      parse_error = (\<lambda>_. ''''), num_to_string = (\<lambda>_. '''')\<rparr>"

lemma listing_wire_ok:
  assumes "v \<in> set vs"
  shows "wire_ok (listing_serde vs) v"
proof -
  let ?k = "length (takeWhile (\<lambda>u. u \<noteq> v) vs)"
  have "takeWhile (\<lambda>u. u \<noteq> v) vs \<noteq> vs" using assms by (auto simp: takeWhile_eq_all_conv)
  then have k: "?k < length vs"
    by (metis length_takeWhile_le nat_less_le takeWhile_dropWhile_id append_self_conv length_append add_left_cancel
        add_0_right length_0_conv)
  then have "vs ! ?k = v" using nth_length_takeWhile by blast
  moreover have "trim (replicate (Suc ?k) CHR ''x'') = replicate (Suc ?k) CHR ''x''"
  proof (rule trim_fix)
    show "hd (replicate (Suc ?k) CHR ''x'') \<in> set (unreserved @ ''&='')"
      "last (replicate (Suc ?k) CHR ''x'') \<in> set (unreserved @ ''&='')"
      by (simp_all only: replicate_Suc list.sel(1) last_replicate [of "Suc _", simplified]) (simp_all add: unreserved_def)
  qed simp
  moreover have "nl \<notin> set (replicate (Suc ?k) CHR ''x'')" "cr \<notin> set (replicate (Suc ?k) CHR ''x'')"
    by (auto simp: set_replicate_conv_if)
  ultimately show ?thesis
    using k by (simp add: wire_ok_def listing_serde_def to_compact_string_def Let_def del: replicate_Suc)
qed

definition prompt_frames :: "json list" where
  "prompt_frames = streaming_reply (call_id 1) # sent_frames ''s'' 0 sample_turn"

definition listing_env :: "plain_url core_env" where
  "listing_env = plain_env\<lparr>ce_json := listing_serde prompt_frames\<rparr>"


end
