(* ===== verification/Ws_Heartbeat.thy ===== *)
theory Ws_Heartbeat
  imports Ws_Props
begin

text \<open>
  The heartbeat of the WebSocket client over time (\<open>spawn_heartbeat\<close> of \<open>rpc/client.rs\<close>): a
  silent connection is noticed within the deadline and one interval, and a connection that
  is heard from is never closed by it.
\<close>

section \<open>Timed runs\<close>

text \<open>
  The sections of the client with the times at which they run: a round of the heartbeat, a
  message the reader gets, and what callers and the writer do.
\<close>

datatype timed =
    At_Beat nat
  | At_Message nat ws_message
  | At_Issue string json
  | At_Timeout string nat
  | At_Write bool
  | At_Close string
  | At_Subscribe

fun timed_sec :: "serde \<Rightarrow> timed \<Rightarrow> ws \<Rightarrow> ws" where
  "timed_sec sj (At_Beat now) s = heartbeat_tick sj now s"
| "timed_sec sj (At_Message now m) s = (if ws_reader s then reader_step sj now m s else s)"
| "timed_sec sj (At_Issue meth params) s = snd (call_issue sj meth params s)"
| "timed_sec sj (At_Timeout i ms) s = call_timeout i ms s"
| "timed_sec sj (At_Write sent) s = (if ws_writer s then writer_step sent s else s)"
| "timed_sec sj (At_Close reason) s = shutdown reason s"
| "timed_sec sj At_Subscribe s = snd (subscribe s)"

definition timed_run :: "serde \<Rightarrow> timed list \<Rightarrow> ws \<Rightarrow> ws" where
  "timed_run sj acts s = fold (timed_sec sj) acts s"

lemma timed_run_simps [simp]:
  "timed_run sj [] s = s"
  "timed_run sj (a # acts) s = timed_run sj acts (timed_sec sj a s)"
  "timed_run sj (xs @ ys) s = timed_run sj ys (timed_run sj xs s)"
  by (simp_all add: timed_run_def)

text \<open>An inbound frame, and what ends a connection for another reason than silence.\<close>

fun frame_in :: "timed \<Rightarrow> bool" where
  "frame_in (At_Message _ (Msg_Close _)) = False"
| "frame_in (At_Message _ Msg_Error) = False"
| "frame_in (At_Message _ Msg_Eof) = False"
| "frame_in (At_Message _ _) = True"
| "frame_in _ = False"

fun other_end :: "timed \<Rightarrow> bool" where
  "other_end (At_Message _ (Msg_Close _)) = True"
| "other_end (At_Message _ Msg_Error) = True"
| "other_end (At_Message _ Msg_Eof) = True"
| "other_end (At_Write sent) = (\<not> sent)"
| "other_end (At_Close _) = True"
| "other_end _ = False"

fun beats :: "timed list \<Rightarrow> nat list" where
  "beats [] = []"
| "beats (At_Beat t # acts) = t # beats acts"
| "beats (_ # acts) = beats acts"

text \<open>Rounds at most \<open>i\<close> apart, the first at most \<open>i\<close> after \<open>t\<close>.\<close>

fun steady :: "nat \<Rightarrow> nat \<Rightarrow> nat list \<Rightarrow> bool" where
  "steady i t [] = True"
| "steady i t (b # bs) = (b \<le> t + i \<and> steady i b bs)"

text \<open>Every round finds that a frame came in less than \<open>d\<close> ago.\<close>

fun heard_in_time :: "nat \<Rightarrow> nat \<Rightarrow> timed list \<Rightarrow> bool" where
  "heard_in_time d h [] = True"
| "heard_in_time d h (a # acts) =
     (case a of
        At_Beat now \<Rightarrow> now - h < d \<and> heard_in_time d h acts
      | At_Message now _ \<Rightarrow> heard_in_time d now acts
      | _ \<Rightarrow> heard_in_time d h acts)"

lemma timed_run_is_ws_run: "ws_run sj s (timed_run sj acts s)"
proof (induction acts arbitrary: s)
  case (Cons a acts)
  have "ws_run sj s (timed_sec sj a s)"
    by (cases a) (auto intro: reader_step_run ws_step.intros)
  with Cons.IH [of "timed_sec sj a s"] show ?case by simp
qed simp

lemma call_issue_beat [simp]:
  "ws_conn (snd (call_issue sj meth params s)) = ws_conn s"
  "ws_heartbeat (snd (call_issue sj meth params s)) = ws_heartbeat s"
  "ws_config (snd (call_issue sj meth params s)) = ws_config s"
  "ws_last_inbound (snd (call_issue sj meth params s)) = ws_last_inbound s"
  by (simp_all add: call_issue_def enqueue_def Let_def)

lemma record_seq_beat [simp]:
  "ws_heartbeat (record_seq ev s) = ws_heartbeat s" "ws_config (record_seq ev s) = ws_config s"
  "ws_last_inbound (record_seq ev s) = ws_last_inbound s"
  by (simp_all add: record_seq_def Let_def split: option.split)

lemma read_line_beat [simp]:
  "ws_conn (read_line sj l s) = ws_conn s" "ws_heartbeat (read_line sj l s) = ws_heartbeat s"
  "ws_config (read_line sj l s) = ws_config s" "ws_last_inbound (read_line sj l s) = ws_last_inbound s"
  by (simp_all add: read_line_def settle_def split: option.split decoded.split)

lemma read_lines_beat [simp]:
  "ws_conn (fold (read_line sj) ls s) = ws_conn s" "ws_heartbeat (fold (read_line sj) ls s) = ws_heartbeat s"
  "ws_config (fold (read_line sj) ls s) = ws_config s"
  "ws_last_inbound (fold (read_line sj) ls s) = ws_last_inbound s"
  by (induction ls arbitrary: s) simp_all

lemma enqueue_beat [simp]:
  "ws_heartbeat (enqueue m s) = ws_heartbeat s" "ws_config (enqueue m s) = ws_config s"
  "ws_last_inbound (enqueue m s) = ws_last_inbound s"
  by (simp_all add: enqueue_def)

definition is_closed :: "ws \<Rightarrow> bool" where
  "is_closed s \<longleftrightarrow> (\<exists>r. ws_conn s = State_Closed r)"

text \<open>Without an inbound frame, a section leaves the heartbeat and its clock alone or ends the connection.\<close>

lemma silent_sec:
  assumes "\<not> frame_in a" and "\<not> is_closed s" and "ws_heartbeat s = Some n"
    and "\<not> is_closed (timed_sec sj a s)"
  shows "ws_config (timed_sec sj a s) = ws_config s" "ws_last_inbound (timed_sec sj a s) = ws_last_inbound s"
    "\<exists>m. ws_heartbeat (timed_sec sj a s) = Some m"
    "a = At_Beat now \<Longrightarrow> now - ws_last_inbound s < cfg_deadline (ws_config s)"
proof -
  have "ws_config (timed_sec sj a s) = ws_config s \<and> ws_last_inbound (timed_sec sj a s) = ws_last_inbound s \<and>
      (\<exists>m. ws_heartbeat (timed_sec sj a s) = Some m) \<and>
      (a = At_Beat now \<longrightarrow> now - ws_last_inbound s < cfg_deadline (ws_config s))"
  proof (cases a)
    case (At_Beat b)
    with assms show ?thesis
      by (auto simp: heartbeat_tick_def is_closed_def shutdown_def Let_def split: option.splits connection_state.splits if_splits)
  next
    case (At_Message b m)
    with assms show ?thesis
      by (cases m) (auto simp: is_closed_def reader_end_def split: connection_state.splits if_splits)
  next
    case (At_Write sent)
    with assms show ?thesis
      by (auto simp: is_closed_def writer_step_def writer_gone_def Let_def split_beta
          split: list.splits outbound.splits connection_state.splits if_splits)
  next
    case (At_Close r)
    with assms show ?thesis by (auto simp: is_closed_def shutdown_def split: connection_state.splits)
  qed (use assms in \<open>auto simp: call_timeout_def subscribe_def split: option.splits\<close>)
  then show "ws_config (timed_sec sj a s) = ws_config s" "ws_last_inbound (timed_sec sj a s) = ws_last_inbound s"
    "\<exists>m. ws_heartbeat (timed_sec sj a s) = Some m"
    "a = At_Beat now \<Longrightarrow> now - ws_last_inbound s < cfg_deadline (ws_config s)" by simp_all
qed

lemma silence_closes:
  assumes "\<forall>a \<in> set acts. \<not> frame_in a" and "ws_heartbeat s = Some n" and "cfg_deadline (ws_config s) = d"
    and "ws_last_inbound s = h" and "t \<le> h + d" and "steady i t (beats acts)" and "\<exists>b \<in> set (beats acts). h + d \<le> b"
  shows "\<exists>pre post. acts = pre @ post \<and> is_closed (timed_run sj pre s) \<and> (\<forall>b \<in> set (beats pre). b \<le> h + d + i)"
  using assms
proof (induction acts arbitrary: s n t)
  case (Cons a acts)
  let ?s = "timed_sec sj a s"
  show ?case
  proof (cases "is_closed s")
    case True
    then show ?thesis by (intro exI [of _ "[]"] exI [of _ "a # acts"]) simp
  next
    case False
    have a: "\<not> frame_in a" using Cons.prems(1) by simp
    have bound: "\<forall>b \<in> set (beats [a]). b \<le> h + d + i" using Cons.prems(5,6) by (cases a) auto
    show ?thesis
    proof (cases "is_closed ?s")
      case True
      with bound show ?thesis by (intro exI [of _ "[a]"] exI [of _ acts]) simp
    next
      case still: False
      note k = silent_sec [OF a False Cons.prems(2) still]
      define t' where "t' = (case a of At_Beat b \<Rightarrow> b | _ \<Rightarrow> t)"
      have "t' \<le> h + d" "steady i t' (beats acts)" "\<exists>b \<in> set (beats acts). h + d \<le> b"
        using k(4) Cons.prems(3-7) by (cases a; force simp: t'_def)+
      moreover obtain m where "ws_heartbeat ?s = Some m" using k(3) by blast
      ultimately obtain pre post where "acts = pre @ post" "is_closed (timed_run sj pre ?s)"
        "\<forall>b \<in> set (beats pre). b \<le> h + d + i"
        using Cons.IH [of ?s m t'] Cons.prems(1,3,4) k(1,2) by auto
      moreover have "set (beats (a # pre)) = set (beats [a]) \<union> set (beats pre)" by (cases a) auto
      ultimately show ?thesis using bound by (intro exI [of _ "a # pre"] exI [of _ post]) auto
    qed
  qed
qed simp

text \<open>A call that waits is answered at the latest when the connection closes.\<close>

definition waits_or_done :: "string \<Rightarrow> ws \<Rightarrow> bool" where
  "waits_or_done i s \<longleftrightarrow> ws_answers s i \<noteq> None \<or> (i \<in> ws_pending s \<and> \<not> is_closed s)"

lemma waits_read_lines: "waits_or_done i s \<Longrightarrow> waits_or_done i (fold (read_line sj) ls s)"
proof (induction ls arbitrary: s)
  case (Cons l ls)
  from Cons.prems have "waits_or_done i (read_line sj l s)"
    by (auto simp: waits_or_done_def is_closed_def read_line_def settle_def split: option.split decoded.split)
  with Cons.IH show ?case by simp
qed simp

lemma waits_timed_sec:
  assumes "waits_or_done i s"
  shows "waits_or_done i (timed_sec sj a s)"
proof (cases a)
  case (At_Message now m)
  have "waits_or_done i (s\<lparr>ws_last_inbound := now\<rparr>)" using assms by (simp add: waits_or_done_def is_closed_def)
  with At_Message assms show ?thesis
    by (cases m) (auto simp: waits_read_lines, auto simp: waits_or_done_def reader_end_def is_closed_def)
next
  case (At_Beat now)
  with assms show ?thesis
    by (auto simp: waits_or_done_def is_closed_def heartbeat_tick_def shutdown_def Let_def
        split: option.splits connection_state.splits)
next
  case (At_Write sent)
  with assms show ?thesis
    by (auto simp: waits_or_done_def is_closed_def writer_step_def writer_gone_def Let_def split_beta
        split: list.splits outbound.splits connection_state.splits)
qed (use assms in \<open>auto simp: waits_or_done_def is_closed_def call_issue_def call_timeout_def shutdown_def
    subscribe_def Let_def split: option.splits connection_state.splits\<close>)

lemma waits_timed_run: "waits_or_done i s \<Longrightarrow> waits_or_done i (timed_run sj acts s)"
  by (induction acts arbitrary: s) (simp_all add: waits_timed_sec)

text \<open>A connection that is heard from stays.\<close>

lemma calm_sec:
  assumes "\<not> is_closed s" and "\<not> other_end a" and "ws_reader s"
    and "\<And>now. a = At_Beat now \<Longrightarrow> now - ws_last_inbound s < cfg_deadline (ws_config s)"
  shows "ws_conn (timed_sec sj a s) = ws_conn s \<and> ws_config (timed_sec sj a s) = ws_config s \<and>
     ws_reader (timed_sec sj a s) \<and>
     ws_last_inbound (timed_sec sj a s) = (case a of At_Message now _ \<Rightarrow> now | _ \<Rightarrow> ws_last_inbound s)"
proof (cases a)
  case (At_Message now m)
  have "ws_reader (fold (read_line sj) ls s')" if "ws_reader s'" for ls s'
    using that by (induction ls arbitrary: s') simp_all
  with At_Message assms show ?thesis by (cases m) auto
next
  case (At_Beat now)
  with assms show ?thesis
    by (auto simp: is_closed_def heartbeat_tick_def enqueue_def Let_def split: option.split connection_state.split)
qed (use assms in \<open>auto simp: call_issue_def call_timeout_def enqueue_def subscribe_def writer_step_def writer_gone_def Let_def
    split: option.split list.split outbound.split\<close>)

lemma calm_run:
  assumes "\<not> is_closed s" and "\<forall>a \<in> set acts. \<not> other_end a" and "ws_reader s"
    and "heard_in_time (cfg_deadline (ws_config s)) (ws_last_inbound s) acts"
  shows "ws_conn (timed_run sj acts s) = ws_conn s"
  using assms
proof (induction acts arbitrary: s)
  case (Cons a acts)
  have "ws_conn (timed_sec sj a s) = ws_conn s \<and> ws_config (timed_sec sj a s) = ws_config s \<and>
     ws_reader (timed_sec sj a s) \<and>
     ws_last_inbound (timed_sec sj a s) = (case a of At_Message now _ \<Rightarrow> now | _ \<Rightarrow> ws_last_inbound s)"
    by (rule calm_sec) (use Cons.prems in auto)
  note k = this
  have "heard_in_time (cfg_deadline (ws_config s))
      (case a of At_Message now _ \<Rightarrow> now | _ \<Rightarrow> ws_last_inbound s) acts"
    using Cons.prems(4) by (cases a) simp_all
  with k have "heard_in_time (cfg_deadline (ws_config (timed_sec sj a s))) (ws_last_inbound (timed_sec sj a s)) acts"
    by simp
  with Cons k show ?case by (simp add: is_closed_def)
qed simp

text \<open>
  C21: the heartbeat notices silence in time and raises no false alarm. Take a connection whose
  heartbeat runs, heard from last at time \<open>h\<close>. If nothing comes in any more, rounds come at
  most one interval \<open>i\<close> apart and reach the deadline, then among whatever callers and the
  writer do the connection is closed by time \<open>h + deadline + i\<close>, and every call that waited
  has its answer. If instead every round finds a frame from less than the deadline ago and
  nothing else ends the connection, it is as open as before.
\<close>

theorem silence_is_noticed:
  assumes "ws_heartbeat s = Some n" and "\<forall>r. ws_conn s \<noteq> State_Closed r" and "ws_reader s"
    and "d = cfg_deadline (ws_config s)" and "h = ws_last_inbound s"
  shows "((\<forall>a \<in> set acts. \<not> frame_in a) \<and> steady i h (beats acts) \<and> (\<exists>b \<in> set (beats acts). h + d \<le> b) \<longrightarrow>
      (\<exists>pre post r. acts = pre @ post \<and> ws_conn (timed_run sj pre s) = State_Closed r \<and>
         (\<forall>b \<in> set (beats pre). b \<le> h + d + i) \<and>
         (\<forall>c \<in> ws_pending s. ws_answers (timed_run sj pre s) c \<noteq> None))) \<and>
    ((\<forall>a \<in> set acts. \<not> other_end a) \<and> heard_in_time d h acts \<longrightarrow>
      ws_conn (timed_run sj acts s) = ws_conn s)"
proof (intro conjI impI)
  have up: "\<not> is_closed s" using assms(2) by (simp add: is_closed_def)
  assume a: "(\<forall>a \<in> set acts. \<not> frame_in a) \<and> steady i h (beats acts) \<and> (\<exists>b \<in> set (beats acts). h + d \<le> b)"
  then obtain pre post where pre: "acts = pre @ post" "is_closed (timed_run sj pre s)"
    "\<forall>b \<in> set (beats pre). b \<le> h + d + i"
    using silence_closes [of acts s n d h h i sj] assms(1,4,5) by auto
  have "ws_answers (timed_run sj pre s) c \<noteq> None" if "c \<in> ws_pending s" for c
    using waits_timed_run [of c s sj pre] that up pre(2) by (auto simp: waits_or_done_def)
  with pre show "\<exists>pre post r. acts = pre @ post \<and> ws_conn (timed_run sj pre s) = State_Closed r \<and>
      (\<forall>b \<in> set (beats pre). b \<le> h + d + i) \<and> (\<forall>c \<in> ws_pending s. ws_answers (timed_run sj pre s) c \<noteq> None)"
    unfolding is_closed_def by blast
next
  assume "(\<forall>a \<in> set acts. \<not> other_end a) \<and> heard_in_time d h acts"
  then show "ws_conn (timed_run sj acts s) = ws_conn s"
    using calm_run [of s acts sj] assms(2-5) by (simp add: is_closed_def)
qed

lemma silence_is_noticed_witness:
  "(\<exists>pre post r. [At_Issue ''m'' JNull, At_Beat 15005, At_Beat 30005, At_Beat 45005] = pre @ post \<and>
      ws_conn (timed_run two_doc_serde pre connected) = State_Closed r \<and>
      (\<forall>b \<in> set (beats pre). b \<le> 60005)) \<and>
   ws_conn (timed_run two_doc_serde [At_Beat 15005, At_Message 20000 Msg_Pong, At_Beat 50000] connected) = State_Open"
proof -
  have c: "ws_heartbeat connected = Some 0" "\<forall>r. ws_conn connected \<noteq> State_Closed r" "ws_reader connected"
    "45000 = cfg_deadline (ws_config connected)" "5 = ws_last_inbound connected" "ws_conn connected = State_Open"
    by (simp_all add: connected_simp got_ready_simp ws_connecting_def client_config_default_def)
  from silence_is_noticed [OF c(1-5), where i = 15000 and sj = two_doc_serde and
      acts = "[At_Issue ''m'' JNull, At_Beat 15005, At_Beat 30005, At_Beat 45005]"]
    silence_is_noticed [OF c(1-5), where i = 15000 and sj = two_doc_serde and
      acts = "[At_Beat 15005, At_Message 20000 Msg_Pong, At_Beat 50000]"] c(6)
  show ?thesis by simp blast
qed

end
