(* ===== verification/Spec2Isabelle.thy ===== *)
theory Spec2Isabelle
  imports Supervisor_Props Ws_Props Tools Test_Server Gateway_Recovery
    Unit_Tests_Pure Unit_Tests_Reducer Unit_Tests_Api Unit_Tests_Store Unit_Tests_Auth
    Unit_Tests_Core Integration_Tests Client_Scenarios End_To_End Ws_Heartbeat
begin

text \<open>
  A model of the Hermo client core (\<open>src/hermes_core/src\<close>, Rust) and of the stand-in gateway
  it is exercised against (\<open>src/tools/fake_gateway/src\<close>), and the theorems that make them
  correct, each by itself and together.

  The program. Hermo is a chat client for an agent gateway. The core keeps one transcript per
  open tab and mirrors it to the app: the gateway sends JSON-RPC frames over a WebSocket, the
  WebSocket client decodes them into replies and events, the core routes each event to the
  tab of its session, the tab's reducer turns it into row changes, and every change goes to
  the app's sink with the row as JSON. A supervisor task keeps the connection alive, resumes
  the tabs after a reconnect and replays what was missed. The tab list, the endpoint and the
  cookie jar live in files. The stand-in gateway serves recorded turns: it cuts a recording
  into turns, hands out one-time tickets over HTTP, answers the RPC methods of the client on
  WebSocket connections, streams a turn's frames under fresh numbers and keeps them for a
  client that was away. The probe is a command line client of the core.

  Theories and what they model:
  \<^item> Prelude, \<open>Rust_Str\<close>: conventions (panics, strings as bytes) and \<open>str\<close> methods.
  \<^item> Json (\<open>json.rs\<close>), \<open>Core_Error\<close> (\<open>error.rs\<close> and the conversions of \<open>rpc/client.rs\<close>,
    \<open>rpc/frames.rs\<close>, \<open>auth/client.rs\<close>), Frames (\<open>protocol.rs\<close>, \<open>rpc/frames.rs\<close>).
  \<^item> \<open>Transcript_Model\<close> (\<open>transcript/model.rs\<close>), Reducer (\<open>transcript/reducer.rs\<close>): rows, cards,
    header and one function per event handler, answer and rebuild. \<open>Reducer_Facts\<close> has the
    invariant, \<open>Change_Stream\<close> the observer of a change stream and the locale of machines that
    keep an observer in step, \<open>Reducer_Stream\<close> its interpretation on the reducer,
    \<open>Row_Evolution\<close> what a handler may do to a row, \<open>Reducer_Props\<close> the properties.
  \<^item> Registry (\<open>session_registry.rs\<close>) with the locale of keyed stores interpreted on it,
    Policies (\<open>reconnect.rs\<close>, \<open>bot_chat.rs\<close>), Markdown (\<open>transcript/markdown.rs\<close>), Slash
    (\<open>rpc/slash.rs\<close>), Api (\<open>rpc/api.rs\<close>), Storage (\<open>std::fs\<close> with faults), Endpoint
    (\<open>auth/endpoint.rs\<close>), \<open>Auth_Client\<close> (\<open>auth/client.rs\<close>).
  \<^item> \<open>Ws_Client\<close> (\<open>rpc/client.rs\<close>): the shared state, and the sections that callers, the reader,
    the writer and the heartbeat run on it. \<open>Ws_Facts\<close> has the step relation and the
    invariant of reachable states, \<open>Ws_Props\<close> the properties, \<open>Ws_Heartbeat\<close> runs with times.
  \<^item> \<open>Core_State\<close> (DTOs, \<open>CoreState\<close>, files, \<open>route_event\<close>, \<open>deliver_event\<close>, rebuild of
    \<open>core.rs\<close>), \<open>Core_Ops\<close> (the exported operations), \<open>Core_Extras\<close> (DTOs of pairing and markdown,
    clock, the sleep of the reconnect ladder and the stop signal), \<open>Core_Sync\<close> (resume, catch-up, approval
    re-emission, establishing a connection). \<open>Core_Facts\<close>: the invariant, and that every
    operation keeps it and returns. \<open>Core_Steps\<close>: the sections under the lock as a step
    relation and the app's row lists as read off the callbacks. \<open>Core_Runs\<close>: operations are
    runs of sections. \<open>Core_Props\<close>, \<open>Core_Behaviour\<close>: the properties; \<open>Core_Findings\<close>:
    behaviours the comments do not promise.
  \<^item> Supervisor (\<open>supervise\<close>, \<open>supervise_inner\<close> of \<open>core.rs\<close>) and \<open>Supervisor_Props\<close>.
  \<^item> Fixtures (\<open>fixtures.rs\<close> of the gateway): loading, serving and rewriting turns, with the
    reference that cuts a list of events. \<open>Fake_Gateway\<close> (\<open>server.rs\<close>): the state
    \<open>GatewayState\<close>, tickets, event logs, every handler, the tasks and the connections.
    \<open>Gateway_Facts\<close>: the sections of the gateway, its invariant, and that every handler is a
    run of sections. \<open>Gateway_Http\<close>: reading a request from a socket, routing, responses,
    the pairing payload. \<open>Gateway_Props\<close>: the properties, with the locale of numbered event
    logs interpreted on the sessions.
  \<^item> \<open>Gateway_Wire\<close>: what a connection of the gateway delivers, and what the WebSocket client
    that reads it publishes. \<open>Gateway_Recovery\<close>: core, WebSocket client and gateway together,
    over a turn whose connection drops. \<open>End_To_End\<close>: the same together, from a prompt to the
    recorded answer in the app's rows.
  \<^item> \<open>Gateway_Client\<close>: the client's codec, auth client, endpoint parser and core put against the
    gateway. Tools: the flags and runs of the gateway (\<open>main.rs\<close>, \<open>start\<close>) and of the probe
    (\<open>bin/hermes-probe.rs\<close>). \<open>Test_Server\<close>: the HTTP server of the auth client's unit tests
    (\<open>auth/test_http_server.rs\<close>), and that its counters are what the client saw.
  \<^item> \<open>Json_Text\<close> and \<open>Url_Text\<close>: instances of the JSON and URL parameters that print and parse
    real text, with their laws; they are what the tests below run on, not a model of the
    crates. \<open>Unit_Tests_Pure\<close>, \<open>Unit_Tests_Reducer\<close>, \<open>Unit_Tests_Api\<close>, \<open>Unit_Tests_Store\<close>,
    \<open>Unit_Tests_Auth\<close>, \<open>Unit_Tests_Core\<close> (the inline tests of the sources) and
    \<open>Integration_Tests\<close> (\<open>tests/qr_roundtrip.rs\<close>, \<open>tests/reducer_multisession.rs\<close>) and
    \<open>Client_Scenarios\<close> (\<open>tests/client_fake_server.rs\<close>): each test is a definition of its own name,
    and the lemmas whose names end in \<open>pass\<close> or \<open>passes\<close> evaluate them on the model.
    \<open>Test_Gateways\<close>: the replies of the in-process gateways of the unit tests, and that a call
    over them resolves to what their handler answers.

  What the groups of lemmas show:
  \<^item> reducer: no panic; the change stream reproduces the rows; settled rows never change;
    streamed text is the concatenation of the deltas; a tool id has one card, and its
    completion reaches it; answers resolve one card once; a resume rebuilds from history;
  \<^item> core: in any interleaving of its tasks the app's rows are the transcripts' rows, no
    operation panics, an event touches its tab only, a submitted message is shown once, the
    history epoch tells a rebuild from growth, lost gaps are rebuilt, files survive crashes;
  \<^item> WebSocket client: each call resolves once with the reply of its id, the first close reason
    stays, closing leaves no pending call, watermarks are maxima, silence is noticed in time;
  \<^item> supervisor: its runs are runs of the core; the backoff ladder; the reasons to leave; a stop
    signal always ends the sleep between two attempts;
  \<^item> gateway: one response per request, in the client's protocol; turns end; closed sessions
    stay closed; tickets admit once; the recording is cut as the reference says; how bytes
    arrive does not matter;
  \<^item> gateway and client: a prompt gets its recorded answer into the app's rows; a connection
    delivers in order, without loss or repetition; a dropped
    connection is invisible after the resume; replaying a missed turn is the same as having received it; login,
    ticket and handshake fit together; the printed pairing payload is read back;
  \<^item> the pure parts: registry, backoff, bot chat, markdown, slash commands, URLs, HTTP errors;
  \<^item> the tests: what the repository's own tests assert holds of the model, which ties the
    definitions to inputs and outputs that the code is known to have.

  Concurrency. A critical section, or a stretch of code that touches shared state once, is one
  step. An await is a call of a parameter that returns the answer together with the state as
  it is by then, so that it covers whatever the other tasks did meanwhile.

  Parameters: the JSON crate's printing and parsing (\<open>serde\<close>), the URL crate (\<open>url_api\<close>, with
  the laws \<open>url_laws\<close> that \<open>plain_api\<close> satisfies), the file system's faults (\<open>io_env\<close>), the
  gateway (\<open>rpc\<close>), the HTTP and WebSocket stacks (\<open>net\<close>), and the enumeration order of a hash
  map. For the gateway: the files of a recording (\<open>line_reader\<close>), what the reads of a socket
  return (\<open>reads\<close>), the conversion to valid UTF-8 (\<open>lossy\<close>), percent encoding and decoding,
  and the clock's text. Each property that assumes something of them has a witness with a
  concrete instance.

  Bounds. Row indices of the change DTOs have 32 bits: the mirror property is about
  transcripts within that (the conversion saturates beyond it). The alias ladder recurses on
  the hops left, at most eight. Everything else terminates structurally or is a step relation;
  there is no fuel (the peek of a connection looks at most 100 times, as the code does).
  Sequence numbers and creation orders are 64 bit in the code and only counted up by one,
  compared and copied; they are integers here, and a property that reads one back from JSON
  asks that it is within 64 bits. The gateway's ticket and session counters are 64 bit words.

  Modelling choices. A turn's recording and sending of one frame is one step (the channel
  cannot block). What the gateway puts on a channel is the JSON value, not its text. The loop
  of \<open>sleep_until_stopped\<close> is one step per await and per read of the flag. The waiting loop of
  the probe is an argument that says what the core has become by its end.

  Not modelled: the tokio runtime and its teardown (\<open>Drop\<close> of \<open>HermesCore\<close>, \<open>Running\<close> of the
  gateway), binding sockets and the accept loop, the bytes of the WebSocket handshake, the
  UniFFI layer, logging and what the tools print on the error stream, the tests that
  run over a recorded session file or scan the sources, and the Android and iOS apps.
\<close>

end
